(* ===== verification/Prelude.thy ===== *)
theory Prelude
  imports Main "HOL-Library.Finite_Map" "HOL-Library.List_Lexorder" "HOL-Library.Char_ord"
begin

text \<open>
  The part of Go that every component of the controller uses: error values, the outcome of
  a call that can return an error or panic, calls that change state, the loop over a slice
  that stops at the first error, the iteration order of a map, and sets of strings.

  A Go call on a receiver with state \<open>'s\<close> is a function \<open>'s \<Rightarrow> 'a outcome \<times> 's\<close>: the state
  is returned also when the call fails, because Go does not roll back what was done before an
  error. Reasoning is by the weakest precondition \<open>wp\<close>, whose equations are in \<open>wp_simps\<close>.
\<close>

named_theorems wp_simps \<open>equations of the weakest precondition of each statement form\<close>
named_theorems go_defs \<open>definitions of pure Go helpers, unfolded by evaluation proofs\<close>

section \<open>Errors and outcomes\<close>

text \<open>
  Go error values. \<open>ApiErr\<close> is \<open>googleapi.Error\<close> (status code and message), \<open>Errorf\<close> is
  what \<open>fmt.Errorf\<close> returns (the format with its string arguments filled in, and the errors
  it formats, in order), \<open>Aggregate\<close> is \<open>utilerrors.NewAggregate\<close> of a nonempty list,
  \<open>StatusErr\<close> an error of the Kubernetes API with its reason. The last three are the error types
  that the controller itself declares.
\<close>

datatype gerror =
    ApiErr int string
  | Errorf string "gerror list"
  | Aggregate "gerror list"
  | StatusErr string
  | FirewallSyncError gerror string
  | ErrorNodePortNotFound string string gerror
  | ErrorSvcAppProtosParsing string string gerror

datatype 'a outcome = Ok 'a | Err gerror | Panics string

type_synonym ('s, 'a) go = "'s \<Rightarrow> 'a outcome \<times> 's"

fun is_ok :: "'a outcome \<Rightarrow> bool" where
  "is_ok (Ok _) = True"
| "is_ok (Err _) = False"
| "is_ok (Panics _) = False"

fun map_outcome :: "('a \<Rightarrow> 'b) \<Rightarrow> 'a outcome \<Rightarrow> 'b outcome" where
  "map_outcome f (Ok a) = Ok (f a)"
| "map_outcome f (Err e) = Err e"
| "map_outcome f (Panics p) = Panics p"

lemma is_ok_iff: "is_ok r \<longleftrightarrow> (\<exists>a. r = Ok a)"
  by (cases r) auto

text \<open>\<open>utilerrors.NewAggregate\<close>: nil for an empty list of errors.\<close>

definition new_aggregate :: "gerror list \<Rightarrow> unit outcome" where
  "new_aggregate es = (if es = [] then Ok () else Err (Aggregate es))"

lemma new_aggregate_Ok [simp]: "new_aggregate es = Ok u \<longleftrightarrow> es = []"
  by (simp add: new_aggregate_def)

lemma new_aggregate_Err [simp]: "new_aggregate es = Err e \<longleftrightarrow> es \<noteq> [] \<and> e = Aggregate es"
  by (auto simp: new_aggregate_def)

lemma new_aggregate_not_Panics [simp]: "new_aggregate es \<noteq> Panics p"
  by (simp add: new_aggregate_def)

section \<open>Statements\<close>

definition ret :: "'a \<Rightarrow> ('s, 'a) go" where
  "ret a s = (Ok a, s)"

definition fail :: "gerror \<Rightarrow> ('s, 'a) go" where
  "fail e s = (Err e, s)"

definition panic :: "string \<Rightarrow> ('s, 'a) go" where
  "panic msg s = (Panics msg, s)"

text \<open>A call that has no effect on the state.\<close>

definition lift_outcome :: "'a outcome \<Rightarrow> ('s, 'a) go" where
  "lift_outcome r s = (r, s)"

text \<open>\<open>x, err := m; if err != nil { return err }; f(x)\<close>\<close>

definition bind :: "('s, 'a) go \<Rightarrow> ('a \<Rightarrow> ('s, 'b) go) \<Rightarrow> ('s, 'b) go" where
  "bind m f s =
     (case m s of
        (Ok a, s') \<Rightarrow> f a s'
      | (Err e, s') \<Rightarrow> (Err e, s')
      | (Panics p, s') \<Rightarrow> (Panics p, s'))"

text \<open>
  \<open>x, err := m\<close> followed by code that inspects \<open>err\<close>: the continuation sees the value or
  the error. A panic still unwinds.
\<close>

definition bind_err :: "('s, 'a) go \<Rightarrow> (gerror + 'a \<Rightarrow> ('s, 'b) go) \<Rightarrow> ('s, 'b) go" where
  "bind_err m f s =
     (case m s of
        (Ok a, s') \<Rightarrow> f (Inr a) s'
      | (Err e, s') \<Rightarrow> f (Inl e) s'
      | (Panics p, s') \<Rightarrow> (Panics p, s'))"

text \<open>\<open>if err := m; err != nil { return fmt.Errorf(...) }\<close>, with \<open>g\<close> the error returned for \<open>err\<close>.\<close>

definition wrap_err :: "(gerror \<Rightarrow> gerror) \<Rightarrow> ('s, 'a) go \<Rightarrow> ('s, 'a) go" where
  "wrap_err g m s = (case m s of (Err e, s') \<Rightarrow> (Err (g e), s') | (r, s') \<Rightarrow> (r, s'))"

text \<open>A call on a component of the state: \<open>get\<close> reads it and \<open>put\<close> stores it back.\<close>

definition on_part :: "('s \<Rightarrow> 't) \<Rightarrow> ('t \<Rightarrow> 's \<Rightarrow> 's) \<Rightarrow> ('t, 'a) go \<Rightarrow> ('s, 'a) go" where
  "on_part get put m s = (case m (get s) of (r, t) \<Rightarrow> (r, put t s))"

definition read_state :: "('s \<Rightarrow> 'a) \<Rightarrow> ('s, 'a) go" where
  "read_state f s = (Ok (f s), s)"

definition modify_state :: "('s \<Rightarrow> 's) \<Rightarrow> ('s, unit) go" where
  "modify_state f s = (Ok (), f s)"

text \<open>\<open>defer d()\<close> followed by the body \<open>m\<close>: the deferred update runs on every return of \<open>m\<close>.\<close>

definition deferring :: "('s \<Rightarrow> 's) \<Rightarrow> ('s, 'a) go \<Rightarrow> ('s, 'a) go" where
  "deferring d m s = (case m s of (r, s') \<Rightarrow> (r, d s'))"

text \<open>\<open>for _, x := range xs { if err := body(x); err != nil { return err } }\<close>\<close>

fun for_each :: "('a \<Rightarrow> ('s, unit) go) \<Rightarrow> 'a list \<Rightarrow> ('s, unit) go" where
  "for_each body [] = ret ()"
| "for_each body (x # xs) = bind (body x) (\<lambda>_. for_each body xs)"

text \<open>The same loop with the results appended to a slice.\<close>

fun map_each :: "('a \<Rightarrow> ('s, 'b) go) \<Rightarrow> 'a list \<Rightarrow> ('s, 'b list) go" where
  "map_each body [] = ret []"
| "map_each body (x # xs) =
     bind (body x) (\<lambda>y. bind (map_each body xs) (\<lambda>ys. ret (y # ys)))"

text \<open>
  The loop that collects errors instead of stopping:
  \<open>for _, x := range xs { if err := body(x); err != nil { errs = append(errs, err) } }\<close>
\<close>

fun collect_errs :: "('a \<Rightarrow> ('s, unit) go) \<Rightarrow> 'a list \<Rightarrow> ('s, gerror list) go" where
  "collect_errs body [] = ret []"
| "collect_errs body (x # xs) =
     bind_err (body x)
       (\<lambda>r. bind (collect_errs body xs)
          (\<lambda>es. ret (case r of Inl e \<Rightarrow> e # es | Inr _ \<Rightarrow> es)))"

section \<open>Weakest preconditions\<close>

definition wp :: "('s, 'a) go \<Rightarrow> ('a outcome \<Rightarrow> 's \<Rightarrow> bool) \<Rightarrow> 's \<Rightarrow> bool" where
  "wp m Q s = (case m s of (r, s') \<Rightarrow> Q r s')"

lemma wpI: "(\<And>r s'. m s = (r, s') \<Longrightarrow> Q r s') \<Longrightarrow> wp m Q s"
  by (auto simp: wp_def split: prod.split)

lemma wpD: "wp m Q s \<Longrightarrow> m s = (r, s') \<Longrightarrow> Q r s'"
  by (simp add: wp_def)

lemma wp_mono: "wp m P s \<Longrightarrow> (\<And>r s'. P r s' \<Longrightarrow> Q r s') \<Longrightarrow> wp m Q s"
  by (auto simp: wp_def split: prod.splits)

lemma wp_conj: "wp m P s \<Longrightarrow> wp m Q s \<Longrightarrow> wp m (\<lambda>r s'. P r s' \<and> Q r s') s"
  by (auto simp: wp_def split: prod.splits)

text \<open>The postcondition of a continuation that runs only after success.\<close>

definition on_ok :: "('a \<Rightarrow> 's \<Rightarrow> bool) \<Rightarrow> ('b outcome \<Rightarrow> 's \<Rightarrow> bool) \<Rightarrow> 'a outcome \<Rightarrow> 's \<Rightarrow> bool" where
  "on_ok P Q r s = (case r of Ok a \<Rightarrow> P a s | Err e \<Rightarrow> Q (Err e) s | Panics p \<Rightarrow> Q (Panics p) s)"

lemma on_ok_simps [simp]:
  "on_ok P Q (Ok a) s = P a s"
  "on_ok P Q (Err e) s = Q (Err e) s"
  "on_ok P Q (Panics p) s = Q (Panics p) s"
  by (simp_all add: on_ok_def)

lemma on_ok_eta [simp]:
  "on_ok P Q (Ok a) = P a"
  "on_ok P Q (Err e) = Q (Err e)"
  "on_ok P Q (Panics p) = Q (Panics p)"
  by (simp_all add: on_ok_def fun_eq_iff)

lemma on_ok_on_ok [simp]: "on_ok P (on_ok P' Q) = on_ok P Q"
  by (auto simp: on_ok_def fun_eq_iff split: outcome.split)

text \<open>
  The equations leave the state argument out, so that they also apply to a continuation.
\<close>

lemma wp_ret [wp_simps]: "wp (ret a) Q = Q (Ok a)"
  by (simp add: fun_eq_iff wp_def ret_def)

lemma wp_fail [wp_simps]: "wp (fail e) Q = Q (Err e)"
  by (simp add: fun_eq_iff wp_def fail_def)

lemma wp_panic [wp_simps]: "wp (panic p) Q = Q (Panics p)"
  by (simp add: fun_eq_iff wp_def panic_def)

lemma wp_lift_outcome [wp_simps]: "wp (lift_outcome r) Q = Q r"
  by (simp add: fun_eq_iff wp_def lift_outcome_def)

lemma wp_read_state [wp_simps]: "wp (read_state f) Q = (\<lambda>s. Q (Ok (f s)) s)"
  by (simp add: fun_eq_iff wp_def read_state_def)

lemma wp_modify_state [wp_simps]: "wp (modify_state f) Q = (\<lambda>s. Q (Ok ()) (f s))"
  by (simp add: fun_eq_iff wp_def modify_state_def)

lemma wp_bind [wp_simps]: "wp (bind m f) Q = wp m (on_ok (\<lambda>a. wp (f a) Q) Q)"
  by (auto simp: fun_eq_iff wp_def bind_def on_ok_def split: prod.splits outcome.splits)

lemma wp_bind_err [wp_simps]:
  "wp (bind_err m f) Q =
     wp m (\<lambda>r. case r of Ok a \<Rightarrow> wp (f (Inr a)) Q | Err e \<Rightarrow> wp (f (Inl e)) Q
               | Panics p \<Rightarrow> Q (Panics p))"
  by (auto simp: fun_eq_iff wp_def bind_err_def split: prod.splits outcome.splits)

lemma wp_wrap_err [wp_simps]:
  "wp (wrap_err g m) Q = wp m (\<lambda>r. Q (case r of Err e \<Rightarrow> Err (g e) | r \<Rightarrow> r))"
  by (auto simp: fun_eq_iff wp_def wrap_err_def split: prod.splits outcome.splits)

lemma wp_on_part [wp_simps]:
  "wp (on_part get put m) Q = (\<lambda>s. wp m (\<lambda>r t. Q r (put t s)) (get s))"
  by (auto simp: fun_eq_iff wp_def on_part_def split: prod.splits)

lemma wp_deferring [wp_simps]: "wp (deferring d m) Q = wp m (\<lambda>r s'. Q r (d s'))"
  by (auto simp: fun_eq_iff wp_def deferring_def split: prod.splits)

lemma wp_if [wp_simps]: "wp (if b then m else n) Q = (if b then wp m Q else wp n Q)"
  by simp

lemma wp_case_option [wp_simps]:
  "wp (case x of None \<Rightarrow> m | Some a \<Rightarrow> f a) Q =
     (case x of None \<Rightarrow> wp m Q | Some a \<Rightarrow> wp (f a) Q)"
  by (cases x) auto

lemma wp_case_sum [wp_simps]:
  "wp (case x of Inl e \<Rightarrow> g e | Inr a \<Rightarrow> f a) Q =
     (case x of Inl e \<Rightarrow> wp (g e) Q | Inr a \<Rightarrow> wp (f a) Q)"
  by (cases x) auto

text \<open>
  The loop rule: \<open>I dn s\<close> holds before each iteration, with \<open>dn\<close> the elements already
  processed. It gives the postcondition of a complete run, and on an early exit what the
  failing iteration establishes.
\<close>

lemma wp_for_each:
  assumes init: "I [] s"
    and step: "\<And>dn x rest s. xs = dn @ x # rest \<Longrightarrow> I dn s \<Longrightarrow>
                 wp (body x) (on_ok (\<lambda>_. I (dn @ [x])) Q) s"
    and finish: "\<And>s. I xs s \<Longrightarrow> Q (Ok ()) s"
  shows "wp (for_each body xs) Q s"
proof -
  have "wp (for_each body ys) Q s" if "xs = dn @ ys" "I dn s" for ys dn s
    using that
  proof (induction ys arbitrary: dn s)
    case Nil
    then show ?case by (simp add: wp_simps finish)
  next
    case (Cons y ys)
    have "wp (body y) (on_ok (\<lambda>_. I (dn @ [y])) Q) s"
      using step Cons.prems by blast
    then show ?case
      unfolding for_each.simps wp_simps
      by (rule wp_mono) (use Cons in \<open>auto simp: on_ok_def split: outcome.splits\<close>)
  qed
  then show ?thesis using init by simp
qed

lemma wp_map_each:
  assumes init: "I [] [] s"
    and step: "\<And>dn ys x rest s. xs = dn @ x # rest \<Longrightarrow> I dn ys s \<Longrightarrow>
                 wp (body x) (on_ok (\<lambda>y. I (dn @ [x]) (ys @ [y])) Q) s"
    and finish: "\<And>ys s. I xs ys s \<Longrightarrow> Q (Ok ys) s"
  shows "wp (map_each body xs) Q s"
proof -
  have "wp (map_each body zs) (on_ok (\<lambda>ws. Q (Ok (ys @ ws))) Q) s"
    if "xs = dn @ zs" "I dn ys s" for zs dn ys s
    using that
  proof (induction zs arbitrary: dn ys s)
    case Nil
    then show ?case by (simp add: wp_simps finish)
  next
    case (Cons z zs)
    have "wp (body z) (on_ok (\<lambda>y. I (dn @ [z]) (ys @ [y])) Q) s"
      using step Cons.prems by blast
    moreover have "wp (map_each body zs) (on_ok (\<lambda>ws. Q (Ok (ys @ y # ws))) Q) s'"
      if "I (dn @ [z]) (ys @ [y]) s'" for y s'
      using Cons.IH [OF _ that] Cons.prems(1) by simp
    ultimately show ?case
      unfolding map_each.simps wp_simps
      by (elim wp_mono) (auto simp: on_ok_def wp_simps elim!: wp_mono split: outcome.splits)
  qed
  from this [of "[]" xs "[]" s] init show ?thesis
    by (auto elim!: wp_mono simp: on_ok_def split: outcome.splits)
qed

text \<open>An invariant that the body keeps on every outcome is kept by the loop.\<close>

lemma wp_for_each_inv:
  assumes "I s" and "\<And>x s. x \<in> set xs \<Longrightarrow> I s \<Longrightarrow> wp (body x) (\<lambda>_. I) s"
  shows "wp (for_each body xs) (\<lambda>_. I) s"
  using assms
proof (induction xs arbitrary: s)
  case Nil
  then show ?case by (simp add: wp_simps)
next
  case (Cons x xs)
  have "wp (body x) (\<lambda>_. I) s" using Cons.prems by simp
  then show ?case
    unfolding for_each.simps wp_simps
    by (rule wp_mono) (use Cons in \<open>auto simp: on_ok_def split: outcome.splits\<close>)
qed

lemma wp_collect_errs_inv:
  assumes "I s" and "\<And>x s. x \<in> set xs \<Longrightarrow> I s \<Longrightarrow> wp (body x) (\<lambda>_. I) s"
  shows "wp (collect_errs body xs) (\<lambda>_. I) s"
  using assms
proof (induction xs arbitrary: s)
  case Nil
  then show ?case by (simp add: wp_simps)
next
  case (Cons x xs)
  have body: "wp (body x) (\<lambda>_. I) s" using Cons.prems by simp
  have rest: "wp (collect_errs body xs) (on_ok (\<lambda>a. I) (\<lambda>_. I)) s'" if "I s'" for s'
    by (rule wp_mono [OF Cons.IH]) (use Cons.prems that in \<open>auto simp: on_ok_def split: outcome.splits\<close>)
  show ?case
    unfolding collect_errs.simps wp_simps
    by (rule wp_mono [OF body]) (auto simp: rest split: outcome.splits)
qed

text \<open>An invariant that holds after every statement, whatever its outcome.\<close>

lemma wp_bind_inv:
  assumes "wp m (\<lambda>_. I) s" "\<And>a s'. I s' \<Longrightarrow> wp (f a) (\<lambda>_. I) s'"
  shows "wp (bind m f) (\<lambda>_. I) s"
  unfolding wp_simps by (rule wp_mono [OF assms(1)]) (auto simp: on_ok_def assms(2) split: outcome.splits)

lemma wp_bind_err_inv:
  assumes "wp m (\<lambda>_. I) s" "\<And>a s'. I s' \<Longrightarrow> wp (f a) (\<lambda>_. I) s'"
  shows "wp (bind_err m f) (\<lambda>_. I) s"
  unfolding wp_simps by (rule wp_mono [OF assms(1)]) (auto simp: assms(2) split: outcome.splits)

lemma wp_wrap_err_inv: "wp m (\<lambda>_. I) s \<Longrightarrow> wp (wrap_err g m) (\<lambda>_. I) s"
  unfolding wp_simps .

lemma wp_map_each_inv:
  assumes "I s" and "\<And>x s. x \<in> set xs \<Longrightarrow> I s \<Longrightarrow> wp (body x) (\<lambda>_. I) s"
  shows "wp (map_each body xs) (\<lambda>_. I) s"
  using assms
proof (induction xs arbitrary: s)
  case (Cons x xs)
  then show ?case unfolding map_each.simps by (intro wp_bind_inv) (auto simp: wp_ret)
qed (simp add: wp_ret)

text \<open>What holds if no iteration failed; a failed iteration shows in the collected errors.\<close>

lemma wp_collect_errs:
  assumes init: "I [] s"
    and step: "\<And>dn x rest s. xs = dn @ x # rest \<Longrightarrow> I dn s \<Longrightarrow>
                 wp (body x) (\<lambda>r s'. case r of Ok _ \<Rightarrow> I (dn @ [x]) s' | _ \<Rightarrow> True) s"
  shows "wp (collect_errs body xs)
           (\<lambda>r s'. case r of Ok es \<Rightarrow> es = [] \<longrightarrow> I xs s' | Err _ \<Rightarrow> False | Panics _ \<Rightarrow> True) s"
proof -
  let ?Q = "\<lambda>J r s'. case r of Ok es \<Rightarrow> es = [] \<longrightarrow> J s' | Err _ \<Rightarrow> False | Panics _ \<Rightarrow> True"
  have total: "wp (collect_errs body ys) (\<lambda>r s'. \<forall>e. r \<noteq> Err e) s" for ys s
  proof (induction ys arbitrary: s)
    case (Cons y ys)
    show ?case
      by (auto simp: wp_simps on_ok_def intro!: wpI dest!: wpD [OF Cons] split: outcome.splits)
  qed (simp add: wp_simps)
  have "wp (collect_errs body ys) (?Q (I xs)) s" if "xs = dn @ ys" "I dn s" for ys dn s
    using that
  proof (induction ys arbitrary: dn s)
    case Nil
    then show ?case by (simp add: wp_simps)
  next
    case (Cons y ys)
    have body: "wp (body y) (\<lambda>r s'. case r of Ok _ \<Rightarrow> I (dn @ [y]) s' | _ \<Rightarrow> True) s"
      using step Cons.prems by blast
    have rest: "wp (collect_errs body ys) (?Q (I xs)) s'" if "I (dn @ [y]) s'" for s'
      using Cons.IH [OF _ that] Cons.prems(1) by simp
    show ?case
      unfolding collect_errs.simps wp_simps
    proof (rule wp_mono [OF body])
      fix r s' assume "case r of Ok _ \<Rightarrow> I (dn @ [y]) s' | _ \<Rightarrow> True"
      then show "(case r of Ok a \<Rightarrow> wp (collect_errs body ys)
            (on_ok (\<lambda>es. ?Q (I xs) (Ok (case Inr a of Inl e \<Rightarrow> e # es | Inr _ \<Rightarrow> es))) (?Q (I xs)))
          | Err e \<Rightarrow> wp (collect_errs body ys)
            (on_ok (\<lambda>es. ?Q (I xs) (Ok (case Inl e of Inl e \<Rightarrow> e # es | Inr _ \<Rightarrow> es))) (?Q (I xs)))
          | Panics p \<Rightarrow> ?Q (I xs) (Panics p)) s'"
        by (cases r) (auto intro: wp_mono [OF rest] wp_mono [OF total] simp: on_ok_def split: outcome.splits)
    qed
  qed
  then show ?thesis using init by simp
qed

text \<open>The same loop when no iteration panics, and when none fails.\<close>

lemma wp_collect_errs_total:
  assumes "I s" and "\<And>x s. x \<in> set xs \<Longrightarrow> I s \<Longrightarrow> wp (body x) (\<lambda>r s'. I s' \<and> (\<forall>p. r \<noteq> Panics p)) s"
  shows "wp (collect_errs body xs) (\<lambda>r s'. I s' \<and> (\<exists>es. r = Ok es)) s"
  using assms
proof (induction xs arbitrary: s)
  case Nil
  then show ?case by (simp add: wp_simps)
next
  case (Cons x xs)
  have body: "wp (body x) (\<lambda>r s'. I s' \<and> (\<forall>p. r \<noteq> Panics p)) s" using Cons.prems by simp
  have rest: "wp (collect_errs body xs) (\<lambda>r s'. I s' \<and> (\<exists>es. r = Ok es)) s'" if "I s'" for s'
    by (rule Cons.IH) (use Cons.prems that in auto)
  show ?case
    unfolding collect_errs.simps wp_simps
  proof (rule wp_mono [OF body], goal_cases)
    case (1 r s')
    then have "wp (collect_errs body xs) (\<lambda>r s'. I s' \<and> (\<exists>es. r = Ok es)) s'" using rest by simp
    then have "wp (collect_errs body xs)
        (on_ok (\<lambda>es. (\<lambda>r s'. I s' \<and> (\<exists>es. r = Ok es)) (Ok (f es))) (\<lambda>r s'. I s' \<and> (\<exists>es. r = Ok es))) s'" for f :: "gerror list \<Rightarrow> gerror list"
      by (rule wp_mono) (auto simp: on_ok_def split: outcome.splits)
    with 1 show ?case by (cases r) simp_all
  qed
qed

lemma wp_collect_errs_ok:
  assumes "I [] s"
    and "\<And>dn x rest s. xs = dn @ x # rest \<Longrightarrow> I dn s \<Longrightarrow> wp (body x) (\<lambda>r s'. r = Ok () \<and> I (dn @ [x]) s') s"
  shows "wp (collect_errs body xs) (\<lambda>r s'. r = Ok [] \<and> I xs s') s"
proof -
  have "wp (collect_errs body ys) (\<lambda>r s'. r = Ok [] \<and> I xs s') s" if "xs = dn @ ys" "I dn s" for ys dn s
    using that
  proof (induction ys arbitrary: dn s)
    case Nil
    then show ?case by (simp add: wp_simps)
  next
    case (Cons y ys)
    have body: "wp (body y) (\<lambda>r s'. r = Ok () \<and> I (dn @ [y]) s') s" using assms(2) Cons.prems by blast
    show ?case
      unfolding collect_errs.simps wp_simps
    proof (rule wp_mono [OF body], goal_cases)
      case (1 r s')
      then have "wp (collect_errs body ys) (\<lambda>r s'. r = Ok [] \<and> I xs s') s'"
        using Cons.IH [of "dn @ [y]" s'] Cons.prems(1) by simp
      with 1 show ?case by (auto elim!: wp_mono)
    qed
  qed
  from this [of "[]" xs s] assms(1) show ?thesis by simp
qed

section \<open>Maps and sets\<close>

text \<open>
  A Go map is a finite map. \<open>range\<close> over a map visits every key once in an order that the
  language leaves open: it is a parameter \<open>rng\<close> of each definition that ranges over a map,
  and the law below is what the language specification says of it.
\<close>

type_synonym ('k, 'v) gomap = "('k, 'v) fmap"

abbreviation keys :: "('k, 'v) gomap \<Rightarrow> 'k set" where
  "keys m \<equiv> fset (fmdom m)"

locale map_range =
  fixes rng :: "'k set \<Rightarrow> 'k list"
  assumes set_rng: "finite A \<Longrightarrow> set (rng A) = A"
    and distinct_rng: "finite A \<Longrightarrow> distinct (rng A)"
begin

lemma set_rng_keys [simp]: "set (rng (keys m)) = keys m"
  by (rule set_rng) simp

lemma distinct_rng_keys [simp]: "distinct (rng (keys m))"
  by (rule distinct_rng) simp

lemma rng_empty [simp]: "rng {} = []"
  using set_rng [of "{}"] by simp

end

text \<open>
  \<open>sets.String\<close> is a set of strings; \<open>List\<close> returns its elements in ascending byte order,
  which is also one of the orders that \<open>range\<close> may take.
\<close>

definition set_List :: "'k::linorder set \<Rightarrow> 'k list" where
  "set_List A = sorted_list_of_set A"

interpretation sorted_range: map_range set_List
  by unfold_locales (simp_all add: set_List_def)

text \<open>Most maps of the controller have string keys.\<close>

locale string_range = map_range rng for rng :: "string set \<Rightarrow> string list"

interpretation sorted_strings: string_range set_List
  by unfold_locales

lemma set_List_empty_iff [simp]: "finite A \<Longrightarrow> set_List A = [] \<longleftrightarrow> A = {}"
  by (simp add: set_List_def)

lemma set_set_List [simp]: "finite A \<Longrightarrow> set (set_List A) = A"
  by (rule sorted_range.set_rng)

lemma sorted_set_List [simp]: "sorted (set_List A)"
  by (simp add: set_List_def)

lemma set_List_code [code]: "set_List (set xs) = sort (remdups xs)"
  by (simp add: set_List_def sorted_list_of_set_sort_remdups)

lemma keys_fmupd [simp]: "keys (fmupd k v m) = insert k (keys m)"
  by auto

lemma keys_fmdrop [simp]: "keys (fmdrop k m) = keys m - {k}"
  by auto

lemma in_keys_iff: "k \<in> keys m \<longleftrightarrow> (\<exists>v. fmlookup m k = Some v)"
  by (metis fmdom_notD fmdom_notI not_None_eq)

lemma find_SomeD: "find P xs = Some x \<Longrightarrow> x \<in> set xs \<and> P x"
  by (induction xs) (auto split: if_splits)

lemma find_snoc: "find P (xs @ [x]) = (case find P xs of Some y \<Rightarrow> Some y | None \<Rightarrow> if P x then Some x else None)"
  by (induction xs) auto

lemma run_outcome: "fst x = r \<Longrightarrow> \<exists>s'. x = (r, s')"
  by (cases x) simp

end
