(* ===== verification/Go_Strings.thy ===== *)
theory Go_Strings
  imports Prelude
begin

text \<open>
  The functions of Go's packages \<open>strings\<close> and \<open>strconv\<close> that the controller calls, on byte
  strings, with the facts about them that the naming policy, the endpoint encoding and the
  port pools rest on: how \<open>Split\<close> behaves on a concatenation, that decimal rendering is
  injective and parses back.
\<close>

section \<open>Package strings\<close>

definition HasPrefix :: "string \<Rightarrow> string \<Rightarrow> bool" where
  "HasPrefix s p = (take (length p) s = p)"

fun Contains :: "string \<Rightarrow> string \<Rightarrow> bool" where
  "Contains [] sub = (sub = [])"
| "Contains (c # cs) sub = (HasPrefix (c # cs) sub \<or> Contains cs sub)"

text \<open>
  \<open>strings.Split\<close> for a nonempty separator (the controller splits at \<open>--\<close>, \<open>-\<close>, \<open>/\<close> and
  \<open>||\<close>): separators are found from the left and do not overlap; \<open>acc\<close> holds the current
  token in reverse.
\<close>

function split_from :: "string \<Rightarrow> string \<Rightarrow> string \<Rightarrow> string list" where
  "split_from sep acc [] = [rev acc]"
| "split_from sep acc (c # cs) =
     (if sep \<noteq> [] \<and> HasPrefix (c # cs) sep
      then rev acc # split_from sep [] (drop (length sep) (c # cs))
      else split_from sep (c # acc) cs)"
  by pat_completeness auto
termination
  by (relation "measure (\<lambda>(sep, acc, s). length s)") auto

definition Split :: "string \<Rightarrow> string \<Rightarrow> string list" where
  "Split s sep = split_from sep [] s"

text \<open>\<open>strings.Replace(s, old, new, -1)\<close> for a one-byte \<open>old\<close> and \<open>new\<close>.\<close>

definition ReplaceChar :: "string \<Rightarrow> char \<Rightarrow> char \<Rightarrow> string" where
  "ReplaceChar s a b = map (\<lambda>c. if c = a then b else c) s"

section \<open>Package strconv\<close>

definition digit_char :: "nat \<Rightarrow> char" where
  "digit_char d = char_of (48 + d)"

definition is_digit :: "char \<Rightarrow> bool" where
  "is_digit c \<longleftrightarrow> (48::nat) \<le> of_char c \<and> of_char c \<le> (57::nat)"

fun dec_nat :: "nat \<Rightarrow> string" where
  "dec_nat n = (if n < 10 then [digit_char n] else dec_nat (n div 10) @ [digit_char (n mod 10)])"

declare dec_nat.simps [simp del]

definition Itoa :: "int \<Rightarrow> string" where
  "Itoa i = (if i < 0 then CHR ''-'' # dec_nat (nat (- i)) else dec_nat (nat i))"

definition digits_value :: "string \<Rightarrow> nat" where
  "digits_value s = foldl (\<lambda>v c. v * 10 + (of_char c - 48)) 0 s"

text \<open>\<open>strconv.ParseUint(s, 10, bits)\<close>; \<open>None\<close> is a syntax or range error.\<close>

definition ParseUint :: "nat \<Rightarrow> string \<Rightarrow> nat option" where
  "ParseUint bits s =
     (if s \<noteq> [] \<and> list_all is_digit s \<and> digits_value s < 2 ^ bits
      then Some (digits_value s) else None)"

text \<open>\<open>strconv.Atoi\<close> on a 64-bit platform: an optional sign, then digits, within int64.\<close>

definition Atoi :: "string \<Rightarrow> int option" where
  "Atoi s =
     (let (neg, ds) = (case s of c # cs \<Rightarrow> if c = CHR ''-'' then (True, cs)
                                         else if c = CHR ''+'' then (False, cs) else (False, s)
                       | [] \<Rightarrow> (False, s));
          v = int (digits_value ds)
      in if ds = [] \<or> \<not> list_all is_digit ds then None
         else if neg then (if v \<le> 2 ^ 63 then Some (- v) else None)
         else (if v < 2 ^ 63 then Some v else None))"

text \<open>
  The number that \<open>Atoi\<close> returns also when it fails: zero for a malformed string, the nearest
  bound for a number out of range.
\<close>

definition Atoi_value :: "string \<Rightarrow> int" where
  "Atoi_value s =
     (let (neg, ds) = (case s of c # cs \<Rightarrow> if c = CHR ''-'' then (True, cs)
                                         else if c = CHR ''+'' then (False, cs) else (False, s)
                       | [] \<Rightarrow> (False, s));
          v = int (digits_value ds)
      in if ds = [] \<or> \<not> list_all is_digit ds then 0
         else if neg then max (- (2 ^ 63)) (- v) else min (2 ^ 63 - 1) v)"

text \<open>\<open>strconv.ParseBool\<close>\<close>

definition ParseBool :: "string \<Rightarrow> bool option" where
  "ParseBool s =
     (if s \<in> {''1'', ''t'', ''T'', ''true'', ''TRUE'', ''True''} then Some True
      else if s \<in> {''0'', ''f'', ''F'', ''false'', ''FALSE'', ''False''} then Some False
      else None)"

section \<open>Prefixes\<close>

lemma HasPrefix_append [simp]: "HasPrefix (p @ s) p"
  by (simp add: HasPrefix_def)

lemma HasPrefix_Nil [simp]: "HasPrefix s []"
  by (simp add: HasPrefix_def)

lemma HasPrefix_iff: "HasPrefix s p \<longleftrightarrow> (\<exists>r. s = p @ r)"
  by (metis HasPrefix_append HasPrefix_def append_take_drop_id)

lemma HasPrefix_Cons [simp]: "HasPrefix (c # s) (d # p) \<longleftrightarrow> c = d \<and> HasPrefix s p"
  by (auto simp: HasPrefix_def)

lemma HasPrefix_Nil_Cons [simp]: "\<not> HasPrefix [] (d # p)"
  by (simp add: HasPrefix_def)

lemma Contains_iff: "Contains s sub \<longleftrightarrow> (\<exists>a b. s = a @ sub @ b)"
proof (induction s)
  case Nil
  then show ?case by auto
next
  case (Cons c cs)
  have "(\<exists>a b. c # cs = a @ sub @ b) \<longleftrightarrow>
        (\<exists>b. c # cs = sub @ b) \<or> (\<exists>a b. cs = a @ sub @ b)"
    by (metis append_Cons append_Nil list.inject neq_Nil_conv)
  then show ?case by (simp add: Cons.IH HasPrefix_iff)
qed

section \<open>Splitting\<close>

lemma split_from_nonempty [simp]: "split_from sep acc s \<noteq> []"
  by (induction sep acc s rule: split_from.induct) auto

lemma Split_nonempty [simp]: "Split s sep \<noteq> []"
  by (simp add: Split_def)

lemma split_from_no_sep:
  "\<not> Contains s sep \<Longrightarrow> split_from sep acc s = [rev acc @ s]"
  by (induction sep acc s rule: split_from.induct) auto

lemma Split_no_sep: "\<not> Contains s sep \<Longrightarrow> Split s sep = [s]"
  by (simp add: Split_def split_from_no_sep)

text \<open>
  A separator is found right after \<open>a\<close> when none starts earlier, not even one that overlaps
  the end of \<open>a\<close>.
\<close>

lemma split_from_append:
  assumes "sep \<noteq> []" and "\<forall>i < length a. \<not> HasPrefix (drop i (a @ sep @ b)) sep"
  shows "split_from sep acc (a @ sep @ b) = (rev acc @ a) # split_from sep [] b"
  using assms
proof (induction a arbitrary: acc)
  case Nil
  then obtain d ds where sep: "sep = d # ds" by (cases sep) auto
  have "HasPrefix (sep @ b) sep" by simp
  then show ?case using sep by simp
next
  case (Cons c a)
  from Cons.prems(2) have no0: "\<not> HasPrefix (c # a @ sep @ b) sep"
    by (metis append_Cons drop0 length_greater_0_conv list.discI)
  have "\<forall>i < length a. \<not> HasPrefix (drop i (a @ sep @ b)) sep"
    using Cons.prems(2) by (metis Suc_less_eq append_Cons drop_Suc_Cons length_Cons)
  with Cons.IH Cons.prems(1) have
    "split_from sep (c # acc) (a @ sep @ b) = (rev (c # acc) @ a) # split_from sep [] b"
    by blast
  with no0 show ?case by simp
qed

lemma Split_char:
  assumes "c \<notin> set a"
  shows "Split (a @ [c] @ b) [c] = a # Split b [c]"
proof -
  have "\<not> HasPrefix (drop i (a @ [c] @ b)) [c]" if "i < length a" for i
    using that assms by (auto simp: HasPrefix_iff) (metis drop_eq_Nil hd_append hd_drop_conv_nth
        leD list.sel(1) nth_mem)
  then show ?thesis
    using split_from_append [of "[c]" a b "[]"] by (simp add: Split_def)
qed

text \<open>A separator made of one repeated byte, as \<open>--\<close> and \<open>||\<close> are.\<close>

lemma Split_double:
  assumes no: "\<not> Contains a [c, c]" and last: "a \<noteq> [] \<Longrightarrow> last a \<noteq> c"
  shows "Split (a @ [c, c] @ b) [c, c] = a # Split b [c, c]"
proof -
  have "\<not> HasPrefix (drop i (a @ [c, c] @ b)) [c, c]" if i: "i < length a" for i
  proof
    assume h: "HasPrefix (drop i (a @ [c, c] @ b)) [c, c]"
    show False
    proof (cases "Suc i < length a")
      case True
      then have "drop i a = a ! i # a ! Suc i # drop (Suc (Suc i)) a"
        using i by (simp add: Cons_nth_drop_Suc)
      with h i have "drop i a = [c, c] @ drop (Suc (Suc i)) a" by simp
      then have "a = take i a @ [c, c] @ drop (Suc (Suc i)) a"
        by (metis append_take_drop_id)
      with no show False unfolding Contains_iff by blast
    next
      case False
      with i have "i = length a - 1" and "a \<noteq> []" by auto
      then have "drop i a = [last a]"
        by (metis append_butlast_last_id append_eq_conv_conj length_butlast)
      with h i have "last a = c" by simp
      with last \<open>a \<noteq> []\<close> show False by simp
    qed
  qed
  then show ?thesis
    using split_from_append [of "[c, c]" a b "[]"] by (simp add: Split_def)
qed

text \<open>
  The last token after a final \<open>--\<close>: whatever precedes it, as long as it does not end in the
  separator's byte, which would shift the match.
\<close>

lemma last_split_from_double:
  assumes "\<not> Contains u [c, c]" and "x \<noteq> [] \<Longrightarrow> last x \<noteq> c"
  shows "last (split_from [c, c] acc (x @ [c, c] @ u)) = u"
  using assms(2)
proof (induction "length x" arbitrary: x acc rule: less_induct)
  case less
  show ?case
  proof (cases x)
    case Nil
    then show ?thesis by (simp add: split_from_no_sep assms(1))
  next
    case (Cons d ds)
    show ?thesis
    proof (cases "HasPrefix (d # ds @ [c, c] @ u) [c, c]")
      case True
      with Cons less.prems obtain es where ds: "ds = c # es" and "d = c" and es: "es \<noteq> []"
        by (cases ds) (auto split: if_splits)
      have "last (split_from [c, c] [] (es @ [c, c] @ u)) = u"
        by (rule less.hyps) (use Cons ds es less.prems in auto)
      with True Cons ds show ?thesis by simp
    next
      case False
      have "last (split_from [c, c] (d # acc) (ds @ [c, c] @ u)) = u"
        by (rule less.hyps) (use Cons less.prems in auto)
      with False Cons show ?thesis by auto
    qed
  qed
qed

lemma last_Split_double:
  "\<not> Contains u [c, c] \<Longrightarrow> (x \<noteq> [] \<Longrightarrow> last x \<noteq> c) \<Longrightarrow> last (Split (x @ [c, c] @ u) [c, c]) = u"
  unfolding Split_def by (rule last_split_from_double)

text \<open>No token of a split contains the separator.\<close>

lemma split_from_tokens:
  assumes "sep \<noteq> []"
    and "\<And>i. i < length acc \<Longrightarrow> \<not> HasPrefix (drop i (rev acc @ s)) sep"
    and "t \<in> set (split_from sep acc s)"
  shows "\<not> Contains t sep"
  using assms
proof (induction sep acc s rule: split_from.induct)
  case (1 sep acc)
  show ?case
  proof
    assume "Contains t sep"
    with 1 obtain a b where ab: "rev acc = a @ sep @ b"
      unfolding Contains_iff by auto
    then have "length acc = length a + length sep + length b"
      by (metis add.assoc length_append length_rev)
    moreover have "HasPrefix (drop (length a) (rev acc @ [])) sep" using ab by simp
    ultimately show False using 1 by (cases sep) auto
  qed
next
  case (2 sep acc c cs)
  show ?case
  proof (cases "HasPrefix (c # cs) sep")
    case True
    have acc: "\<not> Contains (rev acc) sep"
    proof
      assume "Contains (rev acc) sep"
      then obtain a b where ab: "rev acc = a @ sep @ b" unfolding Contains_iff by auto
      then have "length acc = length a + length sep + length b"
        by (metis add.assoc length_append length_rev)
      moreover have "HasPrefix (drop (length a) (rev acc @ c # cs)) sep" using ab by simp
      ultimately show False using 2(3,4) by (cases sep) auto
    qed
    from True 2(3,5) consider "t = rev acc" | "t \<in> set (split_from sep [] (drop (length sep) (c # cs)))"
      by auto
    then show ?thesis
      using acc 2(1) [OF conjI [OF 2(3) True]] 2(3) by cases auto
  next
    case False
    have "\<not> HasPrefix (drop i (rev (c # acc) @ cs)) sep" if "i < length (c # acc)" for i
      using that 2(4) [of i] False by (cases "i < length acc") (auto simp: less_Suc_eq)
    with False 2 show ?thesis by simp
  qed
qed

lemma Split_tokens: "sep \<noteq> [] \<Longrightarrow> t \<in> set (Split s sep) \<Longrightarrow> \<not> Contains t sep"
  unfolding Split_def by (rule split_from_tokens) auto

section \<open>Decimal numerals\<close>

lemma of_char_digit_char [simp]: "d < 10 \<Longrightarrow> of_char (digit_char d) = 48 + d"
  by (simp add: digit_char_def)

lemma is_digit_digit_char [simp]: "d < 10 \<Longrightarrow> is_digit (digit_char d)"
  by (simp add: is_digit_def)

lemma dec_nat_nonempty [simp]: "dec_nat n \<noteq> []"
  by (subst dec_nat.simps) simp

lemma dec_nat_digits: "list_all is_digit (dec_nat n)"
proof (induction n rule: dec_nat.induct)
  case (1 n)
  then show ?case by (subst dec_nat.simps) auto
qed

lemma digits_value_snoc [simp]: "digits_value (s @ [c]) = digits_value s * 10 + (of_char c - 48)"
  by (simp add: digits_value_def)

lemma digits_value_dec_nat [simp]: "digits_value (dec_nat n) = n"
proof (induction n rule: dec_nat.induct)
  case (1 n)
  show ?case
  proof (cases "n < 10")
    case True
    then show ?thesis by (subst dec_nat.simps) (simp add: digits_value_def)
  next
    case False
    with 1 show ?thesis by (subst dec_nat.simps) simp
  qed
qed

lemma dec_nat_inject [simp]: "dec_nat m = dec_nat n \<longleftrightarrow> m = n"
  by (metis digits_value_dec_nat)

lemma dec_nat_length: "n < 10 ^ k \<Longrightarrow> 0 < k \<Longrightarrow> length (dec_nat n) \<le> k"
proof (induction n arbitrary: k rule: dec_nat.induct)
  case (1 n)
  show ?case
  proof (cases "n < 10")
    case True
    with 1 show ?thesis by (subst dec_nat.simps) simp
  next
    case False
    with 1 obtain j where k: "k = Suc j" by (cases k) auto
    have "0 < j" using "1.prems" False k by (cases j) auto
    with 1 False k have "length (dec_nat (n div 10)) \<le> j"
      by (intro 1(1)) (auto simp: div_less_iff_less_mult mult.commute)
    with False k show ?thesis by (subst dec_nat.simps) simp
  qed
qed

lemma ParseUint_dec_nat: "n < 2 ^ bits \<Longrightarrow> ParseUint bits (dec_nat n) = Some n"
  by (simp add: ParseUint_def dec_nat_digits)

lemma ParseUint_Some: "ParseUint bits s = Some n \<Longrightarrow> n < 2 ^ bits"
  by (auto simp: ParseUint_def split: if_splits)

lemma not_digit_dash [simp]: "\<not> is_digit CHR ''-''" "\<not> is_digit CHR ''+''" "\<not> is_digit CHR ''/''"
    "\<not> is_digit CHR ''|''"
  by (simp_all add: is_digit_def)

lemma dec_nat_no_char: "\<not> is_digit c \<Longrightarrow> c \<notin> set (dec_nat n)"
  using dec_nat_digits [of n] by (auto simp: list_all_iff)

lemma dec_nat_hd: "is_digit (hd (dec_nat n))"
  using dec_nat_digits [of n] by (cases "dec_nat n") auto

lemma Atoi_Itoa:
  assumes "- (2 ^ 63) \<le> i" "i < 2 ^ 63"
  shows "Atoi (Itoa i) = Some i"
proof (cases "i < 0")
  case True
  with assms show ?thesis by (simp add: Atoi_def Itoa_def dec_nat_digits)
next
  case False
  obtain c cs where d: "dec_nat (nat i) = c # cs" by (cases "dec_nat (nat i)") auto
  with dec_nat_hd [of "nat i"] have "c \<noteq> CHR ''-''" "c \<noteq> CHR ''+''" by auto
  with d False have "Itoa i = c # cs" by (simp add: Itoa_def)
  moreover have "list_all is_digit (c # cs)" "digits_value (c # cs) = nat i"
    using d dec_nat_digits [of "nat i"] digits_value_dec_nat [of "nat i"] by simp_all
  ultimately show ?thesis
    using assms False \<open>c \<noteq> CHR ''-''\<close> \<open>c \<noteq> CHR ''+''\<close> by (simp add: Atoi_def)
qed

lemma Itoa_inject: "Itoa i = Itoa j \<longleftrightarrow> i = j"
proof
  assume eq: "Itoa i = Itoa j"
  have hd_dash: "hd (Itoa k) = CHR ''-'' \<longleftrightarrow> k < 0" for k
    using dec_nat_hd [of "nat k"] by (auto simp: Itoa_def)
  then have "i < 0 \<longleftrightarrow> j < 0" using eq by metis
  with eq show "i = j" by (auto simp: Itoa_def split: if_splits)
qed simp

lemma Itoa_nat: "Itoa (int n) = dec_nat n"
  by (simp add: Itoa_def)

section \<open>Evaluation\<close>

text \<open>
  Code equations that compute on binary integers instead of successors, so that ports evaluate.
\<close>

definition digit_of_int :: "int \<Rightarrow> char" where
  "digit_of_int d =
     (if d = 0 then CHR ''0'' else if d = 1 then CHR ''1'' else if d = 2 then CHR ''2''
      else if d = 3 then CHR ''3'' else if d = 4 then CHR ''4'' else if d = 5 then CHR ''5''
      else if d = 6 then CHR ''6'' else if d = 7 then CHR ''7'' else if d = 8 then CHR ''8''
      else CHR ''9'')"

lemma digit_of_int: "0 \<le> d \<Longrightarrow> d < 10 \<Longrightarrow> digit_of_int d = digit_char (nat d)"
proof -
  assume "0 \<le> d" "d < 10"
  then have "d \<in> set [0..9]" by simp
  then show ?thesis
    by (simp add: digit_of_int_def upto_rec1 digit_char_def) (elim disjE; simp add: char_of_def bit_0)
qed

definition dec_int :: "int \<Rightarrow> string" where
  "dec_int i = dec_nat (nat i)"

lemma dec_int_code [code]:
  "dec_int i = (if i < 10 then [digit_of_int (max 0 i)] else dec_int (i div 10) @ [digit_of_int (i mod 10)])"
  by (subst dec_int_def, subst dec_nat.simps)
    (auto simp: dec_int_def digit_of_int nat_div_distrib nat_mod_distrib max_def)

lemma Itoa_code [code]: "Itoa i = (if i < 0 then CHR ''-'' # dec_int (- i) else dec_int i)"
  by (simp add: Itoa_def dec_int_def)

lemma ParseUint_code [code]:
  "ParseUint bits s =
     (if s \<noteq> [] \<and> list_all is_digit s \<and> int (digits_value s) < 2 ^ bits
      then Some (digits_value s) else None)"
  by (simp add: ParseUint_def)

end
