(* ===== verification/Storage.thy ===== *)
theory Storage
  imports Go_Strings
begin

text \<open>
  Package \<open>storage\<close>: the in-memory pools that remember which cloud resources the controller owns
  (\<open>pkg/storage/pools.go\<close>) and the vault that keeps the cluster's UIDs in a config map
  (\<open>pkg/storage/configmaps.go\<close>). The stores under them are \<open>threadSafeMap\<close> and \<open>cache\<close> of
  client-go, which without indexers are a map and a lock; a locked operation is one atomic step.
\<close>

section \<open>Pools\<close>

type_synonym 'v InMemoryPool = "(string, 'v) gomap"

definition NewInMemoryPool :: "'v InMemoryPool" where
  "NewInMemoryPool = fmempty"

definition pool_Add :: "string \<Rightarrow> 'v \<Rightarrow> 'v InMemoryPool \<Rightarrow> 'v InMemoryPool" where
  "pool_Add key obj p = fmupd key obj p"

definition pool_Delete :: "string \<Rightarrow> 'v InMemoryPool \<Rightarrow> 'v InMemoryPool" where
  "pool_Delete key p = fmdrop key p"

definition pool_Get :: "string \<Rightarrow> 'v InMemoryPool \<Rightarrow> 'v option" where
  "pool_Get key p = fmlookup p key"

text \<open>\<open>ListKeys\<close> ranges over the map of items, so its order is a parameter.\<close>

definition pool_ListKeys :: "(string set \<Rightarrow> string list) \<Rightarrow> 'v InMemoryPool \<Rightarrow> string list" where
  "pool_ListKeys rng p = rng (keys p)"

definition Snapshot :: "(string set \<Rightarrow> string list) \<Rightarrow> 'v InMemoryPool \<Rightarrow> (string, 'v) gomap" where
  "Snapshot rng p =
     fold (\<lambda>key snap. case pool_Get key p of Some item \<Rightarrow> fmupd key item snap | None \<Rightarrow> snap)
       (pool_ListKeys rng p) fmempty"

text \<open>
  The pool that is filled again from the cloud. \<open>listed\<close> is the result of the lister;
  \<open>keyGetter\<close> the key of an object, which may fail.
\<close>

definition ReplenishPool ::
  "('v \<Rightarrow> string outcome) \<Rightarrow> 'v list outcome \<Rightarrow> 'v InMemoryPool \<Rightarrow> 'v InMemoryPool" where
  "ReplenishPool keyGetter listed p =
     (case listed of
        Ok items \<Rightarrow>
          fold (\<lambda>item p. case keyGetter item of Ok key \<Rightarrow> pool_Add key item p | _ \<Rightarrow> p) items p
      | _ \<Rightarrow> p)"

lemmas pool_defs = NewInMemoryPool_def pool_Add_def pool_Delete_def pool_Get_def pool_ListKeys_def

text \<open>A snapshot holds what the pool holds, in whatever order the keys are visited.\<close>

lemma Snapshot_fold_lookup:
  "fmlookup (fold (\<lambda>key snap. case fmlookup p key of Some item \<Rightarrow> fmupd key item snap
                       | None \<Rightarrow> snap) ks acc) k =
     (if k \<in> set ks \<inter> keys p then fmlookup p k else fmlookup acc k)"
proof (induction ks arbitrary: acc)
  case (Cons a ks)
  show ?case
    by (cases "fmlookup p a") (auto simp: Cons in_keys_iff)
qed simp

context string_range
begin

lemma Snapshot_id: "Snapshot rng p = p"
  by (rule fmap_ext) (auto simp: Snapshot_def pool_defs Snapshot_fold_lookup in_keys_iff
      simp flip: not_None_eq)

end

text \<open>Replenishing never forgets a key, and adds exactly the keys of the listed objects.\<close>

lemma ReplenishPool_fold_lookup:
  "fmlookup (fold (\<lambda>item p. case keyGetter item of Ok key \<Rightarrow> fmupd key item p | _ \<Rightarrow> p) items p) k =
     (case find (\<lambda>item. keyGetter item = Ok k) (rev items) of
        Some item \<Rightarrow> Some item | None \<Rightarrow> fmlookup p k)"
proof (induction items rule: rev_induct)
  case (snoc item items)
  then show ?case by (cases "keyGetter item") auto
qed simp

lemma ReplenishPool_lookup:
  "fmlookup (ReplenishPool keyGetter (Ok items) p) k =
     (case find (\<lambda>item. keyGetter item = Ok k) (rev items) of
        Some item \<Rightarrow> Some item | None \<Rightarrow> fmlookup p k)"
  by (simp add: ReplenishPool_def pool_defs ReplenishPool_fold_lookup cong: outcome.case_cong)

section \<open>The vault\<close>

text \<open>
  A config map with its data, which is a nil map (\<open>None\<close>) when the object carries none. An
  \<open>interface{}\<close> item is \<open>None\<close> when it is nil.
\<close>

record ConfigMap =
  cm_Namespace :: string
  cm_Name :: string
  cm_Data :: "(string, string) gomap option"

text \<open>The part of \<open>cache.Store\<close> that the vault calls, on a store with state \<open>'c\<close>.\<close>

record 'c Store =
  GetByKey :: "string \<Rightarrow> ('c, ConfigMap option) go"
  store_Add :: "ConfigMap option \<Rightarrow> ('c, unit) go"
  store_Update :: "ConfigMap option \<Rightarrow> ('c, unit) go"
  store_Delete :: "ConfigMap option \<Rightarrow> ('c, unit) go"

record ConfigMapVault =
  vault_namespace :: string
  vault_name :: string

definition UidDataKey :: string where "UidDataKey = ''uid''"
definition ProviderDataKey :: string where "ProviderDataKey = ''provider-uid''"

definition vault_key :: "ConfigMapVault \<Rightarrow> string" where
  "vault_key c = vault_namespace c @ ''/'' @ vault_name c"

text \<open>The value under a key; \<open>None\<close> when the map or the key is missing.\<close>

definition vault_Get :: "'c Store \<Rightarrow> ConfigMapVault \<Rightarrow> string \<Rightarrow> ('c, string option) go" where
  "vault_Get st c key =
     bind (GetByKey st (vault_key c))
       (\<lambda>item. case item of
          None \<Rightarrow> ret None
        | Some cfg \<Rightarrow> ret (case cm_Data cfg of None \<Rightarrow> None | Some data \<Rightarrow> fmlookup data key))"

text \<open>
  An error of the lookup is treated as a missing config map. Storing into a nil map panics.
\<close>

definition vault_Put :: "'c Store \<Rightarrow> ConfigMapVault \<Rightarrow> string \<Rightarrow> string \<Rightarrow> ('c, unit) go" where
  "vault_Put st c key val =
     (let apiObj = (\<lambda>data. Some \<lparr>cm_Namespace = vault_namespace c, cm_Name = vault_name c,
                                 cm_Data = Some data\<rparr>) in
      bind_err (GetByKey st (vault_key c))
       (\<lambda>r. case r of
          Inr (Some cfg) \<Rightarrow>
            (case cm_Data cfg of
               None \<Rightarrow> panic ''assignment to entry in nil map''
             | Some data \<Rightarrow>
                 if fmlookup data key = Some val then ret ()
                 else wrap_err (\<lambda>e. Errorf (''failed to update '' @ vault_key c) [e])
                        (store_Update st (apiObj (fmupd key val data))))
        | _ \<Rightarrow>
            wrap_err (\<lambda>e. Errorf (''failed to add '' @ vault_key c) [e])
              (store_Add st (apiObj (fmupd key val fmempty)))))"

definition vault_Delete :: "'c Store \<Rightarrow> ConfigMapVault \<Rightarrow> ('c, unit) go" where
  "vault_Delete st c =
     bind_err (GetByKey st (vault_key c))
       (\<lambda>r. case r of Inr item \<Rightarrow> store_Delete st item | Inl _ \<Rightarrow> ret ())"

subsection \<open>Stores of config maps\<close>

text \<open>
  The store over the API server. The client is a parameter: what it returns is read off its
  result only.
\<close>

record 'c ConfigMapClient =
  cmc_Get :: "string \<Rightarrow> string \<Rightarrow> ('c, ConfigMap) go"
  cmc_Create :: "string \<Rightarrow> ConfigMap \<Rightarrow> ('c, unit) go"
  cmc_Update :: "string \<Rightarrow> ConfigMap \<Rightarrow> ('c, unit) go"
  cmc_Delete :: "string \<Rightarrow> string \<Rightarrow> ('c, unit) go"

definition errors_IsNotFound :: "gerror \<Rightarrow> bool" where
  "errors_IsNotFound e = (e = StatusErr ''NotFound'')"

definition type_assertion :: "('a \<Rightarrow> ('c, 'b) go) \<Rightarrow> 'a option \<Rightarrow> ('c, 'b) go" where
  "type_assertion f obj =
     (case obj of None \<Rightarrow> panic ''interface conversion: interface is nil'' | Some x \<Rightarrow> f x)"

definition api_GetByKey :: "'c ConfigMapClient \<Rightarrow> string \<Rightarrow> ('c, ConfigMap option) go" where
  "api_GetByKey client key =
     (let nsName = Split key ''/'' in
      if length nsName \<noteq> 2
      then fail (Errorf (''failed to get key '' @ key @
                         '', unexpecte format, expecting ns/name'') [])
      else bind_err (cmc_Get client (nsName ! 0) (nsName ! 1))
        (\<lambda>r. case r of
           Inl e \<Rightarrow> if errors_IsNotFound e then ret None else fail e
         | Inr cfg \<Rightarrow> ret (Some cfg)))"

definition APIServerConfigMapStore :: "'c ConfigMapClient \<Rightarrow> 'c Store" where
  "APIServerConfigMapStore client =
     \<lparr>GetByKey = api_GetByKey client,
      store_Add = type_assertion (\<lambda>cfg. cmc_Create client (cm_Namespace cfg) cfg),
      store_Update = type_assertion (\<lambda>cfg. cmc_Update client (cm_Namespace cfg) cfg),
      store_Delete = type_assertion (\<lambda>cfg. cmc_Delete client (cm_Namespace cfg) (cm_Name cfg))\<rparr>"

text \<open>The store of \<open>NewFakeConfigMapVault\<close>: client-go's \<open>cache\<close>, keyed by the object's meta data.\<close>

definition MetaNamespaceKeyFunc :: "ConfigMap option \<Rightarrow> string outcome" where
  "MetaNamespaceKeyFunc obj =
     (case obj of
        None \<Rightarrow> Err (Errorf ''object has no meta'' [])
      | Some cfg \<Rightarrow> Ok (if cm_Namespace cfg \<noteq> [] then cm_Namespace cfg @ ''/'' @ cm_Name cfg
                        else cm_Name cfg))"

definition with_key ::
  "ConfigMap option \<Rightarrow> (string \<Rightarrow> ConfigMap \<Rightarrow> ('s, unit) go) \<Rightarrow> ('s, unit) go" where
  "with_key obj f =
     (case (obj, MetaNamespaceKeyFunc obj) of
        (Some cfg, Ok key) \<Rightarrow> f key cfg
      | _ \<Rightarrow> fail (Errorf ''couldn't create key for object'' []))"

definition cacheStore :: "ConfigMap InMemoryPool Store" where
  "cacheStore =
     \<lparr>GetByKey = (\<lambda>key. read_state (pool_Get key)),
      store_Add = (\<lambda>obj. with_key obj (\<lambda>key cfg. modify_state (pool_Add key cfg))),
      store_Update = (\<lambda>obj. with_key obj (\<lambda>key cfg. modify_state (pool_Add key cfg))),
      store_Delete = (\<lambda>obj. with_key obj (\<lambda>key cfg. modify_state (pool_Delete key)))\<rparr>"

text \<open>
  What the vault relies on: a lookup returns what the store holds under the key, and an object
  that is stored is found under \<open>namespace/name\<close>, with the other keys left alone.
\<close>

locale configmap_store =
  fixes st :: "'c Store" and view :: "'c \<Rightarrow> string \<Rightarrow> ConfigMap option"
  assumes get_law: "GetByKey st key s = (Ok (view s key), s)"
    and add_law: "cm_Namespace cfg \<noteq> [] \<Longrightarrow>
      wp (store_Add st (Some cfg)) (\<lambda>r s'. r = Ok () \<and>
        view s' = (view s)(cm_Namespace cfg @ ''/'' @ cm_Name cfg \<mapsto> cfg)) s"
    and update_law: "cm_Namespace cfg \<noteq> [] \<Longrightarrow>
      wp (store_Update st (Some cfg)) (\<lambda>r s'. r = Ok () \<and>
        view s' = (view s)(cm_Namespace cfg @ ''/'' @ cm_Name cfg \<mapsto> cfg)) s"
begin

definition contents :: "ConfigMapVault \<Rightarrow> 'c \<Rightarrow> string \<rightharpoonup> string" where
  "contents c s =
     (case view s (vault_key c) of
        Some cfg \<Rightarrow> (case cm_Data cfg of Some data \<Rightarrow> fmlookup data | None \<Rightarrow> Map.empty)
      | None \<Rightarrow> Map.empty)"

lemma vault_Get_contents: "vault_Get st c key s = (Ok (contents c s key), s)"
  by (simp add: vault_Get_def bind_def get_law contents_def ret_def split: option.split)

lemma vault_Put_contents:
  assumes ns: "vault_namespace c \<noteq> []"
    and data: "\<And>cfg. view s (vault_key c) = Some cfg \<Longrightarrow> cm_Data cfg \<noteq> None"
  shows "wp (vault_Put st c key val)
           (\<lambda>r s'. r = Ok () \<and> contents c s' = (contents c s)(key \<mapsto> val)) s"
proof -
  let ?cfg = "\<lambda>data. \<lparr>cm_Namespace = vault_namespace c, cm_Name = vault_name c, cm_Data = Some data\<rparr>"
  have upd: "wp (store_Update st (Some (?cfg d)))
      (\<lambda>r s'. r = Ok () \<and> view s' = (view s)(vault_key c \<mapsto> ?cfg d)) s" for d
    using update_law [of "?cfg d" s] ns by (simp add: vault_key_def)
  have add: "wp (store_Add st (Some (?cfg d)))
      (\<lambda>r s'. r = Ok () \<and> view s' = (view s)(vault_key c \<mapsto> ?cfg d)) s" for d
    using add_law [of "?cfg d" s] ns by (simp add: vault_key_def)
  have get: "wp (GetByKey st k) Q s = Q (Ok (view s k)) s" for k Q
    by (simp add: wp_def get_law)
  show ?thesis
  proof (cases "view s (vault_key c)")
    case None
    show ?thesis
      unfolding vault_Put_def Let_def wp_bind_err get
      using None
      by (auto intro!: wp_mono [OF add] simp: contents_def fun_eq_iff wp_wrap_err)
  next
    case (Some cfg)
    with data obtain d where d: "cm_Data cfg = Some d" by blast
    show ?thesis
      unfolding vault_Put_def Let_def wp_bind_err get
      using Some d
      by (auto intro!: wp_mono [OF upd] simp: contents_def fun_eq_iff wp_ret wp_wrap_err)
  qed
qed

end

interpretation cache: configmap_store cacheStore fmlookup
  by unfold_locales
    (auto simp: cacheStore_def pool_defs with_key_def MetaNamespaceKeyFunc_def read_state_def
      wp_modify_state fun_eq_iff)

section \<open>Properties\<close>

text \<open>
  C7: what is put into the vault is read back, and the other keys keep their values. The
  namespace has to be set (the cache keys objects without one differently) and a config map that
  is already there has to carry data.
\<close>

theorem vault_put_get:
  assumes "vault_namespace c \<noteq> []"
    and "case fmlookup s (vault_key c) of Some cfg \<Rightarrow> cm_Data cfg \<noteq> None | None \<Rightarrow> True"
    and "vault_Get cacheStore c other s = (Ok old, s)"
  shows "\<exists>s'. vault_Put cacheStore c key val s = (Ok (), s') \<and>
           vault_Get cacheStore c other s' = (Ok (if other = key then Some val else old), s')"
proof -
  obtain r s' where put: "vault_Put cacheStore c key val s = (r, s')" by fastforce
  have "r = Ok () \<and> cache.contents c s' = (cache.contents c s)(key \<mapsto> val)"
    by (rule wpD [OF cache.vault_Put_contents put]) (use assms(1,2) in auto)
  with put assms(3) show ?thesis
    by (auto simp: cache.vault_Get_contents)
qed

theorem vault_put_get_witness:
  "\<exists>s'. vault_Put cacheStore \<lparr>vault_namespace = ''kube-system'', vault_name = ''ingress-uid''\<rparr>
          UidDataKey ''0123'' NewInMemoryPool = (Ok (), s') \<and>
        vault_Get cacheStore \<lparr>vault_namespace = ''kube-system'', vault_name = ''ingress-uid''\<rparr>
          UidDataKey s' = (Ok (Some ''0123''), s')"
proof -
  let ?c = "\<lparr>vault_namespace = ''kube-system'', vault_name = ''ingress-uid''\<rparr>"
  have "vault_Get cacheStore ?c UidDataKey NewInMemoryPool = (Ok None, NewInMemoryPool)"
    by (simp add: cache.vault_Get_contents cache.contents_def NewInMemoryPool_def)
  from vault_put_get [OF _ _ this, of UidDataKey "''0123''"] show ?thesis
    by (simp add: NewInMemoryPool_def)
qed

text \<open>
  C8: replenishing a pool from the cloud only adds knowledge. No key is forgotten, the keys
  added are those of the listed objects, the last object listed under a key is the one kept, and a
  failing list or a failing key leaves the pool as it was.
\<close>

theorem replenish_pool:
  "keys (ReplenishPool keyGetter (Ok items) p) =
     keys p \<union> {key. Ok key \<in> keyGetter ` set items} \<and>
   fmlookup (ReplenishPool keyGetter (Ok items) p) k =
     (case find (\<lambda>item. keyGetter item = Ok k) (rev items) of
        Some item \<Rightarrow> Some item | None \<Rightarrow> pool_Get k p) \<and>
   ReplenishPool keyGetter (Err e) p = p"
proof -
  have "key \<in> keys (ReplenishPool keyGetter (Ok items) p) \<longleftrightarrow>
      key \<in> keys p \<or> Ok key \<in> keyGetter ` set items" for key
    unfolding in_keys_iff ReplenishPool_lookup
    by (auto simp: find_None_iff image_iff dest!: find_SomeD split: option.split, metis+)
  then show ?thesis
    by (auto simp: ReplenishPool_lookup pool_defs ReplenishPool_def [of _ "Err e"]
        split: option.split)
qed

text \<open>
  C9: deleting a vault whose config map is already gone panics over the API server: the missing
  item is passed on as nil and the type assertion of the store fails.
\<close>

theorem vault_delete_missing_panics:
  assumes "Split (vault_key c) ''/'' = [ns, name]"
    and "cmc_Get client ns name s = (Err (StatusErr ''NotFound''), s)"
  shows "\<exists>msg. vault_Delete (APIServerConfigMapStore client) c s = (Panics msg, s)"
  using assms
  by (simp add: vault_Delete_def APIServerConfigMapStore_def api_GetByKey_def bind_err_def
      errors_IsNotFound_def ret_def type_assertion_def panic_def)

theorem vault_delete_missing_panics_witness:
  "\<exists>msg. vault_Delete (APIServerConfigMapStore
       \<lparr>cmc_Get = (\<lambda>ns name. fail (StatusErr ''NotFound'')), cmc_Create = (\<lambda>ns cfg. ret ()),
        cmc_Update = (\<lambda>ns cfg. ret ()), cmc_Delete = (\<lambda>ns name. ret ())\<rparr>)
     \<lparr>vault_namespace = ''kube-system'', vault_name = ''ingress-uid''\<rparr> () = (Panics msg, ())"
  by (rule vault_delete_missing_panics [where ns = "''kube-system''" and name = "''ingress-uid''"])
    (simp_all add: vault_key_def Split_def fail_def)

end
