(* ===== verification/Compute.thy ===== *)
theory Compute
  imports Prelude
begin

text \<open>
  The resources of the Compute Engine API (packages \<open>google.golang.org/api/compute/v1\<close> and
  \<open>v0.alpha\<close>) as records with the fields that the controller reads or writes. A Go pointer to
  such a struct that may be nil is an \<open>option\<close>.

  A call of the API returns an object decoded from the response, so a value and not a
  reference: changing it locally does not change the cloud.
\<close>

record NamedPort =
  np_Name :: string
  np_Port :: int

record InstanceGroup =
  ig_Name :: string
  ig_Zone :: string
  ig_SelfLink :: string
  ig_NamedPorts :: "NamedPort list"

record Backend =
  bk_Group :: string
  bk_BalancingMode :: string
  bk_MaxRatePerInstance :: int
  bk_MaxRatePerEndpoint :: int

record BackendService =
  be_Name :: string
  be_SelfLink :: string
  be_Description :: string
  be_Protocol :: string
  be_HealthChecks :: "string list"
  be_Port :: int
  be_PortName :: string
  be_Backends :: "Backend list"

record NetworkEndpointGroup =
  neg_Name :: string
  neg_SelfLink :: string
  neg_Type :: string
  neg_NetworkEndpointType :: string
  neg_Network :: string
  neg_Subnetwork :: string

record NetworkEndpoint =
  ne_Instance :: string
  ne_IpAddress :: string
  ne_Port :: int

record HttpHealthCheckV1 =
  lhc_Name :: string
  lhc_SelfLink :: string
  lhc_Description :: string
  lhc_CheckIntervalSec :: int
  lhc_TimeoutSec :: int
  lhc_HealthyThreshold :: int
  lhc_UnhealthyThreshold :: int
  lhc_Host :: string
  lhc_Port :: int
  lhc_RequestPath :: string

record FirewallAllowed =
  fa_IPProtocol :: string
  fa_Ports :: "string list"

record Firewall =
  fw_Name :: string
  fw_Description :: string
  fw_SourceRanges :: "string list"
  fw_Network :: string
  fw_Allowed :: "FirewallAllowed list"
  fw_TargetTags :: "string list"

record PathRule =
  pr_Paths :: "string list"
  pr_Service :: string

record PathMatcher =
  pm_Name :: string
  pm_Description :: string
  pm_DefaultService :: string
  pm_PathRules :: "PathRule list"

record HostRule =
  hr_Description :: string
  hr_Hosts :: "string list"
  hr_PathMatcher :: string

record UrlMap =
  um_Name :: string
  um_SelfLink :: string
  um_DefaultService :: string
  um_HostRules :: "HostRule list"
  um_PathMatchers :: "PathMatcher list"

record TargetHttpProxy =
  tp_Name :: string
  tp_SelfLink :: string
  tp_UrlMap :: string

record TargetHttpsProxy =
  tps_Name :: string
  tps_SelfLink :: string
  tps_UrlMap :: string
  tps_SslCertificates :: "string list"

record ForwardingRule =
  fr_Name :: string
  fr_SelfLink :: string
  fr_IPAddress :: string
  fr_Target :: string
  fr_PortRange :: string
  fr_IPProtocol :: string

record SslCertificate =
  cert_Name :: string
  cert_SelfLink :: string
  cert_Certificate :: string
  cert_PrivateKey :: string

record Address =
  addr_Name :: string
  addr_Address :: string

text \<open>HTTP status codes of package \<open>net/http\<close>.\<close>

abbreviation StatusBadRequest :: int where "StatusBadRequest \<equiv> 400"
abbreviation StatusForbidden :: int where "StatusForbidden \<equiv> 403"
abbreviation StatusNotFound :: int where "StatusNotFound \<equiv> 404"
abbreviation StatusConflict :: int where "StatusConflict \<equiv> 409"

end
