(* ===== verification/Utils.thy ===== *)
theory Utils
  imports Compute Go_Strings
begin

text \<open>
  Package \<open>utils\<close> (\<open>pkg/utils/utils.go\<close>): tests on API errors, comparison of self links,
  the url map that carries the default backend under a reserved key, and the even trimming of
  name fields.
\<close>

section \<open>Errors of the API\<close>

definition FakeGoogleAPIForbiddenErr :: gerror where
  "FakeGoogleAPIForbiddenErr = ApiErr StatusForbidden []"

definition FakeGoogleAPINotFoundErr :: gerror where
  "FakeGoogleAPINotFoundErr = ApiErr StatusNotFound []"

text \<open>The argument is \<open>None\<close> for a nil error, as in Go, where a nil error has no type.\<close>

definition IsHTTPErrorCode :: "gerror option \<Rightarrow> int \<Rightarrow> bool" where
  "IsHTTPErrorCode err code = (case err of Some (ApiErr c _) \<Rightarrow> c = code | _ \<Rightarrow> False)"

definition IgnoreHTTPNotFound :: "gerror option \<Rightarrow> gerror option" where
  "IgnoreHTTPNotFound err =
     (if err \<noteq> None \<and> IsHTTPErrorCode err StatusNotFound then None else err)"

definition IsInUsedByError :: "gerror option \<Rightarrow> bool" where
  "IsInUsedByError err =
     (case err of
        Some (ApiErr c msg) \<Rightarrow> c = StatusBadRequest \<and> Contains msg ''being used by''
      | _ \<Rightarrow> False)"

definition IsNotFoundError :: "gerror option \<Rightarrow> bool" where
  "IsNotFoundError err = IsHTTPErrorCode err StatusNotFound"

definition IsForbiddenError :: "gerror option \<Rightarrow> bool" where
  "IsForbiddenError err = IsHTTPErrorCode err StatusForbidden"

definition CompareLinks :: "string \<Rightarrow> string \<Rightarrow> bool" where
  "CompareLinks l1 l2 = (l1 = l2 \<and> l1 \<noteq> [])"

lemma IsHTTPErrorCode_None [simp]: "\<not> IsHTTPErrorCode None c"
  by (simp add: IsHTTPErrorCode_def)

lemma IsHTTPErrorCode_Api [simp]: "IsHTTPErrorCode (Some (ApiErr c m)) d \<longleftrightarrow> c = d"
  by (simp add: IsHTTPErrorCode_def)

lemma IsHTTPErrorCode_iff: "IsHTTPErrorCode (Some e) c \<longleftrightarrow> (\<exists>m. e = ApiErr c m)"
  by (cases e) (auto simp: IsHTTPErrorCode_def)

lemma NotFound_NotFound [simp]:
  "IsHTTPErrorCode (Some FakeGoogleAPINotFoundErr) StatusNotFound"
  "IsNotFoundError (Some FakeGoogleAPINotFoundErr)"
  by (simp_all add: FakeGoogleAPINotFoundErr_def IsNotFoundError_def)

lemma Forbidden_Forbidden [simp]:
  "IsForbiddenError (Some FakeGoogleAPIForbiddenErr)"
  "\<not> IsNotFoundError (Some FakeGoogleAPIForbiddenErr)"
  by (simp_all add: FakeGoogleAPIForbiddenErr_def IsForbiddenError_def IsNotFoundError_def)

lemma IsForbiddenError_None [simp]: "\<not> IsForbiddenError None"
  by (simp add: IsForbiddenError_def)

lemma IsNotFoundError_None [simp]: "\<not> IsNotFoundError None"
  by (simp add: IsNotFoundError_def)

lemma IsInUsedByError_None [simp]: "\<not> IsInUsedByError None"
  by (simp add: IsInUsedByError_def)

lemma IgnoreHTTPNotFound_None [simp]: "IgnoreHTTPNotFound None = None"
  by (simp add: IgnoreHTTPNotFound_def)

text \<open>A call whose only result is an error, with 404 turned into success.\<close>

definition ignoring_not_found :: "('s, unit) go \<Rightarrow> ('s, unit) go" where
  "ignoring_not_found m =
     bind_err m (\<lambda>r. case r of
         Inr _ \<Rightarrow> ret ()
       | Inl e \<Rightarrow> (case IgnoreHTTPNotFound (Some e) of None \<Rightarrow> ret () | Some e' \<Rightarrow> fail e'))"

section \<open>Calls that the fakes record\<close>

datatype Call =
    AddCall | RemoveCall | SyncCall | GetCall | CreateCall | UpdateCall | DeleteCall
  | AddInstancesCall | RemoveInstancesCall

section \<open>Application protocols\<close>

type_synonym AppProtocol = string

abbreviation ProtocolHTTP :: AppProtocol where "ProtocolHTTP \<equiv> ''HTTP''"
abbreviation ProtocolHTTPS :: AppProtocol where "ProtocolHTTPS \<equiv> ''HTTPS''"

section \<open>The url map of an Ingress\<close>

text \<open>Host to path to backend; a backend may be a nil pointer.\<close>

type_synonym GCEURLMap = "(string, (string, BackendService option) gomap) gomap"

definition DefaultBackendKey :: string where
  "DefaultBackendKey = ''DefaultBackend''"

text \<open>The destructive read: the backend stored under the reserved key, and the map without it.\<close>

definition GetDefaultBackend :: "GCEURLMap \<Rightarrow> BackendService option \<times> GCEURLMap" where
  "GetDefaultBackend g =
     (case fmlookup g DefaultBackendKey of
        None \<Rightarrow> (None, g)
      | Some h \<Rightarrow>
          ((case fmlookup h DefaultBackendKey of None \<Rightarrow> None | Some d \<Rightarrow> d),
           fmdrop DefaultBackendKey g))"

definition PutDefaultBackend :: "GCEURLMap \<Rightarrow> BackendService option \<Rightarrow> GCEURLMap" where
  "PutDefaultBackend g d =
     fmupd DefaultBackendKey (fmupd DefaultBackendKey d fmempty) g"

text \<open>What was put is read back, and the rest of the map is the map before the put.\<close>

lemma GetDefaultBackend_Put:
  "GetDefaultBackend (PutDefaultBackend g d) = (d, fmdrop DefaultBackendKey g)"
  by (simp add: GetDefaultBackend_def PutDefaultBackend_def) (rule fmap_ext, auto)

section \<open>Even trimming of name fields\<close>

text \<open>
  The lengths that \<open>trimFieldsEvenly\<close> first computes, one per field: the field's length less
  its share of the excess, rounded down, less one.
\<close>

definition trimmed_length :: "int \<Rightarrow> int \<Rightarrow> string \<Rightarrow> int" where
  "trimmed_length excess tot s =
     int (length s) - int (length s) * excess div tot - 1"

text \<open>\<open>for i := 0; i < remaining; i++ { lengths[i]++ }\<close>, \<open>None\<close> when \<open>i\<close> leaves the slice.\<close>

definition bump_first :: "int \<Rightarrow> int list \<Rightarrow> int list option" where
  "bump_first remaining lengths =
     (if remaining > int (length lengths) then None
      else Some (map (\<lambda>l. l + 1) (take (nat remaining) lengths) @ drop (nat remaining) lengths))"

text \<open>\<open>fields[i][:l]\<close> for each field, \<open>None\<close> when a bound is out of range.\<close>

definition slice_fields :: "string list \<Rightarrow> int list \<Rightarrow> string list option" where
  "slice_fields flds lengths =
     (if list_all2 (\<lambda>s l. 0 \<le> l \<and> l \<le> int (length s)) flds lengths
      then Some (map2 (\<lambda>s l. take (nat l) s) flds lengths) else None)"

definition trimFieldsEvenly :: "int \<Rightarrow> string list \<Rightarrow> string list outcome" where
  "trimFieldsEvenly limit flds =
     (if limit \<le> 0 then Ok flds
      else let tot = sum_list (map (int \<circ> length) flds) in
        if tot \<le> limit then Ok flds
        else let excess = tot - limit;
                 lengths = map (trimmed_length excess tot) flds;
                 remaining = limit - sum_list lengths
             in case bump_first remaining lengths of
                  None \<Rightarrow> Panics ''index out of range''
                | Some ls \<Rightarrow>
                    (case slice_fields flds ls of
                       None \<Rightarrow> Panics ''slice bounds out of range''
                     | Some out \<Rightarrow> Ok out))"

lemma mult_div_le_dividend: "0 < (d::int) \<Longrightarrow> d * (x div d) \<le> x"
  using mult_div_mod_eq [of d x] pos_mod_sign [of d x] by linarith

text \<open>The rounding errors of the shares add up to less than one per field.\<close>

lemma sum_shares_bounds:
  fixes tot excess :: int
  assumes "0 < tot" "0 \<le> excess"
  shows "tot * sum_list (map (\<lambda>n. n * excess div tot) ns) \<le> sum_list ns * excess"
    and "sum_list ns * excess \<le>
           tot * sum_list (map (\<lambda>n. n * excess div tot) ns) + int (length ns) * (tot - 1)"
proof -
  have lo: "tot * (n * excess div tot) \<le> n * excess" for n
    by (rule mult_div_le_dividend [OF assms(1)])
  have hi: "n * excess \<le> tot * (n * excess div tot) + (tot - 1)" for n
  proof -
    have "n * excess mod tot \<le> tot - 1" using assms(1) pos_mod_bound [of tot] by simp
    then show ?thesis using mult_div_mod_eq [of tot "n * excess"] by linarith
  qed
  show "tot * sum_list (map (\<lambda>n. n * excess div tot) ns) \<le> sum_list ns * excess"
    by (induction ns) (use lo in \<open>auto simp: algebra_simps intro: add_mono\<close>)
  show "sum_list ns * excess \<le>
          tot * sum_list (map (\<lambda>n. n * excess div tot) ns) + int (length ns) * (tot - 1)"
  proof (induction ns)
    case (Cons n ns)
    then show ?case using hi [of n] by (simp add: algebra_simps)
  qed simp
qed

lemma sum_trimmed_length:
  "sum_list (map (trimmed_length excess tot) flds) =
     sum_list (map (int \<circ> length) flds)
       - sum_list (map (\<lambda>n. n * excess div tot) (map (int \<circ> length) flds))
       - int (length flds)"
  by (induction flds) (simp_all add: trimmed_length_def algebra_simps)

text \<open>So between one and all of the fields get a byte back.\<close>

lemma trim_remaining:
  assumes "flds \<noteq> []" "0 < limit" "limit < sum_list (map (int \<circ> length) flds)"
  defines "tot \<equiv> sum_list (map (int \<circ> length) flds)"
  defines "remaining \<equiv> limit - sum_list (map (trimmed_length (tot - limit) tot) flds)"
  shows "0 < remaining" and "remaining \<le> int (length flds)"
proof -
  let ?ns = "map (int \<circ> length) flds"
  let ?fl = "sum_list (map (\<lambda>n. n * (tot - limit) div tot) ?ns)"
  have tot: "0 < tot" "0 \<le> tot - limit" using assms by simp_all
  have rem: "remaining = ?fl + int (length flds) - (tot - limit)"
    unfolding remaining_def sum_trimmed_length tot_def by simp
  note b = sum_shares_bounds [OF tot, of ?ns]
  from b(1) have "tot * ?fl \<le> tot * (tot - limit)" by (simp add: tot_def)
  then have "?fl \<le> tot - limit" using tot(1) by simp
  then show "remaining \<le> int (length flds)" using rem by simp
  have "tot * (tot - limit) \<le> tot * ?fl + int (length flds) * (tot - 1)"
    using b(2) by (simp add: tot_def)
  also have "\<dots> < tot * ?fl + int (length flds) * tot"
    using assms(1) by simp
  finally have "tot * (tot - limit) < tot * (?fl + int (length flds))"
    by (simp add: algebra_simps)
  then have "tot - limit < ?fl + int (length flds)" using tot(1) by simp
  then show "0 < remaining" using rem by simp
qed

lemma sum_list_plus_one: "sum_list (map (\<lambda>l. l + 1) xs) = sum_list xs + int (length xs)"
  for xs :: "int list"
  by (induction xs) simp_all

lemma sum_list_bump_first:
  assumes "bump_first k ls = Some ls'" and "0 \<le> k"
  shows "sum_list ls' = sum_list ls + k"
proof -
  from assms have le: "nat k \<le> length ls"
    and ls': "ls' = map (\<lambda>l. l + 1) (take (nat k) ls) @ drop (nat k) ls"
    by (simp_all add: bump_first_def split: if_splits)
  have "sum_list ls' = sum_list (take (nat k) ls @ drop (nat k) ls) + int (nat k)"
    using le by (simp only: ls' sum_list_append sum_list_plus_one length_take min_absorb2)
  then show ?thesis using assms(2) by simp
qed

lemma bump_first_nth:
  assumes "bump_first k ls = Some ls'" "i < length ls"
  shows "length ls' = length ls" and "ls' ! i \<in> {ls ! i, ls ! i + 1}"
  using assms by (auto simp: bump_first_def nth_append min_def split: if_splits)

lemma trimmed_length_bounds:
  assumes "s \<noteq> []" "0 \<le> excess" "excess < tot"
  shows "0 \<le> trimmed_length excess tot s" "trimmed_length excess tot s < int (length s)"
proof -
  have "int (length s) * excess < tot * int (length s)" using assms by simp
  with mult_div_le_dividend [of tot "int (length s) * excess"] assms
  have "tot * (int (length s) * excess div tot) < tot * int (length s)" by linarith
  then have "int (length s) * excess div tot < int (length s)"
    using assms by (simp add: mult_less_cancel_left_pos)
  then show "0 \<le> trimmed_length excess tot s" by (simp add: trimmed_length_def)
  have "0 \<le> int (length s) * excess div tot"
    using assms by (simp add: pos_imp_zdiv_nonneg_iff)
  then show "trimmed_length excess tot s < int (length s)" by (simp add: trimmed_length_def)
qed

lemma slice_fields_Some:
  assumes "slice_fields flds ls = Some out"
  shows "length out = length flds" and "list_all2 (\<lambda>r s. HasPrefix s r) out flds"
    and "sum_list (map (int \<circ> length) out) = sum_list ls"
proof -
  from assms have bnd: "list_all2 (\<lambda>s l. 0 \<le> l \<and> l \<le> int (length s)) flds ls"
    and out: "out = map2 (\<lambda>s l. take (nat l) s) flds ls"
    by (simp_all add: slice_fields_def split: if_splits)
  from bnd have "length (map2 (\<lambda>s l. take (nat l) s) flds ls) = length flds \<and>
      list_all2 (\<lambda>r s. HasPrefix s r) (map2 (\<lambda>s l. take (nat l) s) flds ls) flds \<and>
      sum_list (map (int \<circ> length) (map2 (\<lambda>s l. take (nat l) s) flds ls)) = sum_list ls"
    by (induction flds ls rule: list_all2_induct) (auto simp: HasPrefix_def min_def)
  then show "length out = length flds" "list_all2 (\<lambda>r s. HasPrefix s r) out flds"
    "sum_list (map (int \<circ> length) out) = sum_list ls"
    by (simp_all only: out)
qed

text \<open>
  Fields that are too long together are trimmed to prefixes that use up the limit exactly. The
  fields have to be nonempty: the share of an empty field would be negative.
\<close>

lemma trimFieldsEvenly_exact:
  assumes limit: "0 < limit" "limit < sum_list (map (int \<circ> length) flds)"
    and nonempty: "\<forall>s \<in> set flds. s \<noteq> []"
  shows "\<exists>out. trimFieldsEvenly limit flds = Ok out \<and> length out = length flds \<and>
           list_all2 (\<lambda>r s. HasPrefix s r) out flds \<and>
           sum_list (map (int \<circ> length) out) = limit"
proof -
  define tot where "tot = sum_list (map (int \<circ> length) flds)"
  define lens where "lens = map (trimmed_length (tot - limit) tot) flds"
  define remaining where "remaining = limit - sum_list lens"
  have "flds \<noteq> []" using limit by auto
  note rem = trim_remaining [OF this limit, folded tot_def, folded lens_def, folded remaining_def]
  then obtain ls where ls: "bump_first remaining lens = Some ls"
    by (simp add: bump_first_def lens_def)
  have "list_all2 (\<lambda>s l. 0 \<le> l \<and> l \<le> int (length s)) flds ls"
  proof (rule list_all2_all_nthI)
    show "length flds = length ls" using ls by (auto simp: bump_first_def lens_def split: if_splits)
    fix i assume i: "i < length flds"
    then have "ls ! i \<in> {lens ! i, lens ! i + 1}"
      using bump_first_nth(2) [OF ls] by (simp add: lens_def)
    moreover have "0 \<le> lens ! i" "lens ! i < int (length (flds ! i))"
      using trimmed_length_bounds [of "flds ! i" "tot - limit" tot] i nonempty limit
      by (simp_all add: lens_def tot_def)
    ultimately show "0 \<le> ls ! i \<and> ls ! i \<le> int (length (flds ! i))" by auto
  qed
  then obtain out where out: "slice_fields flds ls = Some out" by (simp add: slice_fields_def)
  have "trimFieldsEvenly limit flds = Ok out"
    using limit ls out
    by (simp add: trimFieldsEvenly_def Let_def tot_def lens_def remaining_def)
  moreover have "sum_list ls = limit"
    using sum_list_bump_first [OF ls] rem by (simp add: remaining_def)
  ultimately show ?thesis using slice_fields_Some [OF out] by auto
qed

lemma trimFieldsEvenly_short:
  "sum_list (map (int \<circ> length) flds) \<le> limit \<Longrightarrow> trimFieldsEvenly limit flds = Ok flds"
  by (simp add: trimFieldsEvenly_def)

end
