(* ===== verification/Md5.thy ===== *)
theory Md5
  imports Go_Strings "HOL-Library.Word"
begin

text \<open>
  The digest of Go's package \<open>crypto/md5\<close> (RFC 1321), used by the controller to name network
  endpoint groups and path matchers, and its hexadecimal rendering (\<open>%x\<close> and
  \<open>hex.EncodeToString\<close>). Words are 32 bits wide, so additions wrap as they do in Go.
\<close>

unbundle bit_operations_syntax

definition md5_K :: "32 word list" where
  "md5_K =
    [3614090360, 3905402710, 606105819, 3250441966, 4118548399, 1200080426,
     2821735955, 4249261313, 1770035416, 2336552879, 4294925233, 2304563134,
     1804603682, 4254626195, 2792965006, 1236535329, 4129170786, 3225465664,
     643717713, 3921069994, 3593408605, 38016083, 3634488961, 3889429448,
     568446438, 3275163606, 4107603335, 1163531501, 2850285829, 4243563512,
     1735328473, 2368359562, 4294588738, 2272392833, 1839030562, 4259657740,
     2763975236, 1272893353, 4139469664, 3200236656, 681279174, 3936430074,
     3572445317, 76029189, 3654602809, 3873151461, 530742520, 3299628645,
     4096336452, 1126891415, 2878612391, 4237533241, 1700485571, 2399980690,
     4293915773, 2240044497, 1873313359, 4264355552, 2734768916, 1309151649,
     4149444226, 3174756917, 718787259, 3951481745]"

definition md5_shift :: "nat list" where
  "md5_shift =
    [7, 12, 17, 22, 7, 12, 17, 22, 7, 12, 17, 22, 7, 12, 17, 22,
     5, 9, 14, 20, 5, 9, 14, 20, 5, 9, 14, 20, 5, 9, 14, 20,
     4, 11, 16, 23, 4, 11, 16, 23, 4, 11, 16, 23, 4, 11, 16, 23,
     6, 10, 15, 21, 6, 10, 15, 21, 6, 10, 15, 21, 6, 10, 15, 21]"

definition md5_F :: "nat \<Rightarrow> 32 word \<Rightarrow> 32 word \<Rightarrow> 32 word \<Rightarrow> 32 word" where
  "md5_F i b c d =
     (if i < 16 then (b AND c) OR (NOT b AND d)
      else if i < 32 then (d AND b) OR (NOT d AND c)
      else if i < 48 then b XOR c XOR d
      else c XOR (b OR NOT d))"

definition md5_g :: "nat \<Rightarrow> nat" where
  "md5_g i =
     (if i < 16 then i
      else if i < 32 then (5 * i + 1) mod 16
      else if i < 48 then (3 * i + 5) mod 16
      else (7 * i) mod 16)"

type_synonym md5_state = "32 word \<times> 32 word \<times> 32 word \<times> 32 word"

definition md5_init :: md5_state where
  "md5_init = (1732584193, 4023233417, 2562383102, 271733878)"

fun md5_round :: "32 word list \<Rightarrow> md5_state \<Rightarrow> nat \<Rightarrow> md5_state" where
  "md5_round M (a, b, c, d) i =
     (d, b + word_rotl (md5_shift ! i) (a + md5_F i b c d + md5_K ! i + M ! md5_g i), b, c)"

fun words_of_bytes :: "nat list \<Rightarrow> 32 word list" where
  "words_of_bytes (a # b # c # d # bs) =
     word_of_nat (a + 256 * b + 65536 * c + 16777216 * d) # words_of_bytes bs"
| "words_of_bytes _ = []"

fun md5_add :: "md5_state \<Rightarrow> md5_state \<Rightarrow> md5_state" where
  "md5_add (a, b, c, d) (a', b', c', d') = (a + a', b + b', c + c', d + d')"

function md5_blocks :: "md5_state \<Rightarrow> nat list \<Rightarrow> md5_state" where
  "md5_blocks st bs =
     (if length bs < 64 then st
      else md5_blocks
             (md5_add st (foldl (md5_round (words_of_bytes (take 64 bs))) st [0..<64]))
             (drop 64 bs))"
  by pat_completeness auto
termination
  by (relation "measure (\<lambda>(st, bs). length bs)") auto

declare md5_blocks.simps [simp del]

text \<open>Padding: a one bit, zeros up to 56 modulo 64, then the bit length in eight bytes.\<close>

definition md5_pad :: "nat list \<Rightarrow> nat list" where
  "md5_pad bs =
     bs @ [128] @ replicate ((119 - length bs mod 64) mod 64) 0
        @ map (\<lambda>i. (8 * length bs) div 256 ^ i mod 256) [0..<8]"

definition bytes_of_word :: "32 word \<Rightarrow> nat list" where
  "bytes_of_word w = map (\<lambda>i. unat w div 256 ^ i mod 256) [0..<4]"

definition md5_Sum :: "string \<Rightarrow> nat list" where
  "md5_Sum s =
     (case md5_blocks md5_init (md5_pad (map of_char s)) of
        (a, b, c, d) \<Rightarrow> bytes_of_word a @ bytes_of_word b @ bytes_of_word c @ bytes_of_word d)"

definition hex_digit :: "nat \<Rightarrow> char" where
  "hex_digit d = char_of (if d < 10 then 48 + d else 87 + d)"

definition hex_of_bytes :: "nat list \<Rightarrow> string" where
  "hex_of_bytes bs = concat (map (\<lambda>b. [hex_digit (b div 16), hex_digit (b mod 16)]) bs)"

lemma length_bytes_of_word [simp]: "length (bytes_of_word w) = 4"
  by (simp add: bytes_of_word_def)

lemma length_md5_Sum [simp]: "length (md5_Sum s) = 16"
  by (simp add: md5_Sum_def split: prod.split)

lemma length_hex_of_bytes [simp]: "length (hex_of_bytes bs) = 2 * length bs"
  by (induction bs) (simp_all add: hex_of_bytes_def)

text \<open>The padding fills whole blocks, so no byte of the message is left out of the digest.\<close>

lemma length_md5_pad: "length (md5_pad bs) mod 64 = 0"
proof -
  obtain q where q: "length bs = 64 * q + length bs mod 64" by (metis mult_div_mod_eq)
  define m where "m = length bs mod 64"
  have m: "m < 64" by (simp add: m_def)
  have len: "length (md5_pad bs) = 64 * q + m + (119 - m) mod 64 + 9"
    using q by (simp add: md5_pad_def m_def)
  show ?thesis
  proof (cases "m \<le> 55")
    case True
    then have "(119 - m) mod 64 = 55 - m" by (simp add: mod_if)
    with len True show ?thesis by simp
  next
    case False
    with m have "(119 - m) mod 64 = 119 - m" by simp
    with len m have "length (md5_pad bs) = 64 * (q + 2)" by simp
    then show ?thesis by simp
  qed
qed

end
