(* ===== verification/Namer.thy ===== *)
theory Namer
  imports Utils Md5
begin

text \<open>
  The naming policy of the cloud resources (\<open>pkg/utils/namer.go\<close>): every resource of a cluster
  carries the cluster's UID after \<open>--\<close>, names are cut to what the API accepts, and the names of
  backends and network endpoint groups are parsed back when resources are collected.

  The struct's mutex makes each accessor atomic; an operation is one function of the record.
\<close>

named_theorems namer_prefixes \<open>the constants of the naming policy\<close>

definition targetHTTPProxyPrefix :: string where [namer_prefixes]:
  "targetHTTPProxyPrefix = ''k8s-tp''"
definition targetHTTPSProxyPrefix :: string where [namer_prefixes]:
  "targetHTTPSProxyPrefix = ''k8s-tps''"
definition sslCertPrefix :: string where [namer_prefixes]: "sslCertPrefix = ''k8s-ssl''"
definition forwardingRulePrefix :: string where [namer_prefixes]:
  "forwardingRulePrefix = ''k8s-fw''"
definition httpsForwardingRulePrefix :: string where [namer_prefixes]:
  "httpsForwardingRulePrefix = ''k8s-fws''"
definition urlMapPrefix :: string where [namer_prefixes]: "urlMapPrefix = ''k8s-um''"
definition backendPrefix :: string where [namer_prefixes]: "backendPrefix = ''k8s-be''"
definition igPrefix :: string where [namer_prefixes]: "igPrefix = ''k8s-ig''"
definition globalFirewallSuffix :: string where [namer_prefixes]: "globalFirewallSuffix = ''l7''"
definition clusterNameDelimiter :: string where [namer_prefixes]: "clusterNameDelimiter = ''--''"
definition alphaNumericChar :: string where [namer_prefixes]: "alphaNumericChar = ''0''"
definition nameLenLimit :: nat where [namer_prefixes]: "nameLenLimit = 62"
definition maxNEGDescriptiveLabel :: int where [namer_prefixes]: "maxNEGDescriptiveLabel = 30"
definition schemaVersionV1 :: string where [namer_prefixes]: "schemaVersionV1 = ''1''"

text \<open>
  \<open>NamerProtocol\<close> is a string with two constants; any other value reaches \<open>glog.Fatalf\<close>, which
  ends the process (here as a panic does) before the \<open>"invalid"\<close> that follows it is returned.
\<close>

datatype NamerProtocol = HTTPProtocol | HTTPSProtocol | OtherProtocol string

record Namer =
  clusterName :: string
  firewallName :: string

record NameComponents =
  nc_ClusterName :: string
  nc_Resource :: string
  nc_Metadata :: string

section \<open>State\<close>

definition SetUID :: "string \<Rightarrow> Namer \<Rightarrow> Namer" where
  "SetUID name n =
     n\<lparr>clusterName := (if Contains name clusterNameDelimiter
                       then last (Split name clusterNameDelimiter) else name)\<rparr>"

definition SetFirewall :: "string \<Rightarrow> Namer \<Rightarrow> Namer" where
  "SetFirewall name n = (if firewallName n \<noteq> name then n\<lparr>firewallName := name\<rparr> else n)"

definition NewNamer :: "string \<Rightarrow> string \<Rightarrow> Namer" where
  "NewNamer cluster firewall =
     SetFirewall firewall (SetUID cluster \<lparr>clusterName = [], firewallName = []\<rparr>)"

definition UID :: "Namer \<Rightarrow> string" where
  "UID n = clusterName n"

definition Firewall :: "Namer \<Rightarrow> string" where
  "Firewall n = (if firewallName n = [] then clusterName n else firewallName n)"

section \<open>Names\<close>

definition truncate :: "string \<Rightarrow> string" where
  "truncate key =
     (if length key > nameLenLimit then take nameLenLimit key @ alphaNumericChar else key)"

definition decorateName :: "Namer \<Rightarrow> string \<Rightarrow> string" where
  "decorateName n name =
     (if UID n = [] then name else truncate (name @ clusterNameDelimiter @ UID n))"

definition ParseName :: "string \<Rightarrow> NameComponents" where
  "ParseName name =
     (let l = Split name clusterNameDelimiter; c = Split name ''-'' in
      \<lparr>nc_ClusterName = (if 2 \<le> length l then last l else []),
       nc_Resource = (if 2 \<le> length c then c ! 1 else []),
       nc_Metadata = []\<rparr>)"

definition NameBelongsToCluster :: "Namer \<Rightarrow> string \<Rightarrow> bool" where
  "NameBelongsToCluster n name =
     (if \<not> HasPrefix name ''k8s-'' then False
      else let parts = Split name clusterNameDelimiter in
        if length parts = 1 then UID n = []
        else if length parts > 2 then False
        else parts ! 1 = UID n)"

definition Backend :: "Namer \<Rightarrow> int \<Rightarrow> string" where
  "Backend n port = decorateName n (backendPrefix @ ''-'' @ Itoa port)"

text \<open>
  \<open>FindStringSubmatch\<close> of the pattern \<open>k8s-be-([0-9]+).*\<close>: the leftmost place where the prefix
  is followed by a digit, and there the longest run of digits.
\<close>

fun find_backend_port :: "string \<Rightarrow> string option" where
  "find_backend_port [] = None"
| "find_backend_port (c # cs) =
     (let ds = takeWhile is_digit (drop (length (backendPrefix @ ''-'')) (c # cs)) in
      if HasPrefix (c # cs) (backendPrefix @ ''-'') \<and> ds \<noteq> [] then Some ds
      else find_backend_port cs)"

definition BackendPort :: "string \<Rightarrow> string outcome" where
  "BackendPort beName =
     (case find_backend_port beName of
        None \<Rightarrow> Err (Errorf (''unable to lookup port for '' @ beName) [])
      | Some m \<Rightarrow>
          (case Atoi m of
             None \<Rightarrow> Err (Errorf (''unexpected regex match: '' @ beName) [])
           | Some _ \<Rightarrow> Ok m))"

definition InstanceGroup :: "Namer \<Rightarrow> string" where
  "InstanceGroup n = decorateName n igPrefix"

definition firewallRuleSuffix :: "Namer \<Rightarrow> string" where
  "firewallRuleSuffix n =
     (if Firewall n = [] then globalFirewallSuffix
      else truncate (globalFirewallSuffix @ clusterNameDelimiter @ Firewall n))"

definition FirewallRule :: "Namer \<Rightarrow> string" where
  "FirewallRule n = ''k8s-fw-'' @ firewallRuleSuffix n"

definition LoadBalancer :: "Namer \<Rightarrow> string \<Rightarrow> string" where
  "LoadBalancer n key =
     (let parts = Split key clusterNameDelimiter;
          scrubbedName = ReplaceChar key (CHR ''/'') (CHR ''-'')
      in if UID n = [] \<or> last parts = UID n then scrubbedName
         else truncate (scrubbedName @ clusterNameDelimiter @ UID n))"

fun TargetProxy :: "Namer \<Rightarrow> string \<Rightarrow> NamerProtocol \<Rightarrow> string outcome" where
  "TargetProxy n lbName HTTPProtocol = Ok (truncate (targetHTTPProxyPrefix @ ''-'' @ lbName))"
| "TargetProxy n lbName HTTPSProtocol = Ok (truncate (targetHTTPSProxyPrefix @ ''-'' @ lbName))"
| "TargetProxy n lbName (OtherProtocol p) = Panics ''fatal: invalid TargetProxy protocol''"

definition IsSSLCert :: "string \<Rightarrow> bool" where
  "IsSSLCert name = HasPrefix name sslCertPrefix"

definition SSLCert :: "Namer \<Rightarrow> string \<Rightarrow> bool \<Rightarrow> string" where
  "SSLCert n lbName isPrimary =
     (if isPrimary then truncate (sslCertPrefix @ ''-'' @ lbName)
      else truncate (sslCertPrefix @ ''-'' @ Itoa 1 @ ''-'' @ lbName))"

fun ForwardingRule :: "Namer \<Rightarrow> string \<Rightarrow> NamerProtocol \<Rightarrow> string outcome" where
  "ForwardingRule n lbName HTTPProtocol = Ok (truncate (forwardingRulePrefix @ ''-'' @ lbName))"
| "ForwardingRule n lbName HTTPSProtocol = Ok (truncate (httpsForwardingRulePrefix @ ''-'' @ lbName))"
| "ForwardingRule n lbName (OtherProtocol p) = Panics ''fatal: invalid ForwardingRule protocol''"

definition UrlMap :: "Namer \<Rightarrow> string \<Rightarrow> string" where
  "UrlMap n lbName = truncate (urlMapPrefix @ ''-'' @ lbName)"

definition NamedPort :: "Namer \<Rightarrow> int \<Rightarrow> string" where
  "NamedPort n port = ''port'' @ Itoa port"

definition negPrefix :: "Namer \<Rightarrow> string" where
  "negPrefix n = ''k8s'' @ schemaVersionV1 @ ''-'' @ UID n"

definition negSuffix :: "string \<Rightarrow> string \<Rightarrow> string \<Rightarrow> string" where
  "negSuffix namespace name port =
     take 8 (hex_of_bytes (md5_Sum (namespace @ name @ port)))"

definition NEG :: "Namer \<Rightarrow> string \<Rightarrow> string \<Rightarrow> string \<Rightarrow> string outcome" where
  "NEG n namespace name port =
     map_outcome
       (\<lambda>trimmed. negPrefix n @ ''-'' @ trimmed ! 0 @ ''-'' @ trimmed ! 1 @ ''-'' @ trimmed ! 2
                  @ ''-'' @ negSuffix namespace name port)
       (trimFieldsEvenly maxNEGDescriptiveLabel [namespace, name, port])"

definition IsNEG :: "Namer \<Rightarrow> string \<Rightarrow> bool" where
  "IsNEG n name = HasPrefix name (negPrefix n)"

section \<open>The cluster's UID\<close>

text \<open>Whatever string is set, the stored UID is free of the delimiter.\<close>

definition uid_ok :: "Namer \<Rightarrow> bool" where
  "uid_ok n \<longleftrightarrow> \<not> Contains (UID n) clusterNameDelimiter"

lemma uid_ok_SetUID: "uid_ok (SetUID name n)"
proof (cases "Contains name clusterNameDelimiter")
  case True
  have "last (Split name clusterNameDelimiter) \<in> set (Split name clusterNameDelimiter)" by simp
  then have "\<not> Contains (last (Split name clusterNameDelimiter)) clusterNameDelimiter"
    by (rule Split_tokens [rotated]) (simp add: namer_prefixes)
  with True show ?thesis by (simp add: uid_ok_def SetUID_def UID_def)
next
  case False
  then show ?thesis by (simp add: uid_ok_def SetUID_def UID_def)
qed

lemma uid_ok_SetFirewall [simp]: "uid_ok (SetFirewall name n) = uid_ok n"
  by (simp add: uid_ok_def SetFirewall_def UID_def)

lemma uid_ok_NewNamer: "uid_ok (NewNamer c f)"
  by (simp add: NewNamer_def uid_ok_SetUID)

section \<open>Lengths\<close>

lemma length_truncate: "length (truncate key) \<le> 63"
  by (simp add: truncate_def namer_prefixes)

lemma truncate_id: "length key \<le> 62 \<Longrightarrow> truncate key = key"
  by (simp add: truncate_def namer_prefixes)

lemma take_truncate: "k \<le> 62 \<Longrightarrow> take k (truncate key) = take k key"
  by (simp add: truncate_def namer_prefixes)

text \<open>A name that was cut keeps its form when it is decorated and cut again.\<close>

lemma truncate_truncate_append:
  assumes "62 < length key"
  shows "truncate (truncate key @ s) = truncate key"
  using assms by (simp add: truncate_def namer_prefixes)

lemma length_Itoa_port: "0 \<le> p \<Longrightarrow> p < 2 ^ 63 \<Longrightarrow> length (Itoa p) \<le> 19"
  using dec_nat_length [of "nat p" 19] by (simp add: Itoa_def)

lemma length_Backend: "0 \<le> p \<Longrightarrow> p < 2 ^ 63 \<Longrightarrow> length (Backend n p) \<le> 63"
  using length_truncate length_Itoa_port [of p]
  by (auto simp: Backend_def decorateName_def namer_prefixes)

section \<open>Backend names\<close>

lemma takeWhile_digits_Itoa:
  assumes "0 \<le> p" and "r = [] \<or> \<not> is_digit (hd r)"
  shows "takeWhile is_digit (Itoa p @ r) = Itoa p"
proof -
  have "list_all is_digit (Itoa p)" using assms(1) by (simp add: Itoa_def dec_nat_digits)
  then show ?thesis
    using assms(2) by (cases r) (auto simp: takeWhile_append list_all_iff)
qed

text \<open>Cutting leaves the port and the delimiter after it in place.\<close>

lemma Backend_form:
  assumes "0 \<le> p" "p < 2 ^ 63"
  obtains r where "Backend n p = ''k8s-be-'' @ Itoa p @ r" "r = [] \<or> \<not> is_digit (hd r)"
proof (cases "UID n = []")
  case True
  then show ?thesis
    by (intro that [of "[]"]) (simp_all add: Backend_def decorateName_def namer_prefixes)
next
  case False
  let ?h = "''k8s-be-'' @ Itoa p" and ?k = "''k8s-be-'' @ Itoa p @ ''--'' @ UID n"
  have len: "length ?h \<le> 26" using length_Itoa_port [OF assms] by simp
  have B: "Backend n p = truncate ?k" using False by (simp add: Backend_def decorateName_def namer_prefixes)
  have "take (Suc (length ?h)) (Backend n p) = take (Suc (length ?h)) ?k"
    unfolding B by (rule take_truncate) (use len in simp)
  also have "\<dots> = ?h @ ''-''" by simp
  finally have "take (Suc (length ?h)) (Backend n p) = ?h @ ''-''" .
  then obtain r where "Backend n p = (?h @ ''-'') @ r" by (metis append_take_drop_id)
  then show ?thesis by (intro that [of "CHR ''-'' # r"]) simp_all
qed

lemma find_backend_port_Backend:
  assumes "0 \<le> p" "p < 2 ^ 63"
  shows "find_backend_port (Backend n p) = Some (Itoa p)"
proof -
  obtain r where r: "Backend n p = ''k8s-be-'' @ Itoa p @ r" "r = [] \<or> \<not> is_digit (hd r)"
    using Backend_form [OF assms] by blast
  have "Itoa p \<noteq> []" by (simp add: Itoa_def)
  then show ?thesis
    using takeWhile_digits_Itoa [OF assms(1) r(2)] by (simp add: r(1) namer_prefixes Let_def)
qed

lemma last_Itoa_not_dash: "0 \<le> p \<Longrightarrow> last (Itoa p) \<noteq> CHR ''-''"
  using dec_nat_no_char [of "CHR ''-''" "nat p"] last_in_set [of "dec_nat (nat p)"]
  by (metis Itoa_def dec_nat_nonempty not_digit_dash(1) not_less)

lemma no_char_not_Contains: "c \<notin> set a \<Longrightarrow> \<not> Contains a [c, c]"
  by (auto simp: Contains_iff)

lemma Contains_one_dash:
  assumes "c \<notin> set b" "b \<noteq> []" "\<not> Contains a [c, c]" "a \<noteq> []" "last a \<noteq> c"
  shows "\<not> Contains (a @ [c] @ b) [c, c]"
  using assms(3-5)
proof (induction a)
  case (Cons d ds)
  obtain b0 bs where b: "b = b0 # bs" using assms(2) by (cases b) auto
  show ?case
  proof (cases ds)
    case Nil
    with Cons.prems b assms(1) show ?thesis by (auto simp: no_char_not_Contains)
  next
    case (Cons e es)
    with Cons.IH Cons.prems show ?thesis by auto
  qed
qed simp

lemma Split_decorated:
  assumes "\<not> Contains a ''--''" "a \<noteq> []" "last a \<noteq> CHR ''-''" "\<not> Contains u ''--''"
  shows "Split (a @ ''--'' @ u) ''--'' = [a, u]"
  using Split_double [of a "CHR ''-''" u] Split_no_sep [of u "''--''"] assms by simp

lemma backend_stem:
  assumes "0 \<le> p"
  shows "\<not> Contains (''k8s-be-'' @ Itoa p) ''--''" "last (''k8s-be-'' @ Itoa p) \<noteq> CHR ''-''"
proof -
  have "CHR ''-'' \<notin> set (Itoa p)" using assms by (simp add: Itoa_def dec_nat_no_char)
  moreover have "Itoa p \<noteq> []" by (simp add: Itoa_def)
  ultimately show "\<not> Contains (''k8s-be-'' @ Itoa p) ''--''"
    "last (''k8s-be-'' @ Itoa p) \<noteq> CHR ''-''"
    using Contains_one_dash [of "CHR ''-''" "Itoa p" "''k8s-be''"] last_Itoa_not_dash [OF assms]
    by (simp_all add: HasPrefix_def)
qed

section \<open>Load balancer names\<close>

abbreviation scrub :: "string \<Rightarrow> string" where
  "scrub key \<equiv> ReplaceChar key (CHR ''/'') (CHR ''-'')"

text \<open>
  The key of an Ingress is \<open>namespace/name\<close>, and neither part starts or ends with a dash: no
  slash has a dash or another slash beside it, and the key ends in neither.
\<close>

definition valid_key :: "string \<Rightarrow> bool" where
  "valid_key key \<longleftrightarrow>
     \<not> Contains key ''/-'' \<and> \<not> Contains key ''-/'' \<and> \<not> Contains key ''//'' \<and>
     key \<noteq> [] \<and> last key \<noteq> CHR ''-'' \<and> last key \<noteq> CHR ''/''"

lemma scrub_id: "CHR ''/'' \<notin> set s \<Longrightarrow> scrub s = s"
  unfolding ReplaceChar_def by (rule map_idI) auto

lemma scrub_append: "scrub (a @ b) = scrub a @ scrub b"
  by (simp add: ReplaceChar_def)

lemma no_slash_scrub: "CHR ''/'' \<notin> set (scrub s)"
  by (auto simp: ReplaceChar_def)

lemma last_scrub: "key \<noteq> [] \<Longrightarrow> last key \<noteq> CHR ''-'' \<Longrightarrow> last key \<noteq> CHR ''/'' \<Longrightarrow>
    last (scrub key) \<noteq> CHR ''-''"
  by (simp add: ReplaceChar_def last_map)

text \<open>Replacing isolated slashes by dashes moves no delimiter.\<close>

lemma split_from_scrub:
  assumes "\<not> Contains s ''/-''" "\<not> Contains s ''-/''" "\<not> Contains s ''//''"
  shows "split_from ''--'' (scrub acc) (scrub s) = map scrub (split_from ''--'' acc s)"
  using assms
proof (induction "length s" arbitrary: s acc rule: less_induct)
  case less
  show ?case
  proof (cases s)
    case Nil
    then show ?thesis by (simp add: ReplaceChar_def rev_map)
  next
    case (Cons c cs)
    show ?thesis
    proof (cases cs)
      case Nil
      with Cons show ?thesis by (simp add: ReplaceChar_def rev_map HasPrefix_def)
    next
      case (Cons d ds)
      have pre: "HasPrefix (scrub s) ''--'' \<longleftrightarrow> HasPrefix s ''--''"
        using less.prems \<open>s = c # cs\<close> Cons by (auto simp: ReplaceChar_def)
      have sub: "\<not> Contains t x" if "\<not> Contains s x" "t = cs \<or> t = ds" for t x
        using that \<open>s = c # cs\<close> Cons by auto
      have "split_from ''--'' (scrub []) (scrub ds) = map scrub (split_from ''--'' [] ds)"
        by (rule less.hyps) (use sub less.prems \<open>s = c # cs\<close> Cons in auto)
      moreover have "split_from ''--'' (scrub (c # acc)) (scrub cs) =
          map scrub (split_from ''--'' (c # acc) cs)"
        by (rule less.hyps) (use sub less.prems \<open>s = c # cs\<close> Cons in auto)
      ultimately show ?thesis
        using pre \<open>s = c # cs\<close> Cons by (simp add: ReplaceChar_def rev_map)
    qed
  qed
qed

lemma last_Split_scrub:
  assumes "valid_key key"
  shows "last (Split (scrub key) ''--'') = scrub (last (Split key ''--''))"
proof -
  have "Split (scrub key) ''--'' = map scrub (Split key ''--'')"
    using split_from_scrub [of key "[]"] assms
    by (simp add: Split_def valid_key_def ReplaceChar_def)
  then show ?thesis by (simp add: last_map)
qed

lemma LoadBalancer_twice:
  assumes key: "valid_key key" and uid: "uid_ok n" "CHR ''/'' \<notin> set (UID n)"
  shows "LoadBalancer n (LoadBalancer n key) = LoadBalancer n key"
proof -
  consider (own) "UID n = [] \<or> last (Split key ''--'') = UID n"
    | (short) "UID n \<noteq> []" "last (Split key ''--'') \<noteq> UID n"
        "length (scrub key @ ''--'' @ UID n) \<le> 62"
    | (long) "UID n \<noteq> []" "last (Split key ''--'') \<noteq> UID n"
        "62 < length (scrub key @ ''--'' @ UID n)"
    by linarith
  then show ?thesis
  proof cases
    case own
    then have "LoadBalancer n key = scrub key" by (auto simp: LoadBalancer_def namer_prefixes)
    moreover have "UID n = [] \<or> last (Split (scrub key) ''--'') = UID n"
      using own last_Split_scrub [OF key] scrub_id uid(2) by auto
    ultimately show ?thesis
      by (auto simp: LoadBalancer_def namer_prefixes scrub_id no_slash_scrub)
  next
    case short
    let ?t = "scrub key @ ''--'' @ UID n"
    have t: "LoadBalancer n key = ?t"
      using short truncate_id [of ?t] by (simp add: LoadBalancer_def namer_prefixes)
    have "last (Split ?t ''--'') = UID n"
      by (rule last_Split_double)
        (use uid(1) key last_scrub in \<open>auto simp: uid_ok_def valid_key_def namer_prefixes\<close>)
    moreover have "scrub ?t = ?t"
      by (rule scrub_id) (use uid(2) no_slash_scrub in auto)
    ultimately show ?thesis unfolding t by (simp add: LoadBalancer_def namer_prefixes)
  next
    case long
    let ?t = "scrub key @ ''--'' @ UID n"
    have t: "LoadBalancer n key = truncate ?t"
      using long by (simp add: LoadBalancer_def namer_prefixes)
    have "CHR ''/'' \<notin> set ?t" using uid(2) no_slash_scrub by auto
    then have "CHR ''/'' \<notin> set (truncate ?t)"
      by (auto simp: truncate_def namer_prefixes dest: in_set_takeD)
    then have "scrub (truncate ?t) = truncate ?t" by (rule scrub_id)
    then show ?thesis
      unfolding t using truncate_truncate_append [OF long(3)]
      by (simp add: LoadBalancer_def Let_def namer_prefixes)
  qed
qed

section \<open>Properties of the naming policy\<close>

lemma Backend_inject:
  assumes "0 \<le> p" "p < 2 ^ 63" "0 \<le> q" "q < 2 ^ 63"
  shows "Backend n p = Backend n q \<longleftrightarrow> p = q"
proof
  assume "Backend n p = Backend n q"
  then have "find_backend_port (Backend n p) = find_backend_port (Backend n q)" by (rule arg_cong)
  then show "p = q"
    by (simp only: find_backend_port_Backend [OF assms(1,2)] find_backend_port_Backend [OF assms(3,4)]
        option.inject Itoa_inject)
qed (rule arg_cong)

lemma neq_fw_fws: "''k8s-fw-'' \<noteq> ''k8s-fws''"
  by simp

lemma UID_NewNamer: "UID (NewNamer c f) =
    (if Contains c clusterNameDelimiter then last (Split c clusterNameDelimiter) else c)"
  by (simp add: NewNamer_def SetUID_def SetFirewall_def UID_def)

lemma NEG_Ok:
  assumes "namespace \<noteq> []" "name \<noteq> []" "port \<noteq> []"
  shows "\<exists>neg. NEG n namespace name port = Ok neg \<and> length neg \<le> 47 + length (UID n)"
proof -
  let ?flds = "[namespace, name, port]"
  obtain out where out: "trimFieldsEvenly 30 ?flds = Ok out" "length out = 3"
    "sum_list (map (int \<circ> length) out) \<le> 30"
  proof (cases "sum_list (map (int \<circ> length) ?flds) \<le> 30")
    case True
    then show ?thesis using trimFieldsEvenly_short [OF True] by (intro that [of ?flds]) simp_all
  next
    case False
    then obtain out where "trimFieldsEvenly 30 ?flds = Ok out" "length out = length ?flds"
      "sum_list (map (int \<circ> length) out) = 30"
      using trimFieldsEvenly_exact [of 30 ?flds] assms by auto
    then show ?thesis by (intro that [of out]) simp_all
  qed
  obtain a b c where abc: "out = [a, b, c]"
    using out(2) by (auto simp: numeral_3_eq_3 length_Suc_conv)
  have "length (negSuffix namespace name port) = 8"
    by (simp add: negSuffix_def length_hex_of_bytes length_md5_Sum)
  with out abc show ?thesis
    by (simp add: NEG_def negPrefix_def namer_prefixes)
qed

lemma NEG_prefix:
  "NEG n namespace name port = Ok neg \<Longrightarrow> \<exists>r. neg = negPrefix n @ r"
  by (cases "trimFieldsEvenly maxNEGDescriptiveLabel [namespace, name, port]")
    (auto simp: NEG_def)



text \<open>
  C2: the port that keys a backend in the pool is the one it was named after: parsing the
  name of a backend returns the decimal port, for every port and every UID, also when the name
  had to be cut.
\<close>

theorem backend_port_roundtrip:
  assumes "0 \<le> port" "port < 2 ^ 63"
  shows "BackendPort (Backend n port) = Ok (Itoa port)"
  using find_backend_port_Backend [OF assms] Atoi_Itoa [of port] assms
  by (simp add: BackendPort_def)

theorem backend_port_roundtrip_witness:
  "BackendPort (Backend (NewNamer (replicate 100 CHR ''x'') []) 8080) = Ok (Itoa 8080)"
  by (rule backend_port_roundtrip) simp_all

text \<open>
  C3: naming a load balancer is idempotent. The pool applies \<open>LoadBalancer\<close> again to names it
  already produced (\<open>Delete\<close> and \<open>GC\<close> call \<open>Get\<close> with a pool key), so a second application has to
  find the same entry; it does, for the keys of Ingresses, also when the name was cut or when the
  Ingress name itself ends in the UID.
\<close>

theorem load_balancer_name_idempotent:
  assumes "valid_key key" "uid_ok n" "CHR ''/'' \<notin> set (UID n)"
  shows "LoadBalancer n (LoadBalancer n key) = LoadBalancer n key"
  using assms by (rule LoadBalancer_twice)

theorem load_balancer_name_idempotent_witness:
  "LoadBalancer (NewNamer ''uid1'' []) (LoadBalancer (NewNamer ''uid1'' []) ''default/web'')
     = LoadBalancer (NewNamer ''uid1'' []) ''default/web''"
  by (rule load_balancer_name_idempotent)
    (simp_all add: uid_ok_NewNamer UID_NewNamer valid_key_def clusterNameDelimiter_def)

text \<open>
  C4: the resources of a load balancer get names within the 63 characters of the API, a
  certificate name is recognised as one, and the two forwarding rules, which are resources of one
  kind, never share a name.
\<close>

theorem load_balancer_resource_names:
  "\<exists>tp tps fw fws.
     TargetProxy n lb HTTPProtocol = Ok tp \<and> length tp \<le> 63 \<and>
     TargetProxy n lb HTTPSProtocol = Ok tps \<and> length tps \<le> 63 \<and>
     ForwardingRule n lb HTTPProtocol = Ok fw \<and> length fw \<le> 63 \<and>
     ForwardingRule n lb HTTPSProtocol = Ok fws \<and> length fws \<le> 63 \<and>
     ForwardingRule m lb' HTTPSProtocol \<noteq> Ok fw \<and>
     length (UrlMap n lb) \<le> 63 \<and>
     length (SSLCert n lb primary) \<le> 63 \<and> IsSSLCert (SSLCert n lb primary)"
proof -
  let ?fw = "truncate (forwardingRulePrefix @ ''-'' @ lb)"
  let ?fws = "truncate (httpsForwardingRulePrefix @ ''-'' @ lb')"
  have "take 7 ?fw = ''k8s-fw-''" "take 7 ?fws = ''k8s-fws''"
    by (simp_all add: take_truncate, simp_all add: namer_prefixes)
  then have "?fws \<noteq> ?fw" by (metis neq_fw_fws)
  moreover have "IsSSLCert (SSLCert n lb primary)"
    by (simp add: IsSSLCert_def SSLCert_def HasPrefix_def take_truncate namer_prefixes)
  ultimately show ?thesis
    by (simp add: length_truncate UrlMap_def SSLCert_def)
qed

text \<open>
  C5: a network endpoint group gets a name of at most 63 characters that the cluster
  recognises as its own, whatever the lengths of namespace, name and port, provided they are not
  empty and the UID has at most 16 characters.
\<close>

theorem neg_name_bounded:
  assumes "length (UID n) \<le> 16" "namespace \<noteq> []" "name \<noteq> []" "port \<noteq> []"
  shows "\<exists>neg. NEG n namespace name port = Ok neg \<and> length neg \<le> 63 \<and> IsNEG n neg"
proof -
  obtain neg where neg: "NEG n namespace name port = Ok neg" "length neg \<le> 47 + length (UID n)"
    using NEG_Ok [OF assms(2-4)] by blast
  with NEG_prefix [OF neg(1)] assms(1) show ?thesis
    by (auto simp: IsNEG_def)
qed

theorem neg_name_bounded_witness:
  "\<exists>neg. NEG (NewNamer ''0123456789abcdef'' []) ''default'' ''web'' ''80'' = Ok neg \<and>
     length neg \<le> 63 \<and> IsNEG (NewNamer ''0123456789abcdef'' []) neg"
  by (rule neg_name_bounded) (simp_all add: UID_NewNamer namer_prefixes)



text \<open>
  Two different Ingresses can get the same load balancer name, because the slash of the
  key is replaced by a character that is legal in both parts.
\<close>

lemma load_balancer_name_collision:
  assumes "CHR ''/'' \<notin> set (UID n)"
  shows "LoadBalancer n ''a-b/c'' = LoadBalancer n ''a/b-c''"
proof -
  have "Split ''a-b/c'' ''--'' = [''a-b/c'']" "Split ''a/b-c'' ''--'' = [''a/b-c'']"
    by (simp_all add: Split_no_sep)
  moreover have "UID n \<noteq> ''a-b/c''" "UID n \<noteq> ''a/b-c''" using assms by auto
  ultimately show ?thesis
    by (auto simp: LoadBalancer_def Let_def clusterNameDelimiter_def ReplaceChar_def)
qed

end
