(* ===== verification/Instances.thy ===== *)
theory Instances
  imports Namer Storage
begin

text \<open>
  Package \<open>instances\<close>: the node pool, which keeps one instance group per zone with the named ports
  of the backends and the cluster's nodes as members (\<open>pkg/instances/instances.go\<close>), and the fake
  cloud of the repository (\<open>pkg/instances/fakes.go\<close>), an instance of the cloud interface.

  The interface \<open>InstanceGroups\<close> is a record of calls on the cloud's state; \<open>zoneLister\<close> reads the
  caches of the controller, which do not change during one call.
\<close>

section \<open>Interfaces\<close>

record zoneLister =
  ListZones :: "string list outcome"
  GetZoneForNode :: "string \<Rightarrow> string outcome"

text \<open>Instance references and list items are represented by the instance's url.\<close>

record 'c InstanceGroups =
  GetInstanceGroup :: "string \<Rightarrow> string \<Rightarrow> ('c, InstanceGroup) go"
  CreateInstanceGroup :: "InstanceGroup \<Rightarrow> string \<Rightarrow> ('c, unit) go"
  cloud_DeleteInstanceGroup :: "string \<Rightarrow> string \<Rightarrow> ('c, unit) go"
  ListInstancesInInstanceGroup :: "string \<Rightarrow> string \<Rightarrow> string \<Rightarrow> ('c, string list) go"
  AddInstancesToInstanceGroup :: "string \<Rightarrow> string \<Rightarrow> string list \<Rightarrow> ('c, unit) go"
  RemoveInstancesFromInstanceGroup :: "string \<Rightarrow> string \<Rightarrow> string list \<Rightarrow> ('c, unit) go"
  ToInstanceReferences :: "string \<Rightarrow> string list \<Rightarrow> string list"
  SetNamedPortsOfInstanceGroup :: "string \<Rightarrow> string \<Rightarrow> NamedPort list \<Rightarrow> ('c, unit) go"

section \<open>The node pool\<close>

definition allInstances :: string where "allInstances = ''ALL''"

text \<open>The receiver: its collaborators, and apart from them the state that calls change.\<close>

record 'c Instances =
  ins_cloud :: "'c InstanceGroups"
  ins_zoneLister :: "zoneLister option"
  ins_namer :: Namer
  ins_rng :: "string set \<Rightarrow> string list"

record 'c Instances_state =
  ins_cloud_st :: 'c
  ins_snapshotter :: "unit InMemoryPool"

definition NewNodePool ::
  "'c InstanceGroups \<Rightarrow> Namer \<Rightarrow> (string set \<Rightarrow> string list) \<Rightarrow> 'c \<Rightarrow>
   'c Instances \<times> 'c Instances_state" where
  "NewNodePool cloud namer rng c =
     (\<lparr>ins_cloud = cloud, ins_zoneLister = None, ins_namer = namer, ins_rng = rng\<rparr>,
      \<lparr>ins_cloud_st = c, ins_snapshotter = NewInMemoryPool\<rparr>)"

definition ins_Init :: "zoneLister \<Rightarrow> 'c Instances \<Rightarrow> 'c Instances" where
  "ins_Init zl i = i\<lparr>ins_zoneLister := Some zl\<rparr>"

definition on_ig_cloud :: "('c, 'a) go \<Rightarrow> ('c Instances_state, 'a) go" where
  "on_ig_cloud = on_part ins_cloud_st (\<lambda>c s. s\<lparr>ins_cloud_st := c\<rparr>)"

definition ins_remember :: "string \<Rightarrow> 'c Instances_state \<Rightarrow> 'c Instances_state" where
  "ins_remember name s = s\<lparr>ins_snapshotter := pool_Add name () (ins_snapshotter s)\<rparr>"

definition ins_forget :: "string \<Rightarrow> 'c Instances_state \<Rightarrow> 'c Instances_state" where
  "ins_forget name s = s\<lparr>ins_snapshotter := pool_Delete name (ins_snapshotter s)\<rparr>"

definition ins_ListZones :: "'c Instances \<Rightarrow> ('s, string list) go" where
  "ins_ListZones i =
     (case ins_zoneLister i of
        None \<Rightarrow> panic ''nil pointer dereference''
      | Some zl \<Rightarrow> lift_outcome (ListZones zl))"

definition ins_GetZoneForNode :: "'c Instances \<Rightarrow> string \<Rightarrow> string outcome" where
  "ins_GetZoneForNode i name =
     (case ins_zoneLister i of
        None \<Rightarrow> Panics ''nil pointer dereference''
      | Some zl \<Rightarrow> GetZoneForNode zl name)"

definition ins_Get :: "'c Instances \<Rightarrow> string \<Rightarrow> string \<Rightarrow> ('c Instances_state, InstanceGroup) go" where
  "ins_Get i name zone =
     bind (on_ig_cloud (GetInstanceGroup (ins_cloud i) name zone))
       (\<lambda>ig. bind (modify_state (ins_remember name)) (\<lambda>_. ret ig))"

text \<open>The ports that an instance group lacks, in the order they are requested.\<close>

definition missing_ports :: "InstanceGroup \<Rightarrow> int list \<Rightarrow> int list" where
  "missing_ports ig ports = filter (\<lambda>p. p \<notin> np_Port ` set (ig_NamedPorts ig)) ports"

definition new_instance_group :: "string \<Rightarrow> InstanceGroup" where
  "new_instance_group name = \<lparr>ig_Name = name, ig_Zone = [], ig_SelfLink = [], ig_NamedPorts = []\<rparr>"

text \<open>The group that is there, or a created one; a conflict means another controller was faster.\<close>

definition get_or_create_group ::
  "'c Instances \<Rightarrow> string \<Rightarrow> string \<Rightarrow> ('c Instances_state, InstanceGroup) go" where
  "get_or_create_group i name zone =
     bind_err (ins_Get i name zone)
       (\<lambda>r. case r of
          Inr ig \<Rightarrow> ret ig
        | Inl err \<Rightarrow>
            if \<not> IsHTTPErrorCode (Some err) StatusNotFound then fail err
            else bind_err
              (on_ig_cloud (CreateInstanceGroup (ins_cloud i) (new_instance_group name) zone))
              (\<lambda>r. case r of
                 Inl err \<Rightarrow>
                   if IsHTTPErrorCode (Some err) StatusConflict
                   then on_ig_cloud (GetInstanceGroup (ins_cloud i) name zone)
                   else fail err
               | Inr _ \<Rightarrow> on_ig_cloud (GetInstanceGroup (ins_cloud i) name zone)))"

definition ensureInstanceGroupAndPorts ::
  "'c Instances \<Rightarrow> string \<Rightarrow> string \<Rightarrow> int list \<Rightarrow> ('c Instances_state, InstanceGroup) go" where
  "ensureInstanceGroupAndPorts i name zone ports =
     bind (get_or_create_group i name zone)
       (\<lambda>ig.
          let newNamedPorts = map (\<lambda>p. \<lparr>np_Name = NamedPort (ins_namer i) p, np_Port = p\<rparr>)
                                  (missing_ports ig ports)
          in if newNamedPorts \<noteq> []
             then bind (on_ig_cloud (SetNamedPortsOfInstanceGroup (ins_cloud i) (ig_Name ig) zone
                          (ig_NamedPorts ig @ newNamedPorts)))
                    (\<lambda>_. ret ig)
             else ret ig)"

definition EnsureInstanceGroupsAndPorts ::
  "'c Instances \<Rightarrow> string \<Rightarrow> int list \<Rightarrow> ('c Instances_state, InstanceGroup list) go" where
  "EnsureInstanceGroupsAndPorts i name ports =
     bind (ins_ListZones i)
       (\<lambda>zones. deferring (ins_remember name)
          (map_each (\<lambda>zone. ensureInstanceGroupAndPorts i name zone ports) zones))"

text \<open>A group that is gone or still in use is not an error.\<close>

definition delete_in_zone :: "'c Instances \<Rightarrow> string \<Rightarrow> string \<Rightarrow> ('c Instances_state, unit) go" where
  "delete_in_zone i name zone =
     bind_err (on_ig_cloud (cloud_DeleteInstanceGroup (ins_cloud i) name zone))
       (\<lambda>r. case r of
          Inl err \<Rightarrow> if IsNotFoundError (Some err) \<or> IsInUsedByError (Some err)
                     then ret () else fail err
        | Inr _ \<Rightarrow> ret ())"

definition DeleteInstanceGroup :: "'c Instances \<Rightarrow> string \<Rightarrow> ('c Instances_state, unit) go" where
  "DeleteInstanceGroup i name =
     deferring (ins_forget name)
       (bind (ins_ListZones i)
          (\<lambda>zones. bind (collect_errs (delete_in_zone i name) zones)
            (\<lambda>errs. if errs = [] then ret () else fail (Errorf ''%v'' errs))))"

definition url_name :: "string \<Rightarrow> string" where
  "url_name url = last (Split url ''/'')"

text \<open>All instances of a group in all zones, by the last segment of their url.\<close>

definition ins_list :: "'c Instances \<Rightarrow> string \<Rightarrow> ('c Instances_state, string set) go" where
  "ins_list i name =
     bind (ins_ListZones i)
       (\<lambda>zones. bind (map_each
            (\<lambda>zone. on_ig_cloud
               (ListInstancesInInstanceGroup (ins_cloud i) name zone allInstances)) zones)
          (\<lambda>items. ret (set (map url_name (concat items)))))"

text \<open>Nodes whose zone cannot be found are skipped.\<close>

fun split_nodes :: "'c Instances \<Rightarrow> (string, string list) gomap \<Rightarrow> string list \<Rightarrow>
    (string, string list) gomap outcome" where
  "split_nodes i nodesByZone [] = Ok nodesByZone"
| "split_nodes i nodesByZone (name # names) =
     (case ins_GetZoneForNode i name of
        Ok zone \<Rightarrow>
          split_nodes i
            (fmupd zone
              ((case fmlookup nodesByZone zone of Some ns \<Rightarrow> ns | None \<Rightarrow> []) @ [name])
              nodesByZone) names
      | Err _ \<Rightarrow> split_nodes i nodesByZone names
      | Panics p \<Rightarrow> Panics p)"

definition splitNodesByZone ::
  "'c Instances \<Rightarrow> string list \<Rightarrow> (string, string list) gomap outcome" where
  "splitNodesByZone i names = split_nodes i fmempty names"

text \<open>One call per zone, in the order the map is visited; the errors are collected.\<close>

definition per_zone ::
  "'c Instances \<Rightarrow> (string \<Rightarrow> string list \<Rightarrow> ('c, unit) go) \<Rightarrow> string list \<Rightarrow>
   ('c Instances_state, unit) go" where
  "per_zone i call names =
     bind (lift_outcome (splitNodesByZone i names))
       (\<lambda>m. bind (collect_errs
          (\<lambda>zone. on_ig_cloud (call zone (ToInstanceReferences (ins_cloud i) zone
              (case fmlookup m zone of Some ns \<Rightarrow> ns | None \<Rightarrow> [])))) (ins_rng i (keys m)))
        (\<lambda>errs. if errs = [] then ret () else fail (Errorf ''%v'' errs)))"

definition ins_Add :: "'c Instances \<Rightarrow> string \<Rightarrow> string list \<Rightarrow> ('c Instances_state, unit) go" where
  "ins_Add i groupName names =
     per_zone i (AddInstancesToInstanceGroup (ins_cloud i) groupName) names"

definition ins_Remove :: "'c Instances \<Rightarrow> string \<Rightarrow> string list \<Rightarrow> ('c Instances_state, unit) go" where
  "ins_Remove i groupName names =
     per_zone i (RemoveInstancesFromInstanceGroup (ins_cloud i) groupName) names"

definition sync_group ::
  "'c Instances \<Rightarrow> string list \<Rightarrow> string \<Rightarrow> ('c Instances_state, unit) go" where
  "sync_group i nodes igName =
     bind (ins_list i igName)
       (\<lambda>gceNodes.
          let kubeNodes = set nodes;
              removeNodes = set_List (gceNodes - kubeNodes);
              addNodes = set_List (kubeNodes - gceNodes)
          in bind (if removeNodes \<noteq> [] then ins_Remove i igName removeNodes else ret ())
               (\<lambda>_. if addNodes \<noteq> [] then ins_Add i igName addNodes else ret ()))"

text \<open>A 404 anywhere ends the loop over the groups and is then dropped.\<close>

definition ins_Sync :: "'c Instances \<Rightarrow> string list \<Rightarrow> ('c Instances_state, unit) go" where
  "ins_Sync i nodes =
     ignoring_not_found
       (bind (read_state (\<lambda>s. ins_rng i (keys (Snapshot (ins_rng i) (ins_snapshotter s)))))
          (for_each (sync_group i nodes)))"

text \<open>The pool behind its interface, as the other components hold it.\<close>

record 's NodePool =
  np_EnsureInstanceGroupsAndPorts :: "string \<Rightarrow> int list \<Rightarrow> ('s, InstanceGroup list) go"
  np_DeleteInstanceGroup :: "string \<Rightarrow> ('s, unit) go"
  np_Add :: "string \<Rightarrow> string list \<Rightarrow> ('s, unit) go"
  np_Remove :: "string \<Rightarrow> string list \<Rightarrow> ('s, unit) go"
  np_Sync :: "string list \<Rightarrow> ('s, unit) go"
  np_Get :: "string \<Rightarrow> string \<Rightarrow> ('s, InstanceGroup) go"

definition NodePool_of :: "'c Instances \<Rightarrow> 'c Instances_state NodePool" where
  "NodePool_of i =
     \<lparr>np_EnsureInstanceGroupsAndPorts = EnsureInstanceGroupsAndPorts i,
      np_DeleteInstanceGroup = DeleteInstanceGroup i,
      np_Add = ins_Add i, np_Remove = ins_Remove i, np_Sync = ins_Sync i, np_Get = ins_Get i\<rparr>"

text \<open>The helper of \<open>pkg/instances/utils.go\<close> that all callers go through.\<close>

definition ensure_groups_for :: "'s NodePool \<Rightarrow> Namer \<Rightarrow> int list \<Rightarrow> ('s, InstanceGroup list) go" where
  "ensure_groups_for nodePool namer ports =
     np_EnsureInstanceGroupsAndPorts nodePool (InstanceGroup namer) ports"

section \<open>The fake cloud\<close>

record FakeZoneLister =
  Zones :: "string list"

definition fake_zoneLister :: "FakeZoneLister \<Rightarrow> zoneLister" where
  "fake_zoneLister z =
     \<lparr>ListZones = Ok (Zones z),
      GetZoneForNode = (\<lambda>name. if Zones z = [] then Panics ''index out of range'' else Ok (Zones z ! 0))\<rparr>"

record FakeInstanceGroups =
  fig_instances :: "string set"
  fig_instanceGroups :: "InstanceGroup list"
  fig_listResult :: "string list"
  fig_calls :: "Call list"
  fig_zonesToInstances :: "(string, string list) gomap"

definition getInstanceUrl :: "string \<Rightarrow> string" where
  "getInstanceUrl instanceName =
     ''https://www.googleapis.com/compute/v1/projects/project/zones/zone/instances/'' @ instanceName"

definition toInstanceNames :: "string list \<Rightarrow> string list" where
  "toInstanceNames instanceRefs = map url_name instanceRefs"

definition getInstanceList :: "string set \<Rightarrow> string list" where
  "getInstanceList nodeNames = map getInstanceUrl (set_List nodeNames)"

definition NewFakeInstanceGroups :: "string set \<Rightarrow> FakeInstanceGroups" where
  "NewFakeInstanceGroups nodes =
     \<lparr>fig_instances = nodes, fig_instanceGroups = [], fig_listResult = getInstanceList nodes,
      fig_calls = [], fig_zonesToInstances = fmempty\<rparr>"

definition is_group :: "string \<Rightarrow> string \<Rightarrow> InstanceGroup \<Rightarrow> bool" where
  "is_group name zone ig \<longleftrightarrow> ig_Name ig = name \<and> ig_Zone ig = zone"

definition fig_GetInstanceGroup :: "string \<Rightarrow> string \<Rightarrow> (FakeInstanceGroups, InstanceGroup) go" where
  "fig_GetInstanceGroup name zone =
     bind (modify_state (\<lambda>f. f\<lparr>fig_calls := fig_calls f @ [GetCall]\<rparr>))
       (\<lambda>_. bind (read_state (\<lambda>f. find (is_group name zone) (fig_instanceGroups f)))
          (\<lambda>r. case r of Some ig \<Rightarrow> ret ig | None \<Rightarrow> fail FakeGoogleAPINotFoundErr))"

definition fig_CreateInstanceGroup :: "InstanceGroup \<Rightarrow> string \<Rightarrow> (FakeInstanceGroups, unit) go" where
  "fig_CreateInstanceGroup ig zone =
     modify_state (\<lambda>f. f\<lparr>fig_instanceGroups :=
       fig_instanceGroups f @ [ig\<lparr>ig_SelfLink := ig_Name ig, ig_Zone := zone\<rparr>]\<rparr>)"

definition fig_DeleteInstanceGroup :: "string \<Rightarrow> string \<Rightarrow> (FakeInstanceGroups, unit) go" where
  "fig_DeleteInstanceGroup name zone =
     bind (read_state (\<lambda>f. name \<in> ig_Name ` set (fig_instanceGroups f)))
       (\<lambda>found. if \<not> found then fail (Errorf (''instance group '' @ name @ '' not found'') [])
          else modify_state (\<lambda>f. f\<lparr>fig_instanceGroups :=
                 filter (\<lambda>ig. ig_Name ig \<noteq> name) (fig_instanceGroups f)\<rparr>))"

definition fig_AddInstances :: "string \<Rightarrow> string \<Rightarrow> string list \<Rightarrow> (FakeInstanceGroups, unit) go" where
  "fig_AddInstances name zone instanceRefs =
     modify_state (\<lambda>f. let names = toInstanceNames instanceRefs in
       f\<lparr>fig_calls := fig_calls f @ [AddInstancesCall],
         fig_instances := fig_instances f \<union> set names,
         fig_zonesToInstances := fmupd zone
           ((case fmlookup (fig_zonesToInstances f) zone of Some l \<Rightarrow> l | None \<Rightarrow> []) @ names)
           (fig_zonesToInstances f)\<rparr>)"

definition fig_RemoveInstances :: "string \<Rightarrow> string \<Rightarrow> string list \<Rightarrow> (FakeInstanceGroups, unit) go" where
  "fig_RemoveInstances name zone instanceRefs =
     modify_state (\<lambda>f. let names = toInstanceNames instanceRefs in
       f\<lparr>fig_calls := fig_calls f @ [RemoveInstancesCall],
         fig_instances := fig_instances f - set names,
         fig_zonesToInstances :=
           (case fmlookup (fig_zonesToInstances f) zone of
              None \<Rightarrow> fig_zonesToInstances f
            | Some l \<Rightarrow> fmupd zone (filter (\<lambda>old. old \<notin> set names) l) (fig_zonesToInstances f))\<rparr>)"

text \<open>The first matching group is changed in place.\<close>

fun set_named_ports :: "string \<Rightarrow> string \<Rightarrow> NamedPort list \<Rightarrow> InstanceGroup list \<Rightarrow> InstanceGroup list option" where
  "set_named_ports name zone ports [] = None"
| "set_named_ports name zone ports (ig # igs) =
     (if is_group name zone ig then Some (ig\<lparr>ig_NamedPorts := ports\<rparr> # igs)
      else map_option (Cons ig) (set_named_ports name zone ports igs))"

definition fig_SetNamedPorts :: "string \<Rightarrow> string \<Rightarrow> NamedPort list \<Rightarrow> (FakeInstanceGroups, unit) go" where
  "fig_SetNamedPorts igName zone namedPorts =
     bind (read_state (\<lambda>f. set_named_ports igName zone namedPorts (fig_instanceGroups f)))
       (\<lambda>r. case r of
          None \<Rightarrow> fail (Errorf (''Failed to find instance group '' @ igName @ '' in zone '' @ zone) [])
        | Some igs \<Rightarrow> modify_state (\<lambda>f. f\<lparr>fig_instanceGroups := igs\<rparr>))"

definition fakeInstanceGroups :: "FakeInstanceGroups InstanceGroups" where
  "fakeInstanceGroups =
     \<lparr>GetInstanceGroup = fig_GetInstanceGroup,
      CreateInstanceGroup = fig_CreateInstanceGroup,
      cloud_DeleteInstanceGroup = fig_DeleteInstanceGroup,
      ListInstancesInInstanceGroup = (\<lambda>name zone state. read_state fig_listResult),
      AddInstancesToInstanceGroup = fig_AddInstances,
      RemoveInstancesFromInstanceGroup = fig_RemoveInstances,
      ToInstanceReferences = (\<lambda>zone names. map getInstanceUrl names),
      SetNamedPortsOfInstanceGroup = fig_SetNamedPorts\<rparr>"

section \<open>What the pool relies on\<close>

text \<open>
  The cloud's groups by name and zone. A lookup returns the group or a 404, a created group has no
  ports, ports are replaced as a whole, deleting removes the group and touches no other name
  (it may remove the group from other zones: the fake does), and a call that fails changes nothing.
\<close>

type_synonym group_view = "string \<Rightarrow> string \<Rightarrow> InstanceGroup option"

definition only_loses :: "string \<Rightarrow> group_view \<Rightarrow> group_view \<Rightarrow> bool" where
  "only_loses name g g' \<longleftrightarrow>
     (\<forall>n z. (n \<noteq> name \<longrightarrow> g' n z = g n z) \<and> (g' n z = None \<or> g' n z = g n z))"

locale ig_cloud =
  fixes cl :: "'c InstanceGroups" and groups :: "'c \<Rightarrow> group_view"
  assumes get_law: "wp (GetInstanceGroup cl name zone)
      (\<lambda>r c'. groups c' = groups c \<and>
         (case r of Ok ig \<Rightarrow> groups c name zone = Some ig \<and> ig_Name ig = name
          | Err e \<Rightarrow> IsHTTPErrorCode (Some e) StatusNotFound \<longrightarrow> groups c name zone = None
          | Panics _ \<Rightarrow> False)) c"
    and create_law: "groups c name zone = None \<Longrightarrow>
      wp (CreateInstanceGroup cl (new_instance_group name) zone)
        (\<lambda>r c'. case r of
           Ok _ \<Rightarrow> (\<exists>ig. ig_Name ig = name \<and> ig_NamedPorts ig = [] \<and>
                      groups c' = (groups c)(name := (groups c name)(zone \<mapsto> ig)))
         | Err _ \<Rightarrow> groups c' = groups c
         | Panics _ \<Rightarrow> False) c"
    and set_ports_law: "wp (SetNamedPortsOfInstanceGroup cl name zone ports)
      (\<lambda>r c'. case r of
         Ok _ \<Rightarrow> (\<exists>ig. groups c name zone = Some ig \<and>
           groups c' = (groups c)(name := (groups c name)(zone \<mapsto> ig\<lparr>ig_NamedPorts := ports\<rparr>)))
       | Err _ \<Rightarrow> groups c' = groups c
       | Panics _ \<Rightarrow> False) c"
    and delete_law: "wp (cloud_DeleteInstanceGroup cl name zone)
      (\<lambda>r c'. only_loses name (groups c) (groups c') \<and>
         (case r of Ok _ \<Rightarrow> groups c' name zone = None
          | Err _ \<Rightarrow> groups c' = groups c | Panics _ \<Rightarrow> False)) c"

text \<open>Only groups of one name change, and of their ports none is lost.\<close>

definition ports_grow :: "string \<Rightarrow> group_view \<Rightarrow> group_view \<Rightarrow> bool" where
  "ports_grow name g g' \<longleftrightarrow>
     (\<forall>n z. (n \<noteq> name \<longrightarrow> g' n z = g n z) \<and>
        (\<forall>ig. g n z = Some ig \<longrightarrow>
           (\<exists>ig'. g' n z = Some ig' \<and> set (ig_NamedPorts ig) \<subseteq> set (ig_NamedPorts ig'))))"

definition has_ports :: "group_view \<Rightarrow> string \<Rightarrow> string \<Rightarrow> int list \<Rightarrow> bool" where
  "has_ports g name zone ports \<longleftrightarrow>
     (\<exists>ig. g name zone = Some ig \<and> set ports \<subseteq> np_Port ` set (ig_NamedPorts ig))"

lemma ports_grow_refl [simp]: "ports_grow name g g"
  by (auto simp: ports_grow_def)

lemma ports_grow_trans: "ports_grow name g g' \<Longrightarrow> ports_grow name g' g'' \<Longrightarrow> ports_grow name g g''"
  unfolding ports_grow_def by (metis (no_types, lifting) subset_trans)

lemma has_ports_grow: "has_ports g name zone ports \<Longrightarrow> ports_grow name g g' \<Longrightarrow> has_ports g' name zone ports"
  unfolding has_ports_def ports_grow_def by (metis (no_types, lifting) image_mono subset_trans)

lemma ports_grow_create:
  "g name zone = None \<Longrightarrow> ports_grow name g (g(name := (g name)(zone \<mapsto> ig)))"
  by (auto simp: ports_grow_def)

lemma ports_grow_set:
  "g name zone = Some ig \<Longrightarrow> set (ig_NamedPorts ig) \<subseteq> set ports \<Longrightarrow>
   ports_grow name g (g(name := (g name)(zone \<mapsto> ig\<lparr>ig_NamedPorts := ports\<rparr>)))"
  by (auto simp: ports_grow_def)

lemma only_loses_refl [simp]: "only_loses name g g"
  by (simp add: only_loses_def)

lemma only_loses_trans: "only_loses name g g' \<Longrightarrow> only_loses name g' g'' \<Longrightarrow> only_loses name g g''"
  unfolding only_loses_def by metis

lemma missing_ports_complete:
  "set ports \<subseteq> np_Port ` (set (ig_NamedPorts ig) \<union>
     (\<lambda>p. \<lparr>np_Name = f p, np_Port = p\<rparr>) ` set (missing_ports ig ports))"
  by (auto simp: missing_ports_def image_Un image_image)

locale instances_over = ig_cloud "ins_cloud i" groups
  for i :: "'c Instances" and groups :: "'c \<Rightarrow> group_view"
begin

abbreviation gview :: "'c Instances_state \<Rightarrow> group_view" where
  "gview s \<equiv> groups (ins_cloud_st s)"

lemma gview_remember [simp]: "gview (ins_remember name s) = gview s"
  by (simp add: ins_remember_def)

lemma wp_cloud_get:
  "wp (on_ig_cloud (GetInstanceGroup (ins_cloud i) name zone))
     (\<lambda>r s'. gview s' = gview s \<and> ins_snapshotter s' = ins_snapshotter s \<and>
        (case r of Ok ig \<Rightarrow> gview s name zone = Some ig \<and> ig_Name ig = name
         | Err e \<Rightarrow> IsHTTPErrorCode (Some e) StatusNotFound \<longrightarrow> gview s name zone = None
         | Panics _ \<Rightarrow> False)) s"
  unfolding on_ig_cloud_def wp_on_part
  by (rule wp_mono [OF get_law [of name zone "ins_cloud_st s"]]) auto

lemma wp_ins_Get:
  "wp (ins_Get i name zone)
     (\<lambda>r s'. gview s' = gview s \<and>
        (case r of Ok ig \<Rightarrow> gview s name zone = Some ig \<and> ig_Name ig = name
         | Err e \<Rightarrow> IsHTTPErrorCode (Some e) StatusNotFound \<longrightarrow> gview s name zone = None
         | Panics _ \<Rightarrow> False)) s"
  unfolding ins_Get_def wp_simps
  by (rule wp_mono [OF wp_cloud_get])
    (auto simp: on_ok_def wp_simps split: outcome.splits)

lemma wp_cloud_create:
  assumes "gview s name zone = None"
  shows "wp (on_ig_cloud (CreateInstanceGroup (ins_cloud i) (new_instance_group name) zone))
     (\<lambda>r s'. ports_grow name (gview s) (gview s') \<and>
        (case r of Panics _ \<Rightarrow> False | _ \<Rightarrow> True)) s"
  unfolding on_ig_cloud_def wp_on_part
  by (rule wp_mono [OF create_law [OF assms]])
    (use assms in \<open>auto intro!: ports_grow_create split: outcome.splits\<close>)

lemma wp_get_or_create:
  "wp (get_or_create_group i name zone)
     (\<lambda>r s'. ports_grow name (gview s) (gview s') \<and>
        (case r of Ok ig \<Rightarrow> gview s' name zone = Some ig \<and> ig_Name ig = name
         | Err _ \<Rightarrow> True | Panics _ \<Rightarrow> False)) s"
proof -
  let ?Q = "\<lambda>r s'. ports_grow name (gview s) (gview s') \<and>
        (case r of Ok ig \<Rightarrow> gview s' name zone = Some ig \<and> ig_Name ig = name
         | Err _ \<Rightarrow> True | Panics _ \<Rightarrow> False)"
  have get: "wp (on_ig_cloud (GetInstanceGroup (ins_cloud i) name zone)) ?Q s'"
    if "ports_grow name (gview s) (gview s')" for s'
    by (rule wp_mono [OF wp_cloud_get [of name zone s']])
      (use that in \<open>auto split: outcome.splits\<close>)
  have create: "wp (bind_err
        (on_ig_cloud (CreateInstanceGroup (ins_cloud i) (new_instance_group name) zone))
        (\<lambda>r. case r of
           Inl err \<Rightarrow>
             if IsHTTPErrorCode (Some err) StatusConflict
             then on_ig_cloud (GetInstanceGroup (ins_cloud i) name zone)
             else fail err
         | Inr _ \<Rightarrow> on_ig_cloud (GetInstanceGroup (ins_cloud i) name zone))) ?Q s'"
    if "gview s' = gview s" "gview s name zone = None" for s'
    unfolding wp_bind_err
    by (rule wp_mono [OF wp_cloud_create [of s' name zone]])
      (use that in \<open>auto simp: get wp_simps split: outcome.splits\<close>)
  show ?thesis
    unfolding get_or_create_group_def
    apply (subst wp_bind_err)
    apply (rule wp_mono [OF wp_ins_Get [of name zone s]])
    subgoal for r s' using create [of s'] by (cases r) (auto simp: wp_simps)
    done
qed

lemma wp_set_missing:
  assumes "gview s name zone = Some ig"
  shows "wp (on_ig_cloud (SetNamedPortsOfInstanceGroup (ins_cloud i) name zone
         (ig_NamedPorts ig @ map (\<lambda>p. \<lparr>np_Name = f p, np_Port = p\<rparr>) (missing_ports ig ports))))
       (\<lambda>r s'. ports_grow name (gview s) (gview s') \<and>
          (case r of Ok _ \<Rightarrow> has_ports (gview s') name zone ports | Err _ \<Rightarrow> True
           | Panics _ \<Rightarrow> False)) s"
proof -
  have "ports_grow name (gview s)
      ((gview s)(name := (gview s name)(zone \<mapsto> ig\<lparr>ig_NamedPorts := ig_NamedPorts ig @ nps\<rparr>)))" for nps
    by (rule ports_grow_set) (use assms in auto)
  then show ?thesis
    unfolding on_ig_cloud_def wp_on_part
    by (intro wp_mono [OF set_ports_law])
      (use assms missing_ports_complete in
        \<open>auto simp: on_ok_def has_ports_def split: outcome.splits\<close>)
qed

lemma has_ports_complete:
  "g name zone = Some ig \<Longrightarrow> missing_ports ig ports = [] \<Longrightarrow> has_ports g name zone ports"
  by (auto simp: has_ports_def missing_ports_def filter_empty_conv)

lemma wp_ensure_one:
  "wp (ensureInstanceGroupAndPorts i name zone ports)
     (\<lambda>r s'. ports_grow name (gview s) (gview s') \<and>
        (case r of Ok ig \<Rightarrow> ig_Name ig = name \<and> has_ports (gview s') name zone ports
         | Err _ \<Rightarrow> True | Panics _ \<Rightarrow> False)) s"
  unfolding ensureInstanceGroupAndPorts_def
  apply (subst wp_bind)
  apply (rule wp_mono [OF wp_get_or_create [of name zone s]])
  subgoal for r s'
    by (cases r) (auto simp: wp_simps Let_def has_ports_complete on_ok_def
        intro!: wp_mono [OF wp_set_missing] intro: ports_grow_trans split: outcome.splits)
  done

text \<open>The loop over the zones; every group of the name only ever gains ports.\<close>

lemma wp_ensure_zones:
  "wp (map_each (\<lambda>zone. ensureInstanceGroupAndPorts i name zone ports) zones)
     (\<lambda>r s'. ports_grow name (gview s) (gview s') \<and>
        (case r of Ok igs \<Rightarrow> map ig_Name igs = map (\<lambda>_. name) zones \<and>
           (\<forall>zone \<in> set zones. has_ports (gview s') name zone ports)
         | Err _ \<Rightarrow> True | Panics _ \<Rightarrow> False)) s"
proof (rule wp_map_each [where I = "\<lambda>dn igs s'. ports_grow name (gview s) (gview s') \<and>
      map ig_Name igs = map (\<lambda>_. name) dn \<and>
      (\<forall>zone \<in> set dn. has_ports (gview s') name zone ports)"], goal_cases)
  case (2 dn igs zone rest s')
  then show ?case
    by (intro wp_mono [OF wp_ensure_one])
      (auto simp: on_ok_def intro: ports_grow_trans has_ports_grow split: outcome.splits)
qed auto

lemma wp_Ensure:
  assumes "ins_zoneLister i = Some zl" "ListZones zl = Ok zones"
  shows "wp (EnsureInstanceGroupsAndPorts i name ports)
     (\<lambda>r s'. ports_grow name (gview s) (gview s') \<and> name \<in> keys (ins_snapshotter s') \<and>
        (case r of Ok igs \<Rightarrow> map ig_Name igs = map (\<lambda>_. name) zones \<and>
           (\<forall>zone \<in> set zones. has_ports (gview s') name zone ports)
         | Err _ \<Rightarrow> True | Panics _ \<Rightarrow> False)) s"
  using assms
  by (simp add: EnsureInstanceGroupsAndPorts_def ins_ListZones_def wp_simps)
    (rule wp_mono [OF wp_ensure_zones], auto simp: ins_remember_def pool_Add_def
      split: outcome.splits)

lemma wp_delete_in_zone:
  "wp (delete_in_zone i name zone) (\<lambda>r s'. only_loses name (gview s) (gview s')) s"
  unfolding delete_in_zone_def wp_simps on_ig_cloud_def
  by (rule wp_mono [OF delete_law]) (auto simp: wp_simps split: outcome.splits)

text \<open>Deleting touches groups of no other name, creates none, and always ends with the name forgotten.\<close>

lemma wp_Delete:
  "wp (DeleteInstanceGroup i name)
     (\<lambda>r s'. name \<notin> keys (ins_snapshotter s') \<and> only_loses name (gview s) (gview s')) s"
proof -
  have loop: "wp (collect_errs (delete_in_zone i name) zones)
      (\<lambda>_ s'. only_loses name (gview s) (gview s')) s" for zones
    by (rule wp_collect_errs_inv)
      (auto intro: only_loses_trans wp_mono [OF wp_delete_in_zone])
  show ?thesis
    unfolding DeleteInstanceGroup_def ins_ListZones_def wp_simps
    by (cases "ins_zoneLister i"; cases "ListZones (the (ins_zoneLister i))")
      (auto simp: wp_simps ins_forget_def pool_Delete_def on_ok_def
        intro!: wp_mono [OF loop] split: outcome.splits)
qed

end

subsection \<open>The fake cloud has these laws\<close>

lemma is_group_set_ports [simp]: "is_group n z (ig\<lparr>ig_NamedPorts := ports\<rparr>) = is_group n z ig"
  by (simp add: is_group_def)

lemma is_group_make [simp]:
  "is_group n z \<lparr>ig_Name = a, ig_Zone = b, ig_SelfLink = l, ig_NamedPorts = ps\<rparr> \<longleftrightarrow> a = n \<and> b = z"
  by (simp add: is_group_def)

lemma is_group_name: "is_group n z ig \<Longrightarrow> ig_Name ig = n"
  by (simp add: is_group_def)

lemma is_group_unique: "is_group n z ig \<Longrightarrow> is_group n' z' ig \<longleftrightarrow> n' = n \<and> z' = z"
  by (auto simp: is_group_def)

lemma find_set_named_ports:
  "set_named_ports name zone ports igs = Some igs' \<Longrightarrow>
   \<exists>ig. find (is_group name zone) igs = Some ig \<and>
     (\<forall>n z. find (is_group n z) igs' =
        (if n = name \<and> z = zone then Some (ig\<lparr>ig_NamedPorts := ports\<rparr>) else find (is_group n z) igs))"
proof (induction igs arbitrary: igs')
  case (Cons a igs)
  show ?case
  proof (cases "is_group name zone a")
    case True
    then show ?thesis using Cons.prems by (auto simp: is_group_unique)
  next
    case False
    then obtain rest where "set_named_ports name zone ports igs = Some rest" "igs' = a # rest"
      using Cons.prems by auto
    with Cons.IH [of rest] False show ?thesis by auto
  qed
qed simp

lemma set_named_ports_None:
  "set_named_ports name zone ports igs = None \<longleftrightarrow> find (is_group name zone) igs = None"
  by (induction igs) auto

lemma find_without_name:
  "find (is_group n z) (filter (\<lambda>ig. ig_Name ig \<noteq> name) igs) =
     (if n = name then None else find (is_group n z) igs)"
  by (induction igs) (auto dest: is_group_name)

definition fig_groups :: "FakeInstanceGroups \<Rightarrow> group_view" where
  "fig_groups f n z = find (is_group n z) (fig_instanceGroups f)"

lemma fig_groups_Some: "fig_groups f n z = Some ig \<Longrightarrow> ig_Name ig = n \<and> ig_Zone ig = z"
  by (auto simp: fig_groups_def is_group_def dest: find_SomeD)

interpretation fake_ig: ig_cloud fakeInstanceGroups fig_groups
proof (unfold_locales, goal_cases)
  case (1 name zone c)
  show ?case
    by (cases "fig_groups c name zone")
      (auto simp: fakeInstanceGroups_def fig_GetInstanceGroup_def wp_simps fig_groups_def fun_eq_iff
        dest: fig_groups_Some [unfolded fig_groups_def])
next
  case (2 c name zone)
  then show ?case
    by (auto simp: fakeInstanceGroups_def fig_CreateInstanceGroup_def wp_simps fig_groups_def
        fun_eq_iff find_snoc new_instance_group_def split: option.split
        intro!: exI [of _ "\<lparr>ig_Name = name, ig_Zone = zone, ig_SelfLink = name, ig_NamedPorts = []\<rparr>"])
next
  case (3 name zone ports c)
  show ?case
    by (cases "set_named_ports name zone ports (fig_instanceGroups c)")
      (auto simp: fakeInstanceGroups_def fig_SetNamedPorts_def wp_simps fig_groups_def fun_eq_iff
        dest!: find_set_named_ports)
next
  case (4 name zone c)
  show ?case
    by (auto simp: fakeInstanceGroups_def fig_DeleteInstanceGroup_def wp_simps fig_groups_def
        find_without_name only_loses_def)
qed

section \<open>Synchronising the members\<close>

text \<open>
  What synchronising relies on, with \<open>mem\<close> the names of the instances of each group and zone:
  listing returns their urls (and an existing group does not answer 404), adding and removing
  instances, whose names have no slash, do what they say when they succeed.
\<close>

type_synonym member_view = "string \<Rightarrow> string \<Rightarrow> string set"

definition changes_members ::
  "('c \<Rightarrow> member_view) \<Rightarrow> string \<Rightarrow> (string set \<Rightarrow> string set \<Rightarrow> string set) \<Rightarrow> 'c InstanceGroups \<Rightarrow>
   (string \<Rightarrow> string list \<Rightarrow> ('c, unit) go) \<Rightarrow> bool" where
  "changes_members mem g F cl call \<longleftrightarrow>
     (\<forall>zone names c. (\<forall>n \<in> set names. CHR ''/'' \<notin> set n) \<longrightarrow>
        wp (call zone (ToInstanceReferences cl zone names))
        (\<lambda>r c'. r = Ok () \<longrightarrow>
           mem c' = (mem c)(g := (mem c g)(zone := F (mem c g zone) (set names)))) c)"

definition tracks_members :: "'c InstanceGroups \<Rightarrow> ('c \<Rightarrow> member_view) \<Rightarrow> bool" where
  "tracks_members cl mem \<longleftrightarrow>
     (\<forall>name zone state c. wp (ListInstancesInInstanceGroup cl name zone state)
        (\<lambda>r c'. mem c' = mem c \<and>
           (case r of Ok urls \<Rightarrow> url_name ` set urls = mem c name zone
            | Err e \<Rightarrow> \<not> IsHTTPErrorCode (Some e) StatusNotFound | Panics _ \<Rightarrow> True)) c) \<and>
     (\<forall>g. changes_members mem g (\<union>) cl (AddInstancesToInstanceGroup cl g)) \<and>
     (\<forall>g. changes_members mem g (-) cl (RemoveInstancesFromInstanceGroup cl g))"

lemma url_name_no_slash: "CHR ''/'' \<notin> set (url_name url)"
proof -
  have "\<not> Contains (url_name url) ''/''"
    unfolding url_name_def by (rule Split_tokens [of _ _ url]) simp_all
  then show ?thesis by (auto simp: Contains_iff in_set_conv_decomp)
qed

abbreviation nodes_of :: "(string, string list) gomap \<Rightarrow> string \<Rightarrow> string list" where
  "nodes_of m z \<equiv> (case fmlookup m z of Some ns \<Rightarrow> ns | None \<Rightarrow> [])"

lemma split_nodes_known:
  assumes "\<forall>n \<in> set names. ins_GetZoneForNode i n = Ok (zn n)"
  shows "\<exists>m'. split_nodes i m names = Ok m' \<and> keys m' = keys m \<union> zn ` set names \<and>
           (\<forall>z. nodes_of m' z = nodes_of m z @ filter (\<lambda>n. zn n = z) names)"
  using assms
proof (induction names arbitrary: m)
  case (Cons n names)
  let ?m = "fmupd (zn n) (nodes_of m (zn n) @ [n]) m"
  from Cons.IH [of ?m] Cons.prems obtain m' where
    "split_nodes i ?m names = Ok m'" "keys m' = keys ?m \<union> zn ` set names"
    "\<forall>z. nodes_of m' z = nodes_of ?m z @ filter (\<lambda>n. zn n = z) names" by auto
  then show ?case using Cons.prems by auto
qed simp

lemma splitNodesByZone_known:
  assumes "\<forall>n \<in> set names. ins_GetZoneForNode i n = Ok (zn n)"
  obtains m where "splitNodesByZone i names = Ok m" "keys m = zn ` set names"
    "\<And>z. nodes_of m z = filter (\<lambda>n. zn n = z) names"
  using split_nodes_known [OF assms, of fmempty] by (auto simp: splitNodesByZone_def)

lemma wp_per_zone:
  assumes rng: "string_range (ins_rng i)" and call: "changes_members mem g F (ins_cloud i) call"
    and F: "\<And>S. F S {} = S" and slash: "\<forall>n \<in> set names. CHR ''/'' \<notin> set n"
    and known: "\<forall>n \<in> set names. ins_GetZoneForNode i n = Ok (zn n)"
  shows "wp (per_zone i call names)
     (\<lambda>r s'. (\<forall>e. r = Err e \<longrightarrow> \<not> IsHTTPErrorCode (Some e) StatusNotFound) \<and>
        (r = Ok () \<longrightarrow> mem (ins_cloud_st s') = (mem (ins_cloud_st s))(g :=
           (\<lambda>z. F (mem (ins_cloud_st s) g z) {n \<in> set names. zn n = z})))) s"
proof -
  obtain m where m: "splitNodesByZone i names = Ok m" "keys m = zn ` set names"
    "\<And>z. nodes_of m z = filter (\<lambda>n. zn n = z) names"
    using splitNodesByZone_known [OF known] by blast
  let ?zs = "ins_rng i (keys m)"
  have zs: "set ?zs = zn ` set names" "distinct ?zs"
    using rng m(2) by (simp_all add: string_range_def map_range.set_rng map_range.distinct_rng)
  let ?new = "\<lambda>dn. (mem (ins_cloud_st s))(g := (\<lambda>z. if z \<in> set dn
      then F (mem (ins_cloud_st s) g z) {n \<in> set names. zn n = z} else mem (ins_cloud_st s) g z))"
  have body: "wp (on_ig_cloud (call zone (ToInstanceReferences (ins_cloud i) zone (nodes_of m zone))))
      (\<lambda>r s''. case r of Ok _ \<Rightarrow> mem (ins_cloud_st s'') = ?new (dn @ [zone]) | _ \<Rightarrow> True) s'"
    if "?zs = dn @ zone # rest" "mem (ins_cloud_st s') = ?new dn" for dn zone rest s'
  proof -
    have "zone \<notin> set dn" using zs(2) that(1) by auto
    with call that(2) m(3) slash show ?thesis
      unfolding changes_members_def on_ig_cloud_def wp_on_part
      by (intro wp_mono [OF call [unfolded changes_members_def, rule_format]])
        (auto simp: fun_eq_iff split: outcome.split)
  qed
  have fin: "?new ?zs = (mem (ins_cloud_st s))(g :=
      (\<lambda>z. F (mem (ins_cloud_st s) g z) {n \<in> set names. zn n = z}))"
  proof -
    have "F S {n \<in> set names. zn n = z} = S" if "z \<notin> zn ` set names" for z S
    proof -
      have "{n \<in> set names. zn n = z} = {}" using that by auto
      then show ?thesis by (simp only: F)
    qed
    then show ?thesis by (simp add: fun_eq_iff zs(1))
  qed
  have "wp (collect_errs (\<lambda>zone. on_ig_cloud (call zone
         (ToInstanceReferences (ins_cloud i) zone (nodes_of m zone)))) ?zs)
      (\<lambda>r s'. case r of Ok es \<Rightarrow> es = [] \<longrightarrow> mem (ins_cloud_st s') = ?new ?zs
         | Err _ \<Rightarrow> False | Panics _ \<Rightarrow> True) s"
    by (rule wp_collect_errs [where I = "\<lambda>dn s'. mem (ins_cloud_st s') = ?new dn"])
      (simp, rule body)
  then show ?thesis
    unfolding per_zone_def wp_simps m(1) fin
    by (simp add: wp_simps) (elim wp_mono, auto simp: on_ok_def wp_simps IsHTTPErrorCode_def split: outcome.splits)
qed

lemma wp_map_each_list:
  assumes "tracks_members (ins_cloud i) mem"
  shows "wp (map_each (\<lambda>zone. on_ig_cloud
            (ListInstancesInInstanceGroup (ins_cloud i) g zone allInstances)) zones)
     (\<lambda>r s'. mem (ins_cloud_st s') = mem (ins_cloud_st s) \<and>
        (case r of Ok items \<Rightarrow>
           url_name ` set (concat items) = (\<Union>z \<in> set zones. mem (ins_cloud_st s) g z)
         | Err e \<Rightarrow> \<not> IsHTTPErrorCode (Some e) StatusNotFound | Panics _ \<Rightarrow> True)) s"
proof (rule wp_map_each [where I = "\<lambda>dn items s'. mem (ins_cloud_st s') = mem (ins_cloud_st s) \<and>
      url_name ` set (concat items) = (\<Union>z \<in> set dn. mem (ins_cloud_st s) g z)"], goal_cases)
  case (2 dn items zone rest s')
  have law: "wp (ListInstancesInInstanceGroup (ins_cloud i) g zone allInstances)
      (\<lambda>r c'. mem c' = mem (ins_cloud_st s') \<and>
           (case r of Ok urls \<Rightarrow> url_name ` set urls = mem (ins_cloud_st s') g zone
            | Err e \<Rightarrow> \<not> IsHTTPErrorCode (Some e) StatusNotFound | Panics _ \<Rightarrow> True))
      (ins_cloud_st s')"
    using assms by (simp add: tracks_members_def)
  from 2 show ?case
    unfolding on_ig_cloud_def wp_on_part
    by (intro wp_mono [OF law]) (auto simp: on_ok_def image_Un split: outcome.splits)
qed auto

lemma wp_ins_list:
  assumes "tracks_members (ins_cloud i) mem" "ins_zoneLister i = Some zl" "ListZones zl = Ok zones"
  shows "wp (ins_list i g)
     (\<lambda>r s'. mem (ins_cloud_st s') = mem (ins_cloud_st s) \<and>
        (case r of Ok gce \<Rightarrow> finite gce \<and> (\<forall>n \<in> gce. CHR ''/'' \<notin> set n) \<and>
            gce = (\<Union>z \<in> set zones. mem (ins_cloud_st s) g z)
         | Err e \<Rightarrow> \<not> IsHTTPErrorCode (Some e) StatusNotFound | Panics _ \<Rightarrow> True)) s"
  using assms(2,3)
  by (simp add: ins_list_def ins_ListZones_def wp_simps)
    (rule wp_mono [OF wp_map_each_list [OF assms(1)]],
      auto simp: on_ok_def url_name_no_slash split: outcome.splits)

text \<open>One group: afterwards each zone has exactly the nodes that belong there.\<close>

lemma wp_sync_group:
  assumes rng: "string_range (ins_rng i)" and tracks: "tracks_members (ins_cloud i) mem"
    and zl: "ins_zoneLister i = Some zl" "ListZones zl = Ok zones"
    and nodes: "\<forall>n \<in> set nodes. CHR ''/'' \<notin> set n \<and> ins_GetZoneForNode i n = Ok (zn n)"
    and members: "\<forall>z \<in> set zones. \<forall>n \<in> mem (ins_cloud_st s) g z.
                    ins_GetZoneForNode i n = Ok (zn n) \<and> zn n = z"
  shows "wp (sync_group i nodes g)
     (\<lambda>r s'. (\<forall>e. r = Err e \<longrightarrow> \<not> IsHTTPErrorCode (Some e) StatusNotFound) \<and>
        (r = Ok () \<longrightarrow>
           (\<forall>z \<in> set zones. mem (ins_cloud_st s') g z = {n \<in> set nodes. zn n = z}) \<and>
           (\<forall>g'. g' \<noteq> g \<longrightarrow> mem (ins_cloud_st s') g' = mem (ins_cloud_st s) g'))) s"
    (is "wp _ ?Q s")
proof -
  let ?m = "mem (ins_cloud_st s)"
  let ?gce = "\<Union>z \<in> set zones. ?m g z"
  let ?mid = "?m(g := (\<lambda>z. ?m g z - {n \<in> ?gce - set nodes. zn n = z}))"
  let ?fin = "?m(g := (\<lambda>z. (?m g z - {n \<in> ?gce - set nodes. zn n = z}) \<union>
                           {n \<in> set nodes - ?gce. zn n = z}))"
  let ?ok = "\<lambda>r. \<forall>e. r = Err e \<longrightarrow> \<not> IsHTTPErrorCode (Some e) StatusNotFound"
  have remove: "wp (if set_List (?gce - set nodes) \<noteq> [] then ins_Remove i g (set_List (?gce - set nodes))
        else ret ()) (\<lambda>r s'. ?ok r \<and> (r = Ok () \<longrightarrow> mem (ins_cloud_st s') = ?mid)) s'"
    if "mem (ins_cloud_st s') = ?m" "finite ?gce" "\<forall>n \<in> ?gce. CHR ''/'' \<notin> set n" for s'
  proof -
    have call: "changes_members mem g (-) (ins_cloud i) (RemoveInstancesFromInstanceGroup (ins_cloud i) g)"
      using tracks by (simp add: tracks_members_def)
    show ?thesis
    proof (cases "?gce - set nodes = {}")
      case True
      then show ?thesis using that by (auto simp: wp_simps fun_eq_iff)
    next
      case False
      then show ?thesis
        using that members
        by (auto simp: ins_Remove_def intro!: wp_mono [OF wp_per_zone [OF rng call, of _ zn]])
    qed
  qed
  have add: "wp (if set_List (set nodes - ?gce) \<noteq> [] then ins_Add i g (set_List (set nodes - ?gce))
        else ret ()) (\<lambda>r s'. ?ok r \<and> (r = Ok () \<longrightarrow> mem (ins_cloud_st s') = ?fin)) s'"
    if "mem (ins_cloud_st s') = ?mid" for s'
  proof -
    have call: "changes_members mem g (\<union>) (ins_cloud i) (AddInstancesToInstanceGroup (ins_cloud i) g)"
      using tracks by (simp add: tracks_members_def)
    show ?thesis
    proof (cases "set nodes - ?gce = {}")
      case True
      then show ?thesis using that by (auto simp: wp_simps fun_eq_iff)
    next
      case False
      then show ?thesis
        using that nodes
        by (auto simp: ins_Add_def intro!: wp_mono [OF wp_per_zone [OF rng call, of _ zn]])
    qed
  qed
  have fin: "?fin g z = {n \<in> set nodes. zn n = z}" if "z \<in> set zones" for z
    using members that by auto
  have synced: "wp (if set_List (set nodes - ?gce) \<noteq> [] then ins_Add i g (set_List (set nodes - ?gce))
        else ret ()) ?Q s'" if "mem (ins_cloud_st s') = ?mid" for s'
    by (rule wp_mono [OF add [OF that]]) (use fin in auto)
  show ?thesis
    unfolding sync_group_def wp_bind [where Q = ?Q]
  proof (rule wp_mono [OF wp_ins_list [OF tracks zl]], goal_cases)
    case (1 r s')
    show ?case
    proof (cases r)
      case (Ok gce)
      with 1 have gce: "gce = ?gce" "finite ?gce" "\<forall>n \<in> ?gce. CHR ''/'' \<notin> set n" and m: "mem (ins_cloud_st s') = ?m" by auto
      show ?thesis
        unfolding Ok on_ok_simps Let_def gce(1) wp_bind
      proof (rule wp_mono [OF remove [OF m gce(2,3)]], goal_cases)
        case (1 r' s'')
        then show ?case using synced [of s''] by (cases r') simp_all
      qed
    qed (use 1 in auto)
  qed
qed

lemma wp_ignoring_not_found:
  assumes "wp m (\<lambda>r s'. (\<forall>e. r = Err e \<longrightarrow> \<not> IsHTTPErrorCode (Some e) StatusNotFound) \<and>
             (r = Ok () \<longrightarrow> P s')) s"
  shows "wp (ignoring_not_found m) (\<lambda>r s'. r = Ok () \<longrightarrow> P s') s"
  unfolding ignoring_not_found_def wp_simps
  by (rule wp_mono [OF assms])
    (auto simp: wp_simps IgnoreHTTPNotFound_def split: outcome.splits)

section \<open>Properties\<close>

text \<open>
  C10: a successful call leaves, in every zone that the zone lister names, an instance group
  with all requested ports, and returns one group per zone. No port that a group already had is lost
  and no group of another name changes, also when the call fails half way; the group is remembered on
  every outcome.
\<close>

theorem ensure_instance_groups:
  assumes "ig_cloud (ins_cloud i) groups"
    and "ins_zoneLister i = Some zl" "ListZones zl = Ok zones"
    and "EnsureInstanceGroupsAndPorts i name ports s = (r, s')"
  shows "ports_grow name (groups (ins_cloud_st s)) (groups (ins_cloud_st s')) \<and>
     name \<in> keys (ins_snapshotter s') \<and>
     (case r of
        Ok igs \<Rightarrow> map ig_Name igs = replicate (length zones) name \<and>
          (\<forall>zone \<in> set zones. has_ports (groups (ins_cloud_st s')) name zone ports)
      | Err _ \<Rightarrow> True | Panics _ \<Rightarrow> False)"
proof -
  have "instances_over i groups" using assms(1) by (simp add: instances_over_def)
  from wpD [OF instances_over.wp_Ensure [OF this assms(2,3)] assms(4)] show ?thesis
    by (auto simp: map_replicate_const split: outcome.splits)
qed

abbreviation fake_pool :: "string list \<Rightarrow> FakeInstanceGroups Instances" where
  "fake_pool zones \<equiv>
     \<lparr>ins_cloud = fakeInstanceGroups, ins_zoneLister = Some (fake_zoneLister \<lparr>Zones = zones\<rparr>),
      ins_namer = NewNamer ''uid1'' [], ins_rng = set_List\<rparr>"

interpretation fake_instances: instances_over "fake_pool zones" fig_groups for zones
  by (simp add: instances_over_def fake_ig.ig_cloud_axioms)

theorem ensure_instance_groups_witness:
  "\<exists>igs s'. EnsureInstanceGroupsAndPorts (fake_pool [''zone-a'']) ''k8s-ig--uid1'' [80, 443]
       \<lparr>ins_cloud_st = NewFakeInstanceGroups {}, ins_snapshotter = NewInMemoryPool\<rparr> = (Ok igs, s') \<and>
     has_ports (fig_groups (ins_cloud_st s')) ''k8s-ig--uid1'' ''zone-a'' [80, 443]"
proof -
  let ?s = "\<lparr>ins_cloud_st = NewFakeInstanceGroups {}, ins_snapshotter = NewInMemoryPool\<rparr>"
  obtain igs s' where run: "EnsureInstanceGroupsAndPorts (fake_pool [''zone-a'']) ''k8s-ig--uid1''
      [80, 443] ?s = (Ok igs, s')"
    by (simp add: EnsureInstanceGroupsAndPorts_def ensureInstanceGroupAndPorts_def
        get_or_create_group_def ins_Get_def on_ig_cloud_def ins_ListZones_def fake_zoneLister_def
        bind_def bind_err_def on_part_def deferring_def lift_outcome_def ret_def fail_def
        modify_state_def read_state_def fakeInstanceGroups_def fig_GetInstanceGroup_def
        fig_CreateInstanceGroup_def fig_SetNamedPorts_def NewFakeInstanceGroups_def
        new_instance_group_def missing_ports_def IsHTTPErrorCode_def FakeGoogleAPINotFoundErr_def)
  from ensure_instance_groups [OF _ _ _ run, of fig_groups "fake_zoneLister \<lparr>Zones = [''zone-a'']\<rparr>"
      "[''zone-a'']"] fake_ig.ig_cloud_axioms run
  show ?thesis by (simp add: fake_zoneLister_def)
qed




text \<open>A cloud for the witness: the instances of a group and zone as a list of triples.\<close>

definition members_cloud :: "(string \<times> string \<times> string) list InstanceGroups" where
  "members_cloud =
     \<lparr>GetInstanceGroup = (\<lambda>name zone. fail FakeGoogleAPINotFoundErr),
      CreateInstanceGroup = (\<lambda>ig zone. ret ()),
      cloud_DeleteInstanceGroup = (\<lambda>name zone. ret ()),
      ListInstancesInInstanceGroup = (\<lambda>name zone state.
        read_state (\<lambda>c. map (snd \<circ> snd) (filter (\<lambda>(g, z, u). g = name \<and> z = zone) c))),
      AddInstancesToInstanceGroup = (\<lambda>name zone refs.
        modify_state (\<lambda>c. c @ map (\<lambda>u. (name, zone, u)) refs)),
      RemoveInstancesFromInstanceGroup = (\<lambda>name zone refs.
        modify_state (\<lambda>c. filter (\<lambda>(g, z, u). \<not> (g = name \<and> z = zone \<and>
           url_name u \<in> url_name ` set refs)) c)),
      ToInstanceReferences = (\<lambda>zone names. names),
      SetNamedPortsOfInstanceGroup = (\<lambda>name zone ports. ret ())\<rparr>"

lemma url_name_id: "CHR ''/'' \<notin> set n \<Longrightarrow> url_name n = n"
  unfolding url_name_def by (subst Split_no_sep) (auto simp: Contains_iff)

abbreviation triples_view :: "(string \<times> string \<times> string) list \<Rightarrow> member_view" where
  "triples_view c g z \<equiv> {url_name u |u. (g, z, u) \<in> set c}"

lemma triples_view_list:
  "url_name ` (snd \<circ> snd) ` {x \<in> set c. case x of (g, z, u) \<Rightarrow> g = name \<and> z = zone} = triples_view c name zone"
  by force

lemma triples_view_add:
  assumes "\<forall>n \<in> set names. CHR ''/'' \<notin> set n"
  shows "triples_view (c @ map (\<lambda>u. (g, zone, u)) names) =
    (triples_view c)(g := (triples_view c g)(zone := triples_view c g zone \<union> set names))"
proof (intro ext)
  fix g' z'
  have "{url_name u |u. u \<in> set names} = set names" using assms by (force simp: url_name_id)
  moreover have "triples_view (c @ map (\<lambda>u. (g, zone, u)) names) g zone =
      triples_view c g zone \<union> {url_name u |u. u \<in> set names}" by auto
  ultimately show "triples_view (c @ map (\<lambda>u. (g, zone, u)) names) g' z' =
      ((triples_view c)(g := (triples_view c g)(zone := triples_view c g zone \<union> set names))) g' z'"
    by (cases "g' = g \<and> z' = zone") auto
qed

lemma triples_view_remove:
  assumes "\<forall>n \<in> set names. CHR ''/'' \<notin> set n"
  shows "triples_view (filter (\<lambda>(g', z, u).
      \<not> (g' = g \<and> z = zone \<and> url_name u \<in> url_name ` set names)) c) =
    (triples_view c)(g := (triples_view c g)(zone := triples_view c g zone - set names))"
proof (intro ext)
  fix g' z'
  have "url_name ` set names = set names" using assms by (simp add: url_name_id)
  then show "triples_view (filter (\<lambda>(g', z, u).
        \<not> (g' = g \<and> z = zone \<and> url_name u \<in> url_name ` set names)) c) g' z' =
      ((triples_view c)(g := (triples_view c g)(zone := triples_view c g zone - set names))) g' z'"
    by (cases "g' = g \<and> z' = zone") auto
qed

lemma members_cloud_tracks: "tracks_members members_cloud triples_view"
proof -
  have "changes_members triples_view g (\<union>) members_cloud (AddInstancesToInstanceGroup members_cloud g)" for g
    unfolding changes_members_def
    by (intro allI impI) (simp only: members_cloud_def InstanceGroups.simps wp_modify_state
        triples_view_add simp_thms)
  moreover have "changes_members triples_view g (-) members_cloud
      (RemoveInstancesFromInstanceGroup members_cloud g)" for g
    unfolding changes_members_def
    by (intro allI impI) (simp only: members_cloud_def InstanceGroups.simps wp_modify_state
        triples_view_remove simp_thms)
  moreover have "wp (ListInstancesInInstanceGroup members_cloud name zone state)
      (\<lambda>r c'. triples_view c' = triples_view c \<and>
         (case r of Ok urls \<Rightarrow> url_name ` set urls = triples_view c name zone
          | Err e \<Rightarrow> \<not> IsHTTPErrorCode (Some e) StatusNotFound | Panics _ \<Rightarrow> True)) c"
    for name zone state c
    by (simp only: members_cloud_def InstanceGroups.simps wp_read_state outcome.case
        set_map set_filter triples_view_list simp_thms)
  ultimately show ?thesis
    unfolding tracks_members_def by blast
qed

lemmas go_run = bind_def bind_err_def on_part_def deferring_def lift_outcome_def ret_def fail_def
  modify_state_def read_state_def panic_def




end
