(* ===== verification/Kube.thy ===== *)
theory Kube
  imports Utils
begin

text \<open>
  The objects of the Kubernetes API that the controller reads from its caches, as records with
  the fields that it uses. The metadata of an object is part of its record, and a Go pointer that may be
  nil is an \<open>option\<close>.
\<close>

section \<open>Names and ports\<close>

datatype IntOrString = IntVal int | StrVal string

fun IntOrString_String :: "IntOrString \<Rightarrow> string" where
  "IntOrString_String (IntVal i) = Itoa i"
| "IntOrString_String (StrVal s) = s"

record NamespacedName =
  nn_Namespace :: string
  nn_Name :: string

definition NamespacedName_String :: "NamespacedName \<Rightarrow> string" where
  "NamespacedName_String n = nn_Namespace n @ ''/'' @ nn_Name n"

section \<open>Services and endpoints\<close>

type_synonym string_map = "(string, string) gomap"

record ApiServicePort =
  asp_Name :: string
  asp_Port :: int
  asp_TargetPort :: IntOrString
  asp_NodePort :: int

record Service =
  svc_Name :: string
  svc_Namespace :: string
  svc_Annotations :: string_map
  svc_Ports :: "ApiServicePort list"
  svc_Selector :: string_map

record EndpointAddress =
  ea_IP :: string
  ea_NodeName :: "string option"

record EndpointPort =
  epp_Name :: string
  epp_Port :: int
  epp_Protocol :: string

record EndpointSubset =
  es_Addresses :: "EndpointAddress list"
  es_Ports :: "EndpointPort list"

record Endpoints =
  ep_Name :: string
  ep_Namespace :: string
  ep_Subsets :: "EndpointSubset list"

section \<open>Ingresses\<close>

record IngressBackend =
  ib_ServiceName :: string
  ib_ServicePort :: IntOrString

record HTTPIngressPath =
  hp_Path :: string
  hp_Backend :: IngressBackend

record IngressRule =
  rule_Host :: string
  rule_HTTP :: "HTTPIngressPath list option"

record IngressTLS =
  tls_Hosts :: "string list"
  tls_SecretName :: string

record Ingress =
  ing_Name :: string
  ing_Namespace :: string
  ing_Annotations :: string_map
  ing_Backend :: "IngressBackend option"
  ing_TLS :: "IngressTLS list"
  ing_Rules :: "IngressRule list"
  ing_StatusIPs :: "string list"

section \<open>Pods and nodes\<close>

record HTTPGetAction =
  hga_Path :: string
  hga_Port :: IntOrString
  hga_Host :: string
  hga_Scheme :: string
  hga_HTTPHeaders :: "(string \<times> string) list"

record Probe =
  pb_HTTPGet :: "HTTPGetAction option"
  pb_TimeoutSeconds :: int
  pb_PeriodSeconds :: int

record ContainerPort =
  cp_Name :: string
  cp_ContainerPort :: int

record Container =
  cn_Name :: string
  cn_Ports :: "ContainerPort list"
  cn_ReadinessProbe :: "Probe option"

record Pod =
  pod_Name :: string
  pod_Namespace :: string
  pod_Labels :: string_map
  pod_CreationTimestamp :: int
  pod_Containers :: "Container list"

record Node =
  node_Name :: string
  node_Labels :: string_map
  node_Unschedulable :: bool
  node_Conditions :: "(string \<times> string) list"

end
