(* ===== verification/Neg_Syncer.thy ===== *)
theory Neg_Syncer
  imports Instances Kube "HOL-Library.Multiset"
begin

text \<open>
  The synchronisation of network endpoint groups with the endpoints of a service
  (\<open>pkg/networkendpointgroup/syncer.go\<close>), and the fake cloud of the package (\<open>fakes.go\<close>).

  The attach and detach calls of one synchronisation run in goroutines of their own; the order in which
  the cloud sees them is a parameter \<open>syn_sched\<close> of the model, any permutation of the calls. The order in
  which \<open>PopAny\<close> takes endpoints out of a set is left open by the order of map iteration. Events
  and log lines are output only and left out.
\<close>

section \<open>Interfaces\<close>

record 'c networkEndpointGroupCloud =
  GetNetworkEndpointGroup :: "string \<Rightarrow> string \<Rightarrow> ('c, NetworkEndpointGroup) go"
  AggregatedListNetworkEndpointGroup :: "('c, (string, NetworkEndpointGroup list) gomap) go"
  CreateNetworkEndpointGroup :: "NetworkEndpointGroup \<Rightarrow> string \<Rightarrow> ('c, unit) go"
  DeleteNetworkEndpointGroup :: "string \<Rightarrow> string \<Rightarrow> ('c, unit) go"
  AttachNetworkEndpoints :: "string \<Rightarrow> string \<Rightarrow> NetworkEndpoint list \<Rightarrow> ('c, unit) go"
  DetachNetworkEndpoints :: "string \<Rightarrow> string \<Rightarrow> NetworkEndpoint list \<Rightarrow> ('c, unit) go"
  ListNetworkEndpoints :: "string \<Rightarrow> string \<Rightarrow> ('c, NetworkEndpoint list) go"
  cloud_NetworkURL :: string
  cloud_SubnetworkURL :: string

type_synonym zoneGetter = zoneLister

record servicePort =
  svp_namespace :: string
  svp_name :: string
  svp_targetPort :: string

datatype neg_op =
    Attach string "NetworkEndpoint list"
  | Detach string "NetworkEndpoint list"

text \<open>
  The part of a syncer that does not change; \<open>syn_endpointLister\<close> is the endpoint cache, asked by
  namespace and name.
\<close>

record 'c syncer =
  syn_servicePort :: servicePort
  syn_negName :: string
  syn_endpointLister :: "string \<Rightarrow> string \<Rightarrow> Endpoints option outcome"
  syn_cloud :: "'c networkEndpointGroupCloud"
  syn_zoneGetter :: zoneGetter
  syn_rng :: "string set \<Rightarrow> string list"
  syn_sched :: "neg_op list \<Rightarrow> neg_op list"

abbreviation syn_targetPort :: "'c syncer \<Rightarrow> string" where
  "syn_targetPort s \<equiv> svp_targetPort (syn_servicePort s)"

section \<open>Encoded endpoints\<close>

definition encodeEndpoint :: "string \<Rightarrow> string \<Rightarrow> string \<Rightarrow> string" where
  "encodeEndpoint ip instance_name port = ip @ ''||'' @ instance_name @ ''||'' @ port"

definition decodeEndpoint :: "string \<Rightarrow> (string \<times> string \<times> string) outcome" where
  "decodeEndpoint str =
     (case Split str ''||'' of
        a # b # c # _ \<Rightarrow> Ok (a, b, c)
      | _ \<Rightarrow> Panics ''index out of range'')"

definition retrieveName :: "string \<Rightarrow> string" where
  "retrieveName url = last (Split url ''/'')"

section \<open>Zone maps\<close>

type_synonym zone_map = "(string, string set) gomap"

definition zone_set :: "zone_map \<Rightarrow> string \<Rightarrow> string set" where
  "zone_set m zone = (case fmlookup m zone of None \<Rightarrow> {} | Some eps \<Rightarrow> eps)"

text \<open>The endpoints of each zone of \<open>a\<close> that \<open>b\<close> lacks, without zones where nothing is left.\<close>

definition diff_map :: "zone_map \<Rightarrow> zone_map \<Rightarrow> zone_map" where
  "diff_map a b =
     fmmap_keys (\<lambda>zone eps. eps - zone_set b zone)
       (fmfilter (\<lambda>zone. zone_set a zone - zone_set b zone \<noteq> {}) a)"

definition calculateDifference :: "zone_map \<Rightarrow> zone_map \<Rightarrow> zone_map \<times> zone_map" where
  "calculateDifference targetMap currentMap = (diff_map targetMap currentMap, diff_map currentMap targetMap)"

text \<open>The port that stands for the target port in a subset, empty when no port matches.\<close>

fun match_port :: "string \<Rightarrow> EndpointPort list \<Rightarrow> string" where
  "match_port tp [] = []"
| "match_port tp (p # ps) =
     (let targetPort = Atoi_value tp;
          m = (if targetPort \<noteq> 0 then (if epp_Port p = targetPort then tp else [])
               else (if epp_Name p = tp then Itoa (epp_Port p) else []))
      in if m \<noteq> [] then m else match_port tp ps)"

fun add_addresses :: "zoneGetter \<Rightarrow> string \<Rightarrow> EndpointAddress list \<Rightarrow> zone_map \<Rightarrow> zone_map outcome" where
  "add_addresses zg port [] m = Ok m"
| "add_addresses zg port (a # as) m =
     (case ea_NodeName a of
        None \<Rightarrow> Panics ''nil pointer dereference''
      | Some node \<Rightarrow>
          (case GetZoneForNode zg node of
             Ok zone \<Rightarrow>
               add_addresses zg port as
                 (fmupd zone (insert (encodeEndpoint (ea_IP a) node port) (zone_set m zone)) m)
           | Err e \<Rightarrow> Err e
           | Panics p \<Rightarrow> Panics p))"

fun add_subsets :: "zoneGetter \<Rightarrow> string \<Rightarrow> EndpointSubset list \<Rightarrow> zone_map \<Rightarrow> zone_map outcome" where
  "add_subsets zg tp [] m = Ok m"
| "add_subsets zg tp (sub # subs) m =
     (let port = match_port tp (es_Ports sub)
      in if port = [] then add_subsets zg tp subs m
         else case add_addresses zg port (es_Addresses sub) m of
                Ok m' \<Rightarrow> add_subsets zg tp subs m'
              | Err e \<Rightarrow> Err e
              | Panics p \<Rightarrow> Panics p)"

definition toZoneNetworkEndpointMap :: "'c syncer \<Rightarrow> Endpoints \<Rightarrow> zone_map outcome" where
  "toZoneNetworkEndpointMap s endpoints =
     add_subsets (syn_zoneGetter s) (syn_targetPort s) (ep_Subsets endpoints) fmempty"

text \<open>An endpoint as the syncer writes it into a set.\<close>

definition encoded :: "NetworkEndpoint \<Rightarrow> string" where
  "encoded ne = encodeEndpoint (ne_IpAddress ne) (ne_Instance ne) (Itoa (ne_Port ne))"

fun existing_map :: "(string \<times> NetworkEndpoint list) list \<Rightarrow> zone_map \<Rightarrow> zone_map" where
  "existing_map [] m = m"
| "existing_map ((zone, nes) # rest) m = existing_map rest (fmupd zone (encoded ` set nes) m)"

definition retrieveExistingZoneNetworkEndpointMap :: "'c syncer \<Rightarrow> ('c, zone_map) go" where
  "retrieveExistingZoneNetworkEndpointMap s =
     bind (lift_outcome (ListZones (syn_zoneGetter s)))
       (\<lambda>zones. bind (map_each (\<lambda>zone. ListNetworkEndpoints (syn_cloud s) (syn_negName s) zone) zones)
          (\<lambda>lists. ret (existing_map (zip zones lists) fmempty)))"

section \<open>The groups\<close>

definition create_neg :: "'c syncer \<Rightarrow> string \<Rightarrow> ('c, gerror list) go" where
  "create_neg s zone =
     bind_err (CreateNetworkEndpointGroup (syn_cloud s)
         \<lparr>neg_Name = syn_negName s, neg_SelfLink = [], neg_Type = ''LOAD_BALANCING'',
          neg_NetworkEndpointType = ''GCE_VM_IP_PORT'', neg_Network = cloud_NetworkURL (syn_cloud s),
          neg_Subnetwork = cloud_SubnetworkURL (syn_cloud s)\<rparr> zone)
       (\<lambda>r. ret (case r of Inl e \<Rightarrow> [e] | Inr _ \<Rightarrow> []))"

text \<open>One zone: the errors that it adds to the list.\<close>

definition ensure_in_zone :: "'c syncer \<Rightarrow> string \<Rightarrow> ('c, gerror list) go" where
  "ensure_in_zone s zone =
     bind_err (GetNetworkEndpointGroup (syn_cloud s) (syn_negName s) zone)
       (\<lambda>r. case r of
          Inl _ \<Rightarrow> create_neg s zone
        | Inr neg \<Rightarrow>
            if retrieveName (neg_Network neg) \<noteq> retrieveName (cloud_NetworkURL (syn_cloud s)) \<or>
               retrieveName (neg_Subnetwork neg) \<noteq> retrieveName (cloud_SubnetworkURL (syn_cloud s))
            then bind_err (DeleteNetworkEndpointGroup (syn_cloud s) (syn_negName s) zone)
                   (\<lambda>d. bind (create_neg s zone)
                      (\<lambda>es. ret ((case d of Inl e \<Rightarrow> [e] | Inr _ \<Rightarrow> []) @ es)))
            else ret [])"

definition ensureNetworkEndpointGroups :: "'c syncer \<Rightarrow> ('c, unit) go" where
  "ensureNetworkEndpointGroups s =
     bind (lift_outcome (ListZones (syn_zoneGetter s)))
       (\<lambda>zones. bind (map_each (ensure_in_zone s) zones)
          (\<lambda>errList. lift_outcome (new_aggregate (concat errList))))"

section \<open>Batches\<close>

definition MAX_NETWORK_ENDPOINTS_PER_BATCH :: nat where
  "MAX_NETWORK_ENDPOINTS_PER_BATCH = 500"

text \<open>The element that \<open>PopAny\<close> takes: the first one that the iteration visits.\<close>

definition pick :: "(string set \<Rightarrow> string list) \<Rightarrow> string set \<Rightarrow> string" where
  "pick rng eps =
     (case rng eps of
        x # _ \<Rightarrow> if x \<in> eps then x else hd (set_List eps)
      | [] \<Rightarrow> hd (set_List eps))"

fun pop_many :: "(string set \<Rightarrow> string list) \<Rightarrow> nat \<Rightarrow> string set \<Rightarrow> string list \<times> string set" where
  "pop_many rng 0 eps = ([], eps)"
| "pop_many rng (Suc n) eps =
     (if card eps = 0 then (replicate (Suc n) [], eps)
      else let x = pick rng eps; (xs, eps') = pop_many rng n (eps - {x}) in (x # xs, eps'))"

definition decode_endpoint :: "string \<Rightarrow> NetworkEndpoint outcome" where
  "decode_endpoint enc =
     (case decodeEndpoint enc of
        Ok (ip, instance_name, port) \<Rightarrow>
          (case Atoi port of
             None \<Rightarrow> Err (Errorf (''Failed to decode endpoint '' @ enc) [])
           | Some portNum \<Rightarrow> Ok \<lparr>ne_Instance = instance_name, ne_IpAddress = ip, ne_Port = portNum\<rparr>)
      | Err e \<Rightarrow> Err e
      | Panics p \<Rightarrow> Panics p)"

fun decode_endpoints :: "string list \<Rightarrow> NetworkEndpoint list outcome" where
  "decode_endpoints [] = Ok []"
| "decode_endpoints (enc # encs) =
     (case decode_endpoint enc of
        Ok ne \<Rightarrow> map_outcome ((#) ne) (decode_endpoints encs)
      | Err e \<Rightarrow> Err e
      | Panics p \<Rightarrow> Panics p)"

text \<open>The batch, and the set without what was popped.\<close>

definition toNetworkEndpointBatch ::
  "(string set \<Rightarrow> string list) \<Rightarrow> string set \<Rightarrow> NetworkEndpoint list outcome \<times> string set" where
  "toNetworkEndpointBatch rng endpoints =
     (let (lst, endpoints') = pop_many rng (min (card endpoints) MAX_NETWORK_ENDPOINTS_PER_BATCH) endpoints
      in (decode_endpoints lst, endpoints'))"

lemma pick_in: "card eps \<noteq> 0 \<Longrightarrow> pick rng eps \<in> eps"
proof -
  assume "card eps \<noteq> 0"
  then have "finite eps" "eps \<noteq> {}" using card.infinite by fastforce+
  then have "hd (set_List eps) \<in> eps" by (metis hd_in_set set_List_empty_iff set_set_List)
  then show ?thesis by (auto simp: pick_def split: list.splits)
qed

lemma pop_many_snd: "snd (pop_many rng n eps) \<subseteq> eps"
  by (induction rng n eps rule: pop_many.induct) (auto simp: Let_def split: prod.splits)

lemma pop_many_card: "card eps \<noteq> 0 \<Longrightarrow> n \<noteq> 0 \<Longrightarrow> card (snd (pop_many rng n eps)) < card eps"
proof -
  assume eps: "card eps \<noteq> 0" and "n \<noteq> 0"
  then obtain k where n: "n = Suc k" by (cases n) auto
  have "finite eps" using eps card.infinite by fastforce
  have "snd (pop_many rng n eps) \<subseteq> eps - {pick rng eps}"
    using pop_many_snd [of rng k "eps - {pick rng eps}"] eps by (auto simp: n Let_def split: prod.splits)
  also have "\<dots> \<subset> eps" using pick_in [OF eps, of rng] by blast
  finally show ?thesis using \<open>finite eps\<close> by (rule psubset_card_mono [rotated])
qed

text \<open>
  The loop that empties one zone's set: the batches for which a goroutine is started, and how the
  loop ends. Every round takes at least one endpoint out of the set.
\<close>

function batch_loop ::
  "(string set \<Rightarrow> string list) \<Rightarrow> string set \<Rightarrow> NetworkEndpoint list list \<times> unit outcome" where
  "batch_loop rng eps =
     (if card eps = 0 then ([], Ok ())
      else case toNetworkEndpointBatch rng eps of
             (Ok nes, eps') \<Rightarrow> (let (bs, r) = batch_loop rng eps' in (nes # bs, r))
           | (Err e, eps') \<Rightarrow> ([], Err e)
           | (Panics p, eps') \<Rightarrow> ([], Panics p))"
  by pat_completeness auto
termination
proof (relation "measure (\<lambda>(rng, eps). card eps)", goal_cases)
  case (2 rng eps r eps' nes)
  then have "eps' = snd (pop_many rng (min (card eps) MAX_NETWORK_ENDPOINTS_PER_BATCH) eps)"
    by (simp add: toNetworkEndpointBatch_def split: prod.splits)
  with 2(1) show ?case
    using pop_many_card [of eps "min (card eps) MAX_NETWORK_ENDPOINTS_PER_BATCH" rng]
    by (simp add: MAX_NETWORK_ENDPOINTS_PER_BATCH_def)
qed simp

declare batch_loop.simps [simp del]

text \<open>The goroutines started for a zone map, and whether the translation went through.\<close>

fun start_ops ::
  "(string set \<Rightarrow> string list) \<Rightarrow> (string \<Rightarrow> NetworkEndpoint list \<Rightarrow> neg_op) \<Rightarrow> zone_map \<Rightarrow> string list \<Rightarrow>
   neg_op list \<times> unit outcome" where
  "start_ops rng mk m [] = ([], Ok ())"
| "start_ops rng mk m (zone # zones) =
     (case batch_loop rng (zone_set m zone) of
        (bs, Ok _) \<Rightarrow> (let (ops, r) = start_ops rng mk m zones in (map (mk zone) bs @ ops, r))
      | (bs, r) \<Rightarrow> (map (mk zone) bs, r))"

definition operationInternal :: "'c syncer \<Rightarrow> neg_op \<Rightarrow> ('c, unit) go" where
  "operationInternal s op =
     (case op of
        Attach zone nes \<Rightarrow> AttachNetworkEndpoints (syn_cloud s) (syn_negName s) zone nes
      | Detach zone nes \<Rightarrow> DetachNetworkEndpoints (syn_cloud s) (syn_negName s) zone nes)"

text \<open>
  First the detach calls, then the attach calls; a failed translation returns at once, but what was
  started still runs. The errors are collected as the calls finish.
\<close>

definition started_ops :: "'c syncer \<Rightarrow> zone_map \<Rightarrow> zone_map \<Rightarrow> neg_op list \<times> unit outcome" where
  "started_ops s addEndpoints removeEndpoints =
     (case start_ops (syn_rng s) Detach removeEndpoints (syn_rng s (keys removeEndpoints)) of
        (ds, Ok _) \<Rightarrow>
          (let (as, r) = start_ops (syn_rng s) Attach addEndpoints (syn_rng s (keys addEndpoints))
           in (ds @ as, r))
      | (ds, r) \<Rightarrow> (ds, r))"

definition syncNetworkEndpoints :: "'c syncer \<Rightarrow> zone_map \<Rightarrow> zone_map \<Rightarrow> ('c, unit) go" where
  "syncNetworkEndpoints s addEndpoints removeEndpoints =
     (let (ops, started) = started_ops s addEndpoints removeEndpoints
      in bind (collect_errs (operationInternal s) (syn_sched s ops))
           (\<lambda>errList. case started of
              Ok _ \<Rightarrow> lift_outcome (new_aggregate errList)
            | r \<Rightarrow> lift_outcome r))"

section \<open>One synchronisation\<close>

definition neg_sync :: "'c syncer \<Rightarrow> bool \<Rightarrow> bool \<Rightarrow> ('c, unit) go" where
  "neg_sync s stopped shuttingDown =
     (if stopped \<or> shuttingDown then ret ()
      else bind (lift_outcome (syn_endpointLister s (svp_namespace (syn_servicePort s)) (svp_name (syn_servicePort s))))
        (\<lambda>ep. case ep of
           None \<Rightarrow> ret ()
         | Some endpoints \<Rightarrow>
             bind (ensureNetworkEndpointGroups s)
               (\<lambda>_. bind (lift_outcome (toZoneNetworkEndpointMap s endpoints))
                  (\<lambda>targetMap. bind (retrieveExistingZoneNetworkEndpointMap s)
                     (\<lambda>currentMap.
                        let (addEndpoints, removeEndpoints) = calculateDifference targetMap currentMap
                        in if keys addEndpoints = {} \<and> keys removeEndpoints = {} then ret ()
                           else syncNetworkEndpoints s addEndpoints removeEndpoints)))))"

section \<open>The fake cloud\<close>

definition NotFoundError :: gerror where
  "NotFoundError = Errorf ''Not Found'' []"

definition fakeZoneGetter :: "(string set \<Rightarrow> string list) \<Rightarrow> zone_map \<Rightarrow> zoneGetter" where
  "fakeZoneGetter rng zoneInstanceMap =
     \<lparr>ListZones = Ok (rng (keys zoneInstanceMap)),
      GetZoneForNode = (\<lambda>name.
        case find (\<lambda>zone. name \<in> zone_set zoneInstanceMap zone) (rng (keys zoneInstanceMap)) of
          Some zone \<Rightarrow> Ok zone
        | None \<Rightarrow> Err NotFoundError)\<rparr>"

definition NewFakeZoneGetter :: "(string set \<Rightarrow> string list) \<Rightarrow> zoneGetter" where
  "NewFakeZoneGetter rng = fakeZoneGetter rng
     (fmap_of_list [(''zone1'', {''instance1'', ''instance2''}), (''zone2'', {''instance3'', ''instance4''})])"

record FakeNetworkEndpointGroupCloud =
  fng_NetworkEndpointGroups :: "(string, NetworkEndpointGroup list) gomap"
  fng_NetworkEndpoints :: "(string, NetworkEndpoint list) gomap"

definition NewFakeNetworkEndpointGroupCloud :: FakeNetworkEndpointGroupCloud where
  "NewFakeNetworkEndpointGroupCloud = \<lparr>fng_NetworkEndpointGroups = fmempty, fng_NetworkEndpoints = fmempty\<rparr>"

definition networkEndpointKey :: "string \<Rightarrow> string \<Rightarrow> string" where
  "networkEndpointKey name zone = zone @ ''-'' @ name"

definition zone_negs :: "FakeNetworkEndpointGroupCloud \<Rightarrow> string \<Rightarrow> NetworkEndpointGroup list" where
  "zone_negs f zone = (case fmlookup (fng_NetworkEndpointGroups f) zone of None \<Rightarrow> [] | Some negs \<Rightarrow> negs)"

definition key_endpoints :: "FakeNetworkEndpointGroupCloud \<Rightarrow> string \<Rightarrow> string \<Rightarrow> NetworkEndpoint list" where
  "key_endpoints f name zone =
     (case fmlookup (fng_NetworkEndpoints f) (networkEndpointKey name zone) of None \<Rightarrow> [] | Some nes \<Rightarrow> nes)"

definition fng_Get :: "string \<Rightarrow> string \<Rightarrow> (FakeNetworkEndpointGroupCloud, NetworkEndpointGroup) go" where
  "fng_Get name zone =
     bind (read_state (\<lambda>f. find (\<lambda>neg. neg_Name neg = name) (zone_negs f zone)))
       (\<lambda>r. case r of Some neg \<Rightarrow> ret neg | None \<Rightarrow> fail NotFoundError)"

definition fng_Create :: "NetworkEndpointGroup \<Rightarrow> string \<Rightarrow> (FakeNetworkEndpointGroupCloud, unit) go" where
  "fng_Create neg zone =
     modify_state (\<lambda>f.
       f\<lparr>fng_NetworkEndpointGroups := fmupd zone (zone_negs f zone @
             [neg\<lparr>neg_SelfLink := ''https://fake.google.com/compute/'' @ zone @ ''/NetworkEndpointGroup/'' @ neg_Name neg\<rparr>])
             (fng_NetworkEndpointGroups f),
         fng_NetworkEndpoints := fmupd (networkEndpointKey (neg_Name neg) zone) [] (fng_NetworkEndpoints f)\<rparr>)"

definition fng_Delete :: "string \<Rightarrow> string \<Rightarrow> (FakeNetworkEndpointGroupCloud, unit) go" where
  "fng_Delete name zone =
     bind (modify_state (\<lambda>f. f\<lparr>fng_NetworkEndpoints :=
             fmdrop (networkEndpointKey name zone) (fng_NetworkEndpoints f)\<rparr>))
       (\<lambda>_. bind (read_state (\<lambda>f. zone_negs f zone))
          (\<lambda>negs. if neg_Name ` set negs \<inter> {name} = {} then fail NotFoundError
                   else modify_state (\<lambda>f. f\<lparr>fng_NetworkEndpointGroups :=
                          fmupd zone (filter (\<lambda>neg. neg_Name neg \<noteq> name) negs) (fng_NetworkEndpointGroups f)\<rparr>)))"

definition fng_Attach ::
  "string \<Rightarrow> string \<Rightarrow> NetworkEndpoint list \<Rightarrow> (FakeNetworkEndpointGroupCloud, unit) go" where
  "fng_Attach name zone endpoints =
     modify_state (\<lambda>f. f\<lparr>fng_NetworkEndpoints :=
       fmupd (networkEndpointKey name zone) (key_endpoints f name zone @ endpoints) (fng_NetworkEndpoints f)\<rparr>)"

definition fng_Detach ::
  "string \<Rightarrow> string \<Rightarrow> NetworkEndpoint list \<Rightarrow> (FakeNetworkEndpointGroupCloud, unit) go" where
  "fng_Detach name zone endpoints =
     modify_state (\<lambda>f. f\<lparr>fng_NetworkEndpoints :=
       fmupd (networkEndpointKey name zone) (filter (\<lambda>ne. ne \<notin> set endpoints) (key_endpoints f name zone))
         (fng_NetworkEndpoints f)\<rparr>)"

definition fng_List :: "string \<Rightarrow> string \<Rightarrow> (FakeNetworkEndpointGroupCloud, NetworkEndpoint list) go" where
  "fng_List name zone =
     bind (read_state (\<lambda>f. fmlookup (fng_NetworkEndpoints f) (networkEndpointKey name zone)))
       (\<lambda>r. case r of None \<Rightarrow> fail NotFoundError | Some nes \<Rightarrow> ret nes)"

definition fakeNetworkEndpointGroupCloud ::
  "string \<Rightarrow> string \<Rightarrow> FakeNetworkEndpointGroupCloud networkEndpointGroupCloud" where
  "fakeNetworkEndpointGroupCloud subnetwork network =
     \<lparr>GetNetworkEndpointGroup = fng_Get,
      AggregatedListNetworkEndpointGroup = read_state fng_NetworkEndpointGroups,
      CreateNetworkEndpointGroup = fng_Create, DeleteNetworkEndpointGroup = fng_Delete,
      AttachNetworkEndpoints = fng_Attach, DetachNetworkEndpoints = fng_Detach,
      ListNetworkEndpoints = fng_List,
      cloud_NetworkURL = network, cloud_SubnetworkURL = subnetwork\<rparr>"

lemmas fng_defs = fakeNetworkEndpointGroupCloud_def fng_Get_def fng_Create_def fng_Delete_def
  fng_Attach_def fng_Detach_def fng_List_def

section \<open>The contract of the cloud\<close>

text \<open>
  \<open>groups\<close> and \<open>members\<close> are the groups and their endpoints by name and zone. A call on one
  group leaves all other groups alone, and at least the endpoints of the group of that name in other zones
  and of the other groups of that zone. An error of a change says nothing about the group that it was for.
\<close>

type_synonym 'v neg_view = "string \<Rightarrow> string \<Rightarrow> 'v"

definition elsewhere :: "string \<Rightarrow> string \<Rightarrow> 'v neg_view \<Rightarrow> 'v neg_view \<Rightarrow> bool" where
  "elsewhere name zone v v' \<longleftrightarrow>
     (\<forall>z. z \<noteq> zone \<longrightarrow> v' name z = v name z) \<and> (\<forall>n. n \<noteq> name \<longrightarrow> v' n zone = v n zone)"

definition only_at :: "string \<Rightarrow> string \<Rightarrow> 'v neg_view \<Rightarrow> 'v neg_view \<Rightarrow> bool" where
  "only_at name zone v v' \<longleftrightarrow> (\<forall>n z. (n, z) \<noteq> (name, zone) \<longrightarrow> v' n z = v n z)"

lemma only_at_elsewhere: "only_at name zone v v' \<Longrightarrow> elsewhere name zone v v'"
  by (simp add: only_at_def elsewhere_def)

lemma elsewhere_refl [simp]: "elsewhere name zone v v"
  by (simp add: elsewhere_def)

lemma elsewhere_trans: "elsewhere name zone u v \<Longrightarrow> elsewhere name zone v w \<Longrightarrow> elsewhere name zone u w"
  by (simp add: elsewhere_def)

locale neg_cloud =
  fixes cloud :: "'c networkEndpointGroupCloud"
    and groups :: "'c \<Rightarrow> NetworkEndpointGroup option neg_view"
    and members :: "'c \<Rightarrow> NetworkEndpoint set neg_view"
  assumes get_law: "wp (GetNetworkEndpointGroup cloud name zone)
        (\<lambda>r c'. groups c' = groups c \<and> members c' = members c \<and>
           (\<forall>neg. r = Ok neg \<longrightarrow> groups c name zone = Some neg)) c"
    and agg_law: "wp (AggregatedListNetworkEndpointGroup cloud)
        (\<lambda>r c'. groups c' = groups c \<and> members c' = members c \<and>
           (\<forall>m. r = Ok m \<longrightarrow> (\<forall>n z. groups c n z \<noteq> None \<longleftrightarrow>
              z \<in> keys m \<and> n \<in> neg_Name ` set (the (fmlookup m z))))) c"
    and list_law: "wp (ListNetworkEndpoints cloud name zone)
        (\<lambda>r c'. groups c' = groups c \<and> members c' = members c \<and>
           (\<forall>nes. r = Ok nes \<longrightarrow> set nes = members c name zone)) c"
    and create_law: "wp (CreateNetworkEndpointGroup cloud neg zone)
        (\<lambda>r c'. only_at (neg_Name neg) zone (groups c) (groups c') \<and>
           elsewhere (neg_Name neg) zone (members c) (members c') \<and>
           members c' (neg_Name neg) zone \<subseteq> members c (neg_Name neg) zone \<and>
           (r = Ok () \<longrightarrow> groups c' (neg_Name neg) zone \<noteq> None)) c"
    and delete_law: "wp (DeleteNetworkEndpointGroup cloud name zone)
        (\<lambda>r c'. only_at name zone (groups c) (groups c') \<and> elsewhere name zone (members c) (members c') \<and>
           members c' name zone \<subseteq> members c name zone \<and>
           (r = Ok () \<longrightarrow> groups c' name zone = None)) c"
    and attach_law: "wp (AttachNetworkEndpoints cloud name zone nes)
        (\<lambda>r c'. groups c' = groups c \<and> elsewhere name zone (members c) (members c') \<and>
           (r = Ok () \<longrightarrow> members c' name zone = members c name zone \<union> set nes)) c"
    and detach_law: "wp (DetachNetworkEndpoints cloud name zone nes)
        (\<lambda>r c'. groups c' = groups c \<and> elsewhere name zone (members c) (members c') \<and>
           (r = Ok () \<longrightarrow> members c' name zone = members c name zone - set nes)) c"

definition fng_groups :: "FakeNetworkEndpointGroupCloud \<Rightarrow> NetworkEndpointGroup option neg_view" where
  "fng_groups f name zone = find (\<lambda>neg. neg_Name neg = name) (zone_negs f zone)"

definition fng_members :: "FakeNetworkEndpointGroupCloud \<Rightarrow> NetworkEndpoint set neg_view" where
  "fng_members f name zone = set (key_endpoints f name zone)"

lemma networkEndpointKey_eq [simp]:
  "networkEndpointKey n z = networkEndpointKey n z' \<longleftrightarrow> z = z'"
  "networkEndpointKey n z = networkEndpointKey n' z \<longleftrightarrow> n = n'"
  by (auto simp: networkEndpointKey_def)

lemma find_filter_neq: "n \<noteq> name \<Longrightarrow>
    find (\<lambda>neg. neg_Name neg = n) (filter (\<lambda>neg. neg_Name neg \<noteq> name) negs) =
    find (\<lambda>neg. neg_Name neg = n) negs"
  by (induction negs) auto

lemma find_filter_same: "find (\<lambda>neg. neg_Name neg = name) (filter (\<lambda>neg. neg_Name neg \<noteq> name) negs) = None"
  by (induction negs) auto

lemma fng_groups_None: "fng_groups f n z \<noteq> None \<longleftrightarrow>
    z \<in> keys (fng_NetworkEndpointGroups f) \<and> n \<in> neg_Name ` set (the (fmlookup (fng_NetworkEndpointGroups f) z))"
  by (cases "fmlookup (fng_NetworkEndpointGroups f) z")
    (auto simp: fng_groups_def zone_negs_def in_keys_iff find_None_iff simp del: not_None_eq)

lemma fng_groups_endpoints [simp]: "fng_groups (f\<lparr>fng_NetworkEndpoints := m\<rparr>) = fng_groups f"
  by (simp add: fun_eq_iff fng_groups_def zone_negs_def)

lemmas fng_views = only_at_def fng_groups_def fng_members_def elsewhere_def zone_negs_def key_endpoints_def

interpretation fake_neg: neg_cloud "fakeNetworkEndpointGroupCloud subnetwork network" fng_groups fng_members
  for subnetwork network
proof (unfold_locales, goal_cases)
  case (1 name zone c)
  then show ?case by (auto simp: fng_defs wp_simps fng_groups_def split: option.splits)
next
  case (2 c)
  then show ?case unfolding fng_groups_None by (simp add: fng_defs wp_simps)
next
  case (3 name zone c)
  then show ?case by (auto simp: fng_defs wp_simps fng_members_def key_endpoints_def split: option.splits)
next
  case (4 neg zone c)
  then show ?case by (auto simp: fng_defs wp_simps fng_views find_snoc split: option.splits)
next
  case (5 name zone c)
  then show ?case
    by (auto simp: fng_defs wp_simps fng_views find_filter_neq find_filter_same split: option.splits)
qed (auto simp: fng_defs wp_simps fng_members_def elsewhere_def key_endpoints_def split: option.splits)

section \<open>Encoding and decoding\<close>

text \<open>Addresses and instance names without the separator's character, and a port that fits.\<close>

definition plain :: "NetworkEndpoint \<Rightarrow> bool" where
  "plain ne \<longleftrightarrow> CHR ''|'' \<notin> set (ne_IpAddress ne) \<and> CHR ''|'' \<notin> set (ne_Instance ne) \<and>
     - (2 ^ 63) \<le> ne_Port ne \<and> ne_Port ne < 2 ^ 63"

lemma no_bar_Itoa: "CHR ''|'' \<notin> set (Itoa p)"
  by (auto simp: Itoa_def is_digit_def dest!: bspec [OF dec_nat_digits [unfolded list_all_iff]])

lemma Split_bars: "CHR ''|'' \<notin> set a \<Longrightarrow> Split (a @ ''||'' @ b) ''||'' = a # Split b ''||''"
  by (rule Split_double) (auto simp: Contains_iff dest: last_in_set)

lemma decodeEndpoint_encodeEndpoint:
  assumes "CHR ''|'' \<notin> set ip" "CHR ''|'' \<notin> set inst" "CHR ''|'' \<notin> set port"
  shows "decodeEndpoint (encodeEndpoint ip inst port) = Ok (ip, inst, port)"
proof -
  have "Split port ''||'' = [port]" using assms(3) by (intro Split_no_sep) (auto simp: Contains_iff)
  then show ?thesis
    using Split_bars [OF assms(1), of "inst @ ''||'' @ port"] Split_bars [OF assms(2), of port]
    by (simp add: decodeEndpoint_def encodeEndpoint_def)
qed

lemma decode_encoded: "plain ne \<Longrightarrow> decode_endpoint (encoded ne) = Ok ne"
  by (simp add: plain_def decode_endpoint_def encoded_def decodeEndpoint_encodeEndpoint no_bar_Itoa Atoi_Itoa)

lemma encoded_inject: "plain ne \<Longrightarrow> plain ne' \<Longrightarrow> encoded ne = encoded ne' \<Longrightarrow> ne = ne'"
  by (metis decode_encoded outcome.inject(1))

lemma inj_on_encoded: "inj_on encoded {ne. plain ne}"
  by (auto intro: inj_onI encoded_inject)

lemma decode_endpoints_encoded:
  "list_all (\<lambda>enc. \<exists>ne. plain ne \<and> enc = encoded ne) encs \<Longrightarrow>
   \<exists>nes. decode_endpoints encs = Ok nes \<and> map encoded nes = encs \<and> list_all plain nes"
  by (induction encs) (auto simp: decode_encoded)

section \<open>Draining a set in batches\<close>

lemma pop_many_spec:
  assumes "finite eps" "n \<le> card eps" "pop_many rng n eps = (xs, eps')"
  shows "set xs \<subseteq> eps \<and> eps' = eps - set xs \<and> length xs = n \<and> distinct xs"
  using assms
proof (induction n arbitrary: eps xs)
  case (Suc n)
  let ?x = "pick rng eps"
  obtain ys where ys: "pop_many rng n (eps - {?x}) = (ys, eps')" "xs = ?x # ys"
    using Suc.prems by (auto simp: Let_def split: prod.splits if_splits)
  have x: "?x \<in> eps" using Suc.prems(2) by (intro pick_in) simp
  have "set ys \<subseteq> eps - {?x} \<and> eps' = eps - {?x} - set ys \<and> length ys = n \<and> distinct ys"
    by (rule Suc.IH) (use Suc.prems x ys(1) in \<open>auto simp: card_Diff_singleton\<close>)
  with x ys(2) show ?case by auto
qed simp

lemma toNetworkEndpointBatch_encoded:
  assumes "finite eps" "eps \<subseteq> encoded ` {ne. plain ne}" "toNetworkEndpointBatch rng eps = (r, eps')"
  obtains nes where "r = Ok nes" "encoded ` set nes \<subseteq> eps" "eps' = eps - encoded ` set nes"
    "length nes = min (card eps) 500" "distinct nes" "list_all plain nes"
proof -
  let ?n = "min (card eps) MAX_NETWORK_ENDPOINTS_PER_BATCH"
  obtain encs where pop: "pop_many rng ?n eps = (encs, eps')" "r = decode_endpoints encs"
    using assms(3) by (auto simp: toNetworkEndpointBatch_def split: prod.splits)
  have encs: "set encs \<subseteq> eps" "eps' = eps - set encs" "length encs = ?n" "distinct encs"
    using pop_many_spec [OF assms(1) _ pop(1)] by auto
  have "list_all (\<lambda>enc. \<exists>ne. plain ne \<and> enc = encoded ne) encs"
    using encs(1) assms(2) by (auto simp: list_all_iff)
  then obtain nes where nes: "decode_endpoints encs = Ok nes" "map encoded nes = encs" "list_all plain nes"
    using decode_endpoints_encoded by blast
  show thesis
  proof
    show "r = Ok nes" using pop nes by simp
    show "encoded ` set nes \<subseteq> eps" "eps' = eps - encoded ` set nes"
      using encs nes(2) by (auto simp flip: set_map)
    show "length nes = min (card eps) 500"
      using encs(3) arg_cong [OF nes(2), of length] by (simp add: MAX_NETWORK_ENDPOINTS_PER_BATCH_def)
    show "distinct nes" using encs(4) unfolding nes(2) [symmetric] by (simp add: distinct_map)
    show "list_all plain nes" by (rule nes(3))
  qed
qed

lemma batch_loop_empty [simp]: "batch_loop rng {} = ([], Ok ())"
  by (simp add: batch_loop.simps [of rng "{}"])

lemma batch_loop_encoded:
  assumes "finite eps" "eps \<subseteq> encoded ` {ne. plain ne}"
  shows "\<exists>bs. batch_loop rng eps = (bs, Ok ()) \<and> encoded ` set (concat bs) = eps \<and>
     list_all plain (concat bs) \<and> distinct (concat bs) \<and> list_all (\<lambda>b. b \<noteq> [] \<and> length b \<le> 500) bs \<and>
     length bs = (card eps + 499) div 500"
  using assms
proof (induction "card eps" arbitrary: eps rule: less_induct)
  case less
  show ?case
  proof (cases "card eps = 0")
    case True
    with less.prems show ?thesis by (simp add: batch_loop.simps [of rng eps])
  next
    case False
    obtain r eps' where run: "toNetworkEndpointBatch rng eps = (r, eps')" by fastforce
    obtain nes where nes: "r = Ok nes" "encoded ` set nes \<subseteq> eps" "eps' = eps - encoded ` set nes"
      "length nes = min (card eps) 500" "distinct nes" "list_all plain nes"
      using toNetworkEndpointBatch_encoded [OF less.prems run] .
    have inj: "inj_on encoded (set nes)"
      by (rule inj_on_subset [OF inj_on_encoded]) (use nes(6) in \<open>auto simp: list_all_iff\<close>)
    have card': "card eps' = card eps - min (card eps) 500"
      using nes(2-5) by (simp add: card_Diff_subset card_image [OF inj] distinct_card)
    have smaller: "card eps' < card eps" using card' False by simp
    have fin': "finite eps'" and sub': "eps' \<subseteq> encoded ` {ne. plain ne}"
      using less.prems nes(3) by auto
    obtain bs where bs: "batch_loop rng eps' = (bs, Ok ())" "encoded ` set (concat bs) = eps'"
      "list_all plain (concat bs)" "distinct (concat bs)" "list_all (\<lambda>b. b \<noteq> [] \<and> length b \<le> 500) bs"
      "length bs = (card eps' + 499) div 500"
      using less.hyps [OF smaller fin' sub'] by blast
    have "batch_loop rng eps = (nes # bs, Ok ())"
      using False by (simp add: batch_loop.simps [of rng eps] run nes(1) bs(1))
    moreover have "encoded ` set (concat (nes # bs)) = eps"
      using nes(2,3) bs(2) by (auto simp: image_Un)
    moreover have "set nes \<inter> set (concat bs) = {}"
      using bs(2) nes(3) by blast
    then have "distinct (concat (nes # bs))" using nes(5) bs(4) by simp
    moreover have "length (nes # bs) = (card eps + 499) div 500"
      using bs(6) card' False by (cases "card eps \<le> 500") auto
    ultimately show ?thesis using nes(4,6) bs(3,5) False by (intro exI [of _ "nes # bs"]) auto
  qed
qed

section \<open>The calls of one synchronisation\<close>

lemma zone_set_fmempty [simp]: "zone_set fmempty z = {}"
  by (simp add: zone_set_def)

lemma zone_set_fmupd [simp]: "zone_set (fmupd z eps m) z' = (if z = z' then eps else zone_set m z')"
  by (simp add: zone_set_def)

lemma zone_set_diff_map [simp]: "zone_set (diff_map a b) z = zone_set a z - zone_set b z"
  by (auto simp: diff_map_def zone_set_def split: option.splits if_splits)

lemma keys_diff_map [simp]: "keys (diff_map a b) = {z. zone_set a z - zone_set b z \<noteq> {}}"
  by (auto simp: diff_map_def zone_set_def in_keys_iff split: option.splits)

text \<open>What the calls on one zone attach, and what they detach.\<close>

definition attached :: "neg_op list \<Rightarrow> string \<Rightarrow> NetworkEndpoint set" where
  "attached ops z = {ne. \<exists>nes. Attach z nes \<in> set ops \<and> ne \<in> set nes}"

definition detached :: "neg_op list \<Rightarrow> string \<Rightarrow> NetworkEndpoint set" where
  "detached ops z = {ne. \<exists>nes. Detach z nes \<in> set ops \<and> ne \<in> set nes}"

definition batch_ok :: "neg_op \<Rightarrow> bool" where
  "batch_ok op = (case op of
      Attach z nes \<Rightarrow> nes \<noteq> [] \<and> length nes \<le> MAX_NETWORK_ENDPOINTS_PER_BATCH \<and> list_all plain nes
    | Detach z nes \<Rightarrow> nes \<noteq> [] \<and> length nes \<le> MAX_NETWORK_ENDPOINTS_PER_BATCH \<and> list_all plain nes)"

lemma start_ops_encoded:
  assumes mk: "mk = Attach \<or> mk = Detach"
    and sets: "\<And>z. z \<in> set zs \<Longrightarrow> finite (zone_set m z) \<and> zone_set m z \<subseteq> encoded ` {ne. plain ne}"
  shows "\<exists>ops. start_ops rng mk m zs = (ops, Ok ()) \<and> list_all batch_ok ops \<and>
     (\<forall>op \<in> set ops. \<exists>z nes. op = mk z nes) \<and>
     (\<forall>z. encoded ` {ne. \<exists>nes. mk z nes \<in> set ops \<and> ne \<in> set nes} = (if z \<in> set zs then zone_set m z else {}))"
  using sets
proof (induction zs)
  case (Cons z zs)
  have inj: "mk a b = mk c d \<longleftrightarrow> a = c \<and> b = d" for a b c d using mk by auto
  obtain ops where ops: "start_ops rng mk m zs = (ops, Ok ())" "list_all batch_ok ops"
    "\<forall>op \<in> set ops. \<exists>z nes. op = mk z nes"
    "\<And>z. encoded ` {ne. \<exists>nes. mk z nes \<in> set ops \<and> ne \<in> set nes} = (if z \<in> set zs then zone_set m z else {})"
    using Cons by auto
  obtain bs where bs: "batch_loop rng (zone_set m z) = (bs, Ok ())" "encoded ` set (concat bs) = zone_set m z"
    "list_all plain (concat bs)" "list_all (\<lambda>b. b \<noteq> [] \<and> length b \<le> 500) bs"
    using batch_loop_encoded [of "zone_set m z" rng] Cons.prems by auto
  have ok: "list_all batch_ok (map (mk z) bs @ ops)"
    using mk bs(3,4) ops(2) by (auto simp: list_all_iff batch_ok_def MAX_NETWORK_ENDPOINTS_PER_BATCH_def)
  have "{ne. \<exists>nes. mk z' nes \<in> set (map (mk z) bs @ ops) \<and> ne \<in> set nes} =
      (if z' = z then set (concat bs) else {}) \<union> {ne. \<exists>nes. mk z' nes \<in> set ops \<and> ne \<in> set nes}" for z'
    by (auto simp: inj)
  then have "encoded ` {ne. \<exists>nes. mk z' nes \<in> set (map (mk z) bs @ ops) \<and> ne \<in> set nes} =
      (if z' \<in> set (z # zs) then zone_set m z' else {})" for z'
    using ops(4) [of z'] bs(2) by (auto simp: image_Un)
  with ok ops(1,3) bs(1) show ?case by (intro exI [of _ "map (mk z) bs @ ops"]) auto
qed simp

lemma started_ops_encoded:
  assumes rng: "string_range (syn_rng s)"
    and add: "\<And>z. finite (zone_set add z) \<and> zone_set add z \<subseteq> encoded ` {ne. plain ne}"
    and rem: "\<And>z. finite (zone_set rem z) \<and> zone_set rem z \<subseteq> encoded ` {ne. plain ne}"
  shows "\<exists>ops. started_ops s add rem = (ops, Ok ()) \<and> list_all batch_ok ops \<and>
     (\<forall>z. encoded ` attached ops z = zone_set add z \<and> encoded ` detached ops z = zone_set rem z)"
proof -
  let ?rng = "syn_rng s"
  have keys: "set (?rng (keys m)) = keys m" for m :: zone_map
    by (rule map_range.set_rng_keys) (use rng in \<open>simp add: string_range_def\<close>)
  have none: "z \<notin> keys m \<Longrightarrow> zone_set m z = {}" for z and m :: zone_map
    by (simp add: zone_set_def fmdom_notD split: option.splits)
  obtain ds where ds: "start_ops ?rng Detach rem (?rng (keys rem)) = (ds, Ok ())" "list_all batch_ok ds"
    "\<forall>op \<in> set ds. \<exists>z nes. op = Detach z nes"
    "\<And>z. encoded ` {ne. \<exists>nes. Detach z nes \<in> set ds \<and> ne \<in> set nes} = zone_set rem z"
    using start_ops_encoded [of Detach "?rng (keys rem)" rem ?rng] rem none [of _ rem] unfolding keys by auto
  obtain as where as: "start_ops ?rng Attach add (?rng (keys add)) = (as, Ok ())" "list_all batch_ok as"
    "\<forall>op \<in> set as. \<exists>z nes. op = Attach z nes"
    "\<And>z. encoded ` {ne. \<exists>nes. Attach z nes \<in> set as \<and> ne \<in> set nes} = zone_set add z"
    using start_ops_encoded [of Attach "?rng (keys add)" add ?rng] add none [of _ add] unfolding keys by auto
  have "attached (ds @ as) z = {ne. \<exists>nes. Attach z nes \<in> set as \<and> ne \<in> set nes}"
    "detached (ds @ as) z = {ne. \<exists>nes. Detach z nes \<in> set ds \<and> ne \<in> set nes}" for z
    using ds(3) as(3) by (fastforce simp: attached_def detached_def)+
  with ds as show ?thesis by (intro exI [of _ "ds @ as"]) (simp add: started_ops_def)
qed

section \<open>The endpoints of a service\<close>

text \<open>
  Endpoints as the API server admits them: addresses and node names without the separator, ports of
  32 bits; a numeric target port is written in canonical form.
\<close>

definition plain_endpoints :: "string \<Rightarrow> Endpoints \<Rightarrow> bool" where
  "plain_endpoints tp endpoints \<longleftrightarrow> (Atoi_value tp \<noteq> 0 \<longrightarrow> tp = Itoa (Atoi_value tp)) \<and>
     (\<forall>sub \<in> set (ep_Subsets endpoints).
        (\<forall>a \<in> set (es_Addresses sub). CHR ''|'' \<notin> set (ea_IP a) \<and>
           (case ea_NodeName a of None \<Rightarrow> True | Some node \<Rightarrow> CHR ''|'' \<notin> set node)) \<and>
        (\<forall>p \<in> set (es_Ports sub). - (2 ^ 31) \<le> epp_Port p \<and> epp_Port p < 2 ^ 31))"

definition encodable :: "zone_map \<Rightarrow> bool" where
  "encodable m \<longleftrightarrow> (\<forall>z. finite (zone_set m z) \<and> zone_set m z \<subseteq> encoded ` {ne. plain ne})"

lemma match_port_Itoa:
  "Atoi_value tp \<noteq> 0 \<longrightarrow> tp = Itoa (Atoi_value tp) \<Longrightarrow> match_port tp ps \<noteq> [] \<Longrightarrow>
   \<exists>p \<in> set ps. match_port tp ps = Itoa (epp_Port p)"
proof (induction ps)
  case (Cons p ps)
  then show ?case
    by (cases "Atoi_value tp \<noteq> 0"; cases "epp_Port p = Atoi_value tp"; cases "epp_Name p = tp")
      (auto simp: Let_def split: if_splits)
qed simp

lemma encodable_add_addresses:
  assumes "add_addresses zg (Itoa n) as m = Ok m'" "encodable m" "- (2 ^ 31) \<le> n" "n < 2 ^ 31"
    and "\<forall>a \<in> set as. CHR ''|'' \<notin> set (ea_IP a) \<and>
           (case ea_NodeName a of None \<Rightarrow> True | Some node \<Rightarrow> CHR ''|'' \<notin> set node)"
  shows "encodable m'"
  using assms
proof (induction as arbitrary: m)
  case (Cons a as)
  from Cons.prems(1) obtain node zone where node: "ea_NodeName a = Some node" "GetZoneForNode zg node = Ok zone"
    by (auto split: option.splits outcome.splits)
  let ?ne = "\<lparr>ne_Instance = node, ne_IpAddress = ea_IP a, ne_Port = n\<rparr>"
  have "encodeEndpoint (ea_IP a) node (Itoa n) \<in> encoded ` {ne. plain ne}"
    by (rule image_eqI [of _ _ ?ne]) (use Cons.prems node in \<open>auto simp: encoded_def plain_def\<close>)
  then have "encodable (fmupd zone (insert (encodeEndpoint (ea_IP a) node (Itoa n)) (zone_set m zone)) m)"
    using Cons.prems(2) by (auto simp: encodable_def)
  with Cons node show ?case by simp
qed simp

lemma encodable_add_subsets:
  assumes "add_subsets zg tp subs m = Ok m'" "encodable m"
    and "plain_endpoints tp \<lparr>ep_Name = en, ep_Namespace = ens, ep_Subsets = subs\<rparr>"
  shows "encodable m'"
  using assms
proof (induction subs arbitrary: m)
  case (Cons sub subs)
  have subs: "plain_endpoints tp \<lparr>ep_Name = en, ep_Namespace = ens, ep_Subsets = subs\<rparr>"
    using Cons.prems(3) by (simp add: plain_endpoints_def)
  show ?case
  proof (cases "match_port tp (es_Ports sub) = []")
    case True
    with Cons.IH [OF _ Cons.prems(2) subs] Cons.prems(1) show ?thesis by simp
  next
    case False
    then obtain p where p: "p \<in> set (es_Ports sub)" "match_port tp (es_Ports sub) = Itoa (epp_Port p)"
      using match_port_Itoa [of tp "es_Ports sub"] Cons.prems(3) by (auto simp: plain_endpoints_def)
    obtain m1 where m1: "add_addresses zg (Itoa (epp_Port p)) (es_Addresses sub) m = Ok m1"
      "add_subsets zg tp subs m1 = Ok m'"
      using Cons.prems(1) False p(2) by (auto simp: Let_def split: outcome.splits)
    have "encodable m1"
      by (rule encodable_add_addresses [OF m1(1) Cons.prems(2)])
        (use Cons.prems(3) p(1) in \<open>auto simp: plain_endpoints_def\<close>)
    then show ?thesis using Cons.IH [OF m1(2) _ subs] by simp
  qed
qed simp

lemma encodable_target:
  assumes "toZoneNetworkEndpointMap s endpoints = Ok m" "plain_endpoints (syn_targetPort s) endpoints"
  shows "encodable m"
  by (rule encodable_add_subsets [of "syn_zoneGetter s" "syn_targetPort s" "ep_Subsets endpoints" fmempty m
        "ep_Name endpoints" "ep_Namespace endpoints"])
    (use assms in \<open>auto simp: toZoneNetworkEndpointMap_def encodable_def plain_endpoints_def\<close>)

lemma zone_set_existing_map:
  "list_all2 (\<lambda>z nes. set nes = M z) zones nss \<Longrightarrow>
   zone_set (existing_map (zip zones nss) m) z = (if z \<in> set zones then encoded ` M z else zone_set m z)"
  by (induction arbitrary: m rule: list_all2_induct) auto

section \<open>Reaching the target\<close>

locale syncer_over = neg_cloud "syn_cloud s" groups members
  for s :: "'c syncer" and groups :: "'c \<Rightarrow> NetworkEndpointGroup option neg_view"
    and members :: "'c \<Rightarrow> NetworkEndpoint set neg_view"
begin

abbreviation own_groups :: "'c \<Rightarrow> string \<Rightarrow> NetworkEndpointGroup option" where
  "own_groups c \<equiv> groups c (syn_negName s)"

abbreviation own_members :: "'c \<Rightarrow> string \<Rightarrow> NetworkEndpoint set" where
  "own_members c \<equiv> members c (syn_negName s)"

text \<open>
  Whatever order the calls of a synchronisation run in: when all succeed, each zone has lost what was
  to be detached and gained what was to be attached.
\<close>

lemma wp_ops:
  assumes "\<And>z. attached ops z \<inter> detached ops z = {}"
  shows "wp (collect_errs (operationInternal s) ops)
     (\<lambda>r c'. case r of
        Ok es \<Rightarrow> es = [] \<longrightarrow> groups c' = groups c \<and>
          (\<forall>z. own_members c' z = (own_members c z - detached ops z) \<union> attached ops z)
      | Err _ \<Rightarrow> False | Panics _ \<Rightarrow> True) c"
proof (rule wp_collect_errs [where I = "\<lambda>dn c'. groups c' = groups c \<and>
      (\<forall>z. own_members c' z = (own_members c z - detached dn z) \<union> attached dn z)"], goal_cases)
  case 1
  then show ?case by (simp add: attached_def detached_def)
next
  case (2 dn op rest c1)
  show ?case
  proof (cases op)
    case (Attach zone nes)
    have "attached (dn @ [op]) z = attached dn z \<union> (if z = zone then set nes else {})"
      "detached (dn @ [op]) z = detached dn z" for z
      by (auto simp: attached_def detached_def Attach)
    with 2 show ?thesis
      unfolding Attach operationInternal_def neg_op.case
      by (intro wp_mono [OF attach_law]) (auto simp: elsewhere_def split: outcome.splits)
  next
    case (Detach zone nes)
    have sets: "attached (dn @ [op]) z = attached dn z"
      "detached (dn @ [op]) z = detached dn z \<union> (if z = zone then set nes else {})" for z
      by (auto simp: attached_def detached_def Detach)
    have "attached dn zone \<inter> set nes = {}"
      using assms [of zone] 2(1) by (auto simp: attached_def detached_def Detach)
    with 2 sets show ?thesis
      unfolding Detach operationInternal_def neg_op.case
      by (intro wp_mono [OF detach_law]) (auto simp: elsewhere_def split: outcome.splits)
  qed
qed

lemma wp_create_neg:
  "wp (create_neg s zone)
     (\<lambda>r c'. elsewhere (syn_negName s) zone (groups c) (groups c') \<and> (\<forall>z. own_members c' z \<subseteq> own_members c z) \<and>
        (\<forall>e. r \<noteq> Err e) \<and> (r = Ok [] \<longrightarrow> own_groups c' zone \<noteq> None)) c"
  unfolding create_neg_def wp_simps
proof (rule wp_mono [OF create_law], goal_cases)
  case (1 r c')
  then show ?case by (cases r) (auto simp: wp_simps elsewhere_def only_at_def)
qed

lemma wp_ensure_in_zone:
  "wp (ensure_in_zone s zone)
     (\<lambda>r c'. elsewhere (syn_negName s) zone (groups c) (groups c') \<and> (\<forall>z. own_members c' z \<subseteq> own_members c z) \<and>
        (\<forall>e. r \<noteq> Err e) \<and> (r = Ok [] \<longrightarrow> own_groups c' zone \<noteq> None)) c"
  (is "wp _ ?Q c")
proof -
  have create: "wp (create_neg s zone) ?Q c1" if "groups c1 = groups c" "members c1 = members c" for c1
    by (rule wp_mono [OF wp_create_neg]) (use that in auto)
  have recreate: "wp (bind_err (DeleteNetworkEndpointGroup (syn_cloud s) (syn_negName s) zone)
      (\<lambda>d. bind (create_neg s zone) (\<lambda>es. ret ((case d of Inl e \<Rightarrow> [e] | Inr _ \<Rightarrow> []) @ es)))) ?Q c1"
    if c1: "groups c1 = groups c" "members c1 = members c" for c1
    unfolding wp_bind_err
  proof (rule wp_mono [OF delete_law], goal_cases)
    case (1 r c2)
    then have grp: "elsewhere (syn_negName s) zone (groups c) (groups c2)" using c1 only_at_elsewhere by auto
    have mem: "own_members c2 z \<subseteq> own_members c z" for z
      using 1 c1 by (cases "z = zone") (auto simp: elsewhere_def)
    have inner: "wp (create_neg s zone) (on_ok (\<lambda>es. wp (ret (ds @ es)) ?Q) ?Q) c2" for ds
    proof (rule wp_mono [OF wp_create_neg], goal_cases)
      case (1 r c3)
      then have "elsewhere (syn_negName s) zone (groups c) (groups c3)" using grp by (blast intro: elsewhere_trans)
      moreover have "own_members c3 z \<subseteq> own_members c z" for z using 1 mem [of z] by (blast intro: subset_trans)
      ultimately show ?case using 1 by (cases r) (simp_all add: wp_ret)
    qed
    show ?case
    proof (cases r)
      case (Ok u)
      with inner [of "[]"] show ?thesis by (simp add: wp_bind)
    next
      case (Err e)
      with inner [of "[e]"] show ?thesis by (simp add: wp_bind)
    qed (use grp mem in simp)
  qed
  show ?thesis
    unfolding ensure_in_zone_def wp_bind_err
  proof (rule wp_mono [OF get_law], goal_cases)
    case (1 r c1)
    show ?case
    proof (cases r)
      case (Ok neg)
      with 1 recreate [of c1] show ?thesis by (simp add: wp_ret elsewhere_def)
    next
      case (Err e)
      with 1 create [of c1] show ?thesis by simp
    qed (use 1 in \<open>simp add: elsewhere_def\<close>)
  qed
qed

lemma wp_ensure:
  assumes zones: "ListZones (syn_zoneGetter s) = Ok zones"
  shows "wp (ensureNetworkEndpointGroups s)
     (\<lambda>r c'. (\<forall>z. own_members c' z \<subseteq> own_members c z) \<and>
        (r = Ok () \<longrightarrow> (\<forall>z \<in> set zones. own_groups c' z \<noteq> None))) c"
  unfolding ensureNetworkEndpointGroups_def zones wp_bind wp_lift_outcome on_ok_eta
proof (rule wp_map_each [where I = "\<lambda>dn ess c'. (\<forall>z. own_members c' z \<subseteq> own_members c z) \<and>
      (concat ess = [] \<longrightarrow> (\<forall>z \<in> set dn. own_groups c' z \<noteq> None))"], goal_cases)
  case (2 dn ess x rest c1)
  show ?case
  proof (rule wp_mono [OF wp_ensure_in_zone], goal_cases)
    case (1 r c2)
    then have "own_groups c2 z = own_groups c1 z" if "z \<noteq> x" for z using that by (simp add: elsewhere_def)
    moreover have "own_members c2 z \<subseteq> own_members c z" for z using 1 2(2) by (blast intro: subset_trans)
    moreover have "own_groups c2 z \<noteq> None"
      if "r = Ok []" "\<forall>z \<in> set dn. own_groups c1 z \<noteq> None" "z = x \<or> z \<in> set dn" for z
      using that 1 calculation(1) [of z] by (cases "z = x") auto
    ultimately show ?case using 1 2(2) by (cases r) simp_all
  qed
next
  case (3 ess c1)
  then show ?case by simp
qed simp

lemma wp_retrieve:
  assumes zones: "ListZones (syn_zoneGetter s) = Ok zones"
  shows "wp (retrieveExistingZoneNetworkEndpointMap s)
     (\<lambda>r c'. groups c' = groups c \<and> members c' = members c \<and>
        (\<forall>m. r = Ok m \<longrightarrow> (\<forall>z. finite (zone_set m z) \<and>
           zone_set m z = (if z \<in> set zones then encoded ` own_members c z else {})))) c"
  unfolding retrieveExistingZoneNetworkEndpointMap_def zones wp_bind wp_lift_outcome on_ok_eta
proof (rule wp_map_each [where I = "\<lambda>dn nss c'. groups c' = groups c \<and> members c' = members c \<and>
      list_all2 (\<lambda>z nes. set nes = own_members c z) dn nss"], goal_cases)
  case (2 dn nss x rest c1)
  show ?case
  proof (rule wp_mono [OF list_law], goal_cases)
    case (1 r c2)
    moreover have "list_all2 (\<lambda>z nes. set nes = own_members c z) (dn @ [x]) (nss @ [nes])"
      if "set nes = own_members c x" for nes
      using 2(2) that by (intro list_all2_appendI) simp_all
    ultimately show ?case using 2(2) by (cases r) simp_all
  qed
next
  case (3 nss c1)
  have fin: "finite (own_members c z)" if z: "z \<in> set zones" for z
  proof -
    from z obtain i where i: "i < length zones" "z = zones ! i" by (auto simp: in_set_conv_nth)
    with 3 have "set (nss ! i) = own_members c z" by (simp add: list_all2_conv_all_nth)
    then show ?thesis by (metis List.finite_set)
  qed
  have "zone_set (existing_map (zip zones nss) fmempty) z =
      (if z \<in> set zones then encoded ` own_members c z else {})" for z
    using 3 zone_set_existing_map [of "own_members c" zones nss fmempty] by simp
  with 3 fin show ?case unfolding wp_ret by simp
qed simp

text \<open>
  The heart of a synchronisation: the difference between the target and what the cloud has,
  translated, split into batches and run in any order, turns the one into the other.
\<close>

lemma wp_syncNetworkEndpoints:
  assumes rng: "string_range (syn_rng s)" and sched: "\<And>ops. mset (syn_sched s ops) = mset ops"
    and target: "encodable T" and current: "encodable C"
    and zones: "\<And>z. z \<in> Z \<Longrightarrow> zone_set C z = encoded ` own_members c z"
    and plain: "\<And>z ne. ne \<in> own_members c z \<Longrightarrow> plain ne"
  shows "wp (syncNetworkEndpoints s (diff_map T C) (diff_map C T))
     (\<lambda>r c'. r = Ok () \<longrightarrow> groups c' = groups c \<and> (\<forall>z \<in> Z. encoded ` own_members c' z = zone_set T z)) c"
proof -
  have "finite (zone_set (diff_map A B) z) \<and> zone_set (diff_map A B) z \<subseteq> encoded ` {ne. plain ne}"
    if "encodable A" for A B z
    using that unfolding encodable_def zone_set_diff_map by blast
  note diffs = this [OF target] this [OF current]
  obtain ops where ops: "started_ops s (diff_map T C) (diff_map C T) = (ops, Ok ())" "list_all batch_ok ops"
    "\<And>z. encoded ` attached ops z = zone_set T z - zone_set C z"
    "\<And>z. encoded ` detached ops z = zone_set C z - zone_set T z"
    using started_ops_encoded [OF rng diffs, of C T] by auto
  have set_ops: "set (syn_sched s ops) = set ops" using sched by (metis mset_eq_setD)
  then have same: "attached (syn_sched s ops) = attached ops" "detached (syn_sched s ops) = detached ops"
    by (simp_all add: fun_eq_iff attached_def detached_def)
  have disjoint: "attached (syn_sched s ops) z \<inter> detached (syn_sched s ops) z = {}" for z
    using ops(3,4) [of z] unfolding same by blast
  have plain_det: "plain ne" if "ne \<in> detached ops z" for ne z
    using that ops(2) by (auto simp: detached_def list_all_iff batch_ok_def)
  have result: "encoded ` ((own_members c z - detached ops z) \<union> attached ops z) = zone_set T z"
    if z: "z \<in> Z" for z
  proof -
    have "inj_on encoded (own_members c z \<union> detached ops z)"
      by (rule inj_on_subset [OF inj_on_encoded]) (use plain plain_det in auto)
    then have "encoded ` (own_members c z - detached ops z) = encoded ` own_members c z - encoded ` detached ops z"
      by (rule inj_on_image_set_diff) auto
    also have "\<dots> = zone_set C z - (zone_set C z - zone_set T z)"
      by (simp only: zones [OF z] ops(4) [of z])
    finally have "encoded ` (own_members c z - detached ops z) = zone_set C z - (zone_set C z - zone_set T z)" .
    then show ?thesis using ops(3) [of z] by (auto simp: image_Un)
  qed
  show ?thesis
    unfolding syncNetworkEndpoints_def ops(1) Let_def prod.case wp_bind
  proof (rule wp_mono [OF wp_ops [OF disjoint]], goal_cases)
    case (1 r c')
    show ?case
    proof (cases r)
      case (Ok es)
      with 1 result show ?thesis unfolding same by (simp add: wp_simps)
    qed (use 1 in simp_all)
  qed
qed

lemma wp_neg_sync:
  assumes rng: "string_range (syn_rng s)" and sched: "\<And>ops. mset (syn_sched s ops) = mset ops"
    and zones: "ListZones (syn_zoneGetter s) = Ok zones"
    and lookup: "syn_endpointLister s (svp_namespace (syn_servicePort s)) (svp_name (syn_servicePort s)) = Ok (Some ep)"
    and target: "toZoneNetworkEndpointMap s ep = Ok T" "plain_endpoints (syn_targetPort s) ep"
    and plain: "\<forall>z. \<forall>ne \<in> own_members c z. plain ne"
  shows "wp (neg_sync s False False)
     (\<lambda>r c'. r = Ok () \<longrightarrow> (\<forall>z \<in> set zones. own_groups c' z \<noteq> None \<and> encoded ` own_members c' z = zone_set T z)) c"
    (is "wp _ ?Q c")
proof -
  have T: "encodable T" by (rule encodable_target [OF target])
  have final: "wp (if keys (diff_map T C) = {} \<and> keys (diff_map C T) = {} then ret ()
       else syncNetworkEndpoints s (diff_map T C) (diff_map C T)) ?Q c2"
    if c2: "\<And>z. own_members c2 z \<subseteq> own_members c z" "\<forall>z \<in> set zones. own_groups c2 z \<noteq> None"
      and C: "\<And>z. finite (zone_set C z) \<and> zone_set C z = (if z \<in> set zones then encoded ` own_members c2 z else {})"
    for C c2
  proof (cases "keys (diff_map T C) = {} \<and> keys (diff_map C T) = {}")
    case True
    then have "zone_set T z = zone_set C z" for z by auto
    with c2 C show ?thesis unfolding if_P [OF True] wp_ret by auto
  next
    case False
    have plain2: "plain ne" if "ne \<in> own_members c2 z" for z ne using c2(1) plain that by blast
    have "zone_set C z \<subseteq> encoded ` {ne. plain ne}" for z using C [of z] plain2 by auto
    with C have "encodable C" unfolding encodable_def by blast
    have zc: "zone_set C z = encoded ` own_members c2 z" if "z \<in> set zones" for z using C that by simp
    show ?thesis
      unfolding if_not_P [OF False]
      by (rule wp_mono [OF wp_syncNetworkEndpoints [OF rng sched T \<open>encodable C\<close> zc plain2]])
        (use c2(2) in auto)
  qed
  have retrieve: "wp (retrieveExistingZoneNetworkEndpointMap s)
      (on_ok (\<lambda>C. wp (if keys (diff_map T C) = {} \<and> keys (diff_map C T) = {} then ret ()
       else syncNetworkEndpoints s (diff_map T C) (diff_map C T)) ?Q) ?Q) c1"
    if c1: "\<And>z. own_members c1 z \<subseteq> own_members c z" "\<forall>z \<in> set zones. own_groups c1 z \<noteq> None" for c1
  proof (rule wp_mono [OF wp_retrieve [OF zones]], goal_cases)
    case (1 r c2)
    show ?case
    proof (cases r)
      case (Ok C)
      have "wp (if keys (diff_map T C) = {} \<and> keys (diff_map C T) = {} then ret ()
         else syncNetworkEndpoints s (diff_map T C) (diff_map C T)) ?Q c2"
      proof (rule final)
        show "own_members c2 z \<subseteq> own_members c z" for z using 1 c1(1) by simp
        show "\<forall>z \<in> set zones. own_groups c2 z \<noteq> None" using 1 c1(2) by simp
        show "finite (zone_set C z) \<and> zone_set C z = (if z \<in> set zones then encoded ` own_members c2 z else {})" for z
          using conjunct1 [OF conjunct2 [OF 1]] conjunct2 [OF conjunct2 [OF 1]] Ok by metis
      qed
      with Ok show ?thesis by simp
    qed simp_all
  qed
  show ?thesis
    unfolding neg_sync_def simp_thms if_False lookup target(1) wp_bind wp_lift_outcome on_ok_eta option.case
      calculateDifference_def Let_def prod.case
  proof (rule wp_mono [OF wp_ensure [OF zones]], goal_cases)
    case (1 r c1)
    show ?case
    proof (cases r)
      case (Ok u)
      have "wp (retrieveExistingZoneNetworkEndpointMap s)
          (on_ok (\<lambda>C. wp (if keys (diff_map T C) = {} \<and> keys (diff_map C T) = {} then ret ()
             else syncNetworkEndpoints s (diff_map T C) (diff_map C T)) ?Q) ?Q) c1"
        by (rule retrieve) (use 1 Ok in simp_all)
      with Ok show ?thesis by simp
    qed simp_all
  qed
qed

end

section \<open>Properties\<close>

text \<open>
  C22: a successful synchronisation leaves, in every zone of the cluster, an endpoint group whose
  endpoints are exactly the ones that the service's endpoints ask for in that zone, whatever the order in
  which sets are emptied and in which the concurrent attach and detach calls reach the cloud.
\<close>

theorem neg_sync_reaches_target:
  assumes "neg_cloud (syn_cloud s) groups members" "string_range (syn_rng s)"
    and "\<And>ops. mset (syn_sched s ops) = mset ops"
    and "ListZones (syn_zoneGetter s) = Ok zones"
    and "syn_endpointLister s (svp_namespace (syn_servicePort s)) (svp_name (syn_servicePort s)) = Ok (Some ep)"
    and "toZoneNetworkEndpointMap s ep = Ok T" "plain_endpoints (syn_targetPort s) ep"
    and "\<forall>z. \<forall>ne \<in> members c (syn_negName s) z. plain ne"
    and "neg_sync s False False c = (Ok (), c')"
    and "z \<in> set zones"
  shows "groups c' (syn_negName s) z \<noteq> None \<and> encoded ` members c' (syn_negName s) z = zone_set T z"
proof -
  have "syncer_over s groups members" using assms(1) by (simp add: syncer_over_def)
  from wpD [OF syncer_over.wp_neg_sync [OF this assms(2-8)] assms(9)] assms(10) show ?thesis by blast
qed

definition example_endpoints :: Endpoints where
  "example_endpoints = \<lparr>ep_Name = ''web'', ep_Namespace = ''default'', ep_Subsets =
     [\<lparr>es_Addresses = [\<lparr>ea_IP = ''10.0.0.1'', ea_NodeName = Some ''instance1''\<rparr>,
                       \<lparr>ea_IP = ''10.0.0.2'', ea_NodeName = Some ''instance3''\<rparr>],
       es_Ports = [\<lparr>epp_Name = ''http'', epp_Port = 80, epp_Protocol = ''TCP''\<rparr>]\<rparr>]\<rparr>"

definition example_syncer :: "FakeNetworkEndpointGroupCloud syncer" where
  "example_syncer =
     \<lparr>syn_servicePort = \<lparr>svp_namespace = ''default'', svp_name = ''web'', svp_targetPort = ''http''\<rparr>,
      syn_negName = ''neg'', syn_endpointLister = (\<lambda>_ _. Ok (Some example_endpoints)),
      syn_cloud = fakeNetworkEndpointGroupCloud ''subnet'' ''net'',
      syn_zoneGetter = NewFakeZoneGetter set_List, syn_rng = set_List, syn_sched = rev\<rparr>"

lemma example_syncer_sel:
  "syn_cloud example_syncer = fakeNetworkEndpointGroupCloud ''subnet'' ''net''"
  "syn_rng example_syncer = set_List" "syn_sched example_syncer = rev" "syn_negName example_syncer = ''neg''"
  by (simp_all add: example_syncer_def)

interpretation example_sync: syncer_over example_syncer fng_groups fng_members
  unfolding syncer_over_def example_syncer_sel by (rule fake_neg.neg_cloud_axioms)

theorem neg_sync_reaches_target_witness:
  "\<exists>c'. neg_sync example_syncer False False NewFakeNetworkEndpointGroupCloud = (Ok (), c') \<and>
     encoded ` fng_members c' ''neg'' ''zone2'' = {''10.0.0.2||instance3||80''}"
proof -
  have "fst (neg_sync example_syncer False False NewFakeNetworkEndpointGroupCloud) = Ok ()" by code_simp
  from run_outcome [OF this] obtain c' where
    run: "neg_sync example_syncer False False NewFakeNetworkEndpointGroupCloud = (Ok (), c')" ..
  have zones: "ListZones (syn_zoneGetter example_syncer) = Ok [''zone1'', ''zone2'']" by code_simp
  let ?T = "fmap_of_list [(''zone1'', {''10.0.0.1||instance1||80''}), (''zone2'', {''10.0.0.2||instance3||80''})]"
  have T: "toZoneNetworkEndpointMap example_syncer example_endpoints = Ok ?T" by code_simp
  have plain: "plain_endpoints (syn_targetPort example_syncer) example_endpoints" by code_simp
  have look: "syn_endpointLister example_syncer (svp_namespace (syn_servicePort example_syncer))
      (svp_name (syn_servicePort example_syncer)) = Ok (Some example_endpoints)"
    by (simp add: example_syncer_def)
  have none: "fng_members NewFakeNetworkEndpointGroupCloud n z = {}" for n z
    by (simp add: fng_members_def key_endpoints_def NewFakeNetworkEndpointGroupCloud_def)
  have "encoded ` fng_members c' (syn_negName example_syncer) ''zone2'' = zone_set ?T ''zone2''"
    by (rule conjunct2 [OF neg_sync_reaches_target [where z = "''zone2''" and groups = fng_groups,
          OF _ _ _ zones look T plain _ run]])
      (simp_all add: example_syncer_sel fake_neg.neg_cloud_axioms sorted_strings.string_range_axioms none)
  with run show ?thesis by (simp add: example_syncer_sel zone_set_def)
qed

text \<open>
  C23: emptying a set of endpoints terminates; it needs as many calls as there are started batches
  of 500, every batch is within the limit of the API and not empty, and every endpoint of the set is in
  exactly one of them.
\<close>

theorem batches_cover:
  assumes "finite eps" "eps \<subseteq> encoded ` {ne. plain ne}"
  shows "\<exists>bs. batch_loop rng eps = (bs, Ok ()) \<and> encoded ` set (concat bs) = eps \<and> distinct (concat bs) \<and>
     (\<forall>b \<in> set bs. b \<noteq> [] \<and> length b \<le> MAX_NETWORK_ENDPOINTS_PER_BATCH) \<and>
     length bs = (card eps + (MAX_NETWORK_ENDPOINTS_PER_BATCH - 1)) div MAX_NETWORK_ENDPOINTS_PER_BATCH"
  using batch_loop_encoded [OF assms, of rng]
  by (auto simp: MAX_NETWORK_ENDPOINTS_PER_BATCH_def list_all_iff)

theorem batches_cover_witness:
  "\<exists>bs. batch_loop set_List {''10.0.0.1||a||80'', ''10.0.0.2||a||80''} = (bs, Ok ()) \<and> length bs = 1"
proof -
  let ?a = "\<lparr>ne_Instance = ''a'', ne_IpAddress = ''10.0.0.1'', ne_Port = 80\<rparr>"
  let ?b = "\<lparr>ne_Instance = ''a'', ne_IpAddress = ''10.0.0.2'', ne_Port = 80\<rparr>"
  have enc: "encoded ?a = ''10.0.0.1||a||80''" "encoded ?b = ''10.0.0.2||a||80''" by code_simp+
  have "{''10.0.0.1||a||80'', ''10.0.0.2||a||80''} \<subseteq> encoded ` {ne. plain ne}"
    using enc [symmetric] by (auto intro!: image_eqI simp: plain_def)
  from batches_cover [OF _ this, of set_List] show ?thesis
    by (auto simp: MAX_NETWORK_ENDPOINTS_PER_BATCH_def)
qed

text \<open>
  C24: an endpoint survives encoding and decoding when neither its address nor its instance name
  contains the separator's character.
\<close>

theorem endpoint_roundtrip:
  assumes "CHR ''|'' \<notin> set ip" "CHR ''|'' \<notin> set inst" "CHR ''|'' \<notin> set port"
  shows "decodeEndpoint (encodeEndpoint ip inst port) = Ok (ip, inst, port)"
  by (rule decodeEndpoint_encodeEndpoint [OF assms])

theorem endpoint_roundtrip_witness:
  "decodeEndpoint (encodeEndpoint ''10.0.0.1'' ''node'' ''80'') = Ok (''10.0.0.1'', ''node'', ''80'')"
  by (rule endpoint_roundtrip) simp_all

text \<open>
  The difference of two zone maps is exact: applied to the current map, the additions and
  removals give the target in every zone, they never overlap, and zones without a change are left out.
\<close>

lemma difference_exact:
  assumes "calculateDifference target current = (add, remove)"
  shows "(zone_set current z - zone_set remove z) \<union> zone_set add z = zone_set target z \<and>
     zone_set add z \<inter> zone_set remove z = {} \<and> zone_set add z \<inter> zone_set current z = {} \<and>
     zone_set remove z \<subseteq> zone_set current z \<and>
     (z \<in> keys add \<longleftrightarrow> zone_set add z \<noteq> {}) \<and> (z \<in> keys remove \<longleftrightarrow> zone_set remove z \<noteq> {})"
proof -
  have "add = diff_map target current" "remove = diff_map current target"
    using assms by (auto simp: calculateDifference_def)
  then show ?thesis by auto
qed

end
