(* ===== verification/Neg_Lifecycle.thy ===== *)
theory Neg_Lifecycle
  imports Neg_Syncer
begin

text \<open>
  The life of a syncer (\<open>pkg/networkendpointgroup/syncer.go\<close>): starting and stopping its goroutine, the
  signal channel, and the retry delay. The calls \<open>Start\<close>, \<open>Stop\<close> and \<open>Sync\<close> come from the
  manager, which holds its lock, so each is one step; the goroutine takes its own steps in between, and a
  \<open>Stop\<close> can fall into a running synchronisation. A nil channel is \<open>None\<close>.
\<close>

section \<open>State\<close>

definition maxRetries :: int where "maxRetries = 15"
definition minRetryDelay :: int where "minRetryDelay = 5 * 10 ^ 9"
definition maxRetryDelay :: int where "maxRetryDelay = 300 * 10 ^ 9"

record chan =
  ch_buffered :: bool
  ch_closed :: bool

record syncer_state =
  ss_stopped :: bool
  ss_shuttingDown :: bool
  ss_syncCh :: "chan option"
  ss_lastRetryDelay :: int
  ss_retryCount :: int

text \<open>
  Where a goroutine of the syncer is: before it looks at the flags, inside a synchronisation, or at the
  \<open>select\<close>, with or without a timer.
\<close>

datatype position = AtSync | InSync | AtSelect bool

record life =
  lf_state :: syncer_state
  lf_loops :: "position list"

definition newSyncer :: life where
  "newSyncer =
     \<lparr>lf_state = \<lparr>ss_stopped = True, ss_shuttingDown = False, ss_syncCh = None,
        ss_lastRetryDelay = 0, ss_retryCount = 0\<rparr>,
      lf_loops = []\<rparr>"

section \<open>The retry delay\<close>

definition nextRetryDelay :: "syncer_state \<Rightarrow> int \<times> syncer_state" where
  "nextRetryDelay s =
     (let doubled = ss_lastRetryDelay s * 2;
          delay = (if doubled < minRetryDelay then minRetryDelay
                   else if doubled > maxRetryDelay then maxRetryDelay else doubled)
      in (delay, s\<lparr>ss_retryCount := ss_retryCount s + 1, ss_lastRetryDelay := delay\<rparr>))"

definition resetRetryDelay :: "syncer_state \<Rightarrow> syncer_state" where
  "resetRetryDelay s = s\<lparr>ss_retryCount := 0, ss_lastRetryDelay := 0\<rparr>"

section \<open>Calls of the manager\<close>

definition IsStopped :: "life \<Rightarrow> bool" where
  "IsStopped l = ss_stopped (lf_state l)"

definition IsShuttingDown :: "life \<Rightarrow> bool" where
  "IsShuttingDown l = ss_shuttingDown (lf_state l)"

definition neg_init :: "syncer_state \<Rightarrow> syncer_state" where
  "neg_init s = s\<lparr>ss_stopped := False, ss_syncCh := Some \<lparr>ch_buffered = False, ch_closed = False\<rparr>\<rparr>"

definition neg_Start :: "(life, unit) go" where
  "neg_Start =
     bind (read_state (\<lambda>l. (IsStopped l, IsShuttingDown l)))
       (\<lambda>(stopped, shutting).
          if \<not> stopped then fail (Errorf ''NEG syncer is already running.'' [])
          else if shutting then fail (Errorf ''NEG syncer is shutting down. '' [])
          else modify_state (\<lambda>l. l\<lparr>lf_state := neg_init (lf_state l), lf_loops := lf_loops l @ [AtSync]\<rparr>))"

definition close_chan :: "chan option \<Rightarrow> chan option outcome" where
  "close_chan ch =
     (case ch of
        None \<Rightarrow> Panics ''close of nil channel''
      | Some c \<Rightarrow> if ch_closed c then Panics ''close of closed channel'' else Ok (Some (c\<lparr>ch_closed := True\<rparr>)))"

definition neg_Stop :: "(life, unit) go" where
  "neg_Stop =
     bind (read_state (\<lambda>l. (IsStopped l, ss_syncCh (lf_state l))))
       (\<lambda>(stopped, ch).
          if stopped then ret ()
          else bind (modify_state (\<lambda>l. l\<lparr>lf_state := (lf_state l)\<lparr>ss_stopped := True, ss_shuttingDown := True\<rparr>\<rparr>))
            (\<lambda>_. bind (lift_outcome (close_chan ch))
               (\<lambda>ch'. modify_state (\<lambda>l. l\<lparr>lf_state := (lf_state l)\<lparr>ss_syncCh := ch'\<rparr>\<rparr>))))"

text \<open>A nonblocking send on the channel, which buffers one signal.\<close>

definition neg_Sync :: "(life, bool) go" where
  "neg_Sync =
     bind (read_state (\<lambda>l. (IsStopped l, ss_syncCh (lf_state l))))
       (\<lambda>(stopped, ch).
          if stopped then ret False
          else case ch of
                 None \<Rightarrow> ret False
               | Some c \<Rightarrow>
                   if ch_closed c then panic ''send on closed channel''
                   else if ch_buffered c then ret False
                   else bind (modify_state (\<lambda>l. l\<lparr>lf_state :=
                            (lf_state l)\<lparr>ss_syncCh := Some (c\<lparr>ch_buffered := True\<rparr>)\<rparr>\<rparr>))
                          (\<lambda>_. ret True))"

section \<open>The goroutine\<close>

text \<open>The code between \<open>sync\<close> and the \<open>select\<close>: a failure arms the timer until retries run out.\<close>

definition after_sync :: "bool \<Rightarrow> syncer_state \<Rightarrow> position \<times> syncer_state" where
  "after_sync failed s =
     (if failed
      then (if ss_retryCount s > maxRetries then (AtSelect False, s)
            else (AtSelect True, snd (nextRetryDelay s)))
      else (AtSelect False, resetRetryDelay s))"

datatype event =
    Starts | Stops | Signals
  | Begins | Finishes bool | Receives | Exits | Fires

text \<open>Events of the goroutine itself.\<close>

fun own_event :: "event \<Rightarrow> bool" where
  "own_event Starts = False"
| "own_event Stops = False"
| "own_event Signals = False"
| "own_event _ = True"

inductive neg_step :: "life \<Rightarrow> event \<Rightarrow> life \<Rightarrow> bool" where
  start: "neg_Start l = (r, l') \<Longrightarrow> neg_step l Starts l'"
| stop: "neg_Stop l = (r, l') \<Longrightarrow> neg_step l Stops l'"
| signal: "neg_Sync l = (r, l') \<Longrightarrow> neg_step l Signals l'"
| begin_sync: "lf_loops l = ps @ AtSync # qs \<Longrightarrow> \<not> IsStopped l \<and> \<not> IsShuttingDown l \<Longrightarrow>
    neg_step l Begins (l\<lparr>lf_loops := ps @ InSync # qs\<rparr>)"
| skip_sync: "lf_loops l = ps @ AtSync # qs \<Longrightarrow> IsStopped l \<or> IsShuttingDown l \<Longrightarrow>
    after_sync False (lf_state l) = (p, s) \<Longrightarrow>
    neg_step l Begins (l\<lparr>lf_state := s, lf_loops := ps @ p # qs\<rparr>)"
| finish: "lf_loops l = ps @ InSync # qs \<Longrightarrow> after_sync failed (lf_state l) = (p, s) \<Longrightarrow>
    neg_step l (Finishes failed) (l\<lparr>lf_state := s, lf_loops := ps @ p # qs\<rparr>)"
| receive: "lf_loops l = ps @ AtSelect armed # qs \<Longrightarrow> ss_syncCh (lf_state l) = Some c \<Longrightarrow> ch_buffered c \<Longrightarrow>
    neg_step l Receives (l\<lparr>lf_state := (lf_state l)\<lparr>ss_syncCh := Some (c\<lparr>ch_buffered := False\<rparr>)\<rparr>,
      lf_loops := ps @ AtSync # qs\<rparr>)"
| exit: "lf_loops l = ps @ AtSelect armed # qs \<Longrightarrow> ss_syncCh (lf_state l) = Some c \<Longrightarrow>
    \<not> ch_buffered c \<Longrightarrow> ch_closed c \<Longrightarrow>
    neg_step l Exits (l\<lparr>lf_state := (lf_state l)\<lparr>ss_shuttingDown := False\<rparr>, lf_loops := ps @ qs\<rparr>)"
| fire: "lf_loops l = ps @ AtSelect True # qs \<Longrightarrow> neg_step l Fires (l\<lparr>lf_loops := ps @ AtSync # qs\<rparr>)"

inductive reachable :: "life \<Rightarrow> bool" where
  new: "reachable newSyncer"
| step: "reachable l \<Longrightarrow> neg_step l e l' \<Longrightarrow> reachable l'"

lemmas call_defs = neg_Start_def neg_Stop_def neg_Sync_def bind_def read_state_def modify_state_def
  fail_def ret_def panic_def lift_outcome_def close_chan_def

section \<open>The invariant\<close>

text \<open>
  At most one goroutine, and it is there exactly while the syncer runs or shuts down; the channel is
  open exactly while the syncer runs.
\<close>

definition one_loop :: "life \<Rightarrow> bool" where
  "one_loop l \<longleftrightarrow> length (lf_loops l) \<le> 1 \<and>
     (lf_loops l \<noteq> [] \<longleftrightarrow> \<not> IsStopped l \<or> IsShuttingDown l) \<and> (IsShuttingDown l \<longrightarrow> IsStopped l) \<and>
     (lf_loops l \<noteq> [] \<longrightarrow> (\<exists>c. ss_syncCh (lf_state l) = Some c \<and> (ch_closed c \<longleftrightarrow> IsStopped l)))"

definition delay_ok :: "syncer_state \<Rightarrow> bool" where
  "delay_ok s \<longleftrightarrow>
     (let k = ss_retryCount s; d = ss_lastRetryDelay s
      in 0 \<le> k \<and> k \<le> maxRetries + 1 \<and>
         d = (if k = 0 then 0 else min maxRetryDelay (minRetryDelay * 2 ^ nat (k - 1))))"

lemmas flag_defs = IsStopped_def IsShuttingDown_def

lemma loops_cases: "length ps \<le> 1 \<Longrightarrow> ps = as @ x # bs \<longleftrightarrow> as = [] \<and> bs = [] \<and> ps = [x]"
  by (cases as) auto

lemma one_loop_step:
  assumes "neg_step l e l'" "one_loop l"
  shows "one_loop l'"
  using assms
proof (induction rule: neg_step.induct)
  case (start l r l')
  then show ?case by (auto simp: call_defs one_loop_def flag_defs neg_init_def split: if_splits prod.splits)
next
  case (stop l r l')
  then show ?case
    by (auto simp: call_defs one_loop_def flag_defs split: if_splits prod.splits option.splits)
next
  case (signal l r l')
  then show ?case
    by (auto simp: call_defs one_loop_def flag_defs split: if_splits prod.splits option.splits)
qed (auto simp: one_loop_def flag_defs loops_cases after_sync_def resetRetryDelay_def nextRetryDelay_def Let_def
    split: if_splits)

lemma capped_double: "0 \<le> (m :: int) \<Longrightarrow> 0 \<le> x \<Longrightarrow> min m (2 * min m x) = min m (2 * x)"
  by (auto simp: min_def)

lemma delay_ok_upd [simp]:
  "delay_ok (s\<lparr>ss_stopped := b\<rparr>) = delay_ok s" "delay_ok (s\<lparr>ss_shuttingDown := b\<rparr>) = delay_ok s"
  "delay_ok (s\<lparr>ss_syncCh := ch\<rparr>) = delay_ok s"
  by (simp_all add: delay_ok_def)

lemma delay_ok_next:
  assumes "delay_ok s" "ss_retryCount s \<le> maxRetries"
  shows "delay_ok (snd (nextRetryDelay s))"
proof (cases "ss_retryCount s = 0")
  case True
  with assms show ?thesis
    by (simp add: delay_ok_def nextRetryDelay_def Let_def minRetryDelay_def maxRetryDelay_def maxRetries_def)
next
  case False
  define k where "k = nat (ss_retryCount s - 1)"
  define x where "x = minRetryDelay * 2 ^ k"
  have pos: "minRetryDelay \<le> x" "0 \<le> x" by (simp_all add: x_def minRetryDelay_def)
  have d: "ss_lastRetryDelay s = min maxRetryDelay x" and k: "0 \<le> ss_retryCount s"
    using assms(1) False by (auto simp: delay_ok_def Let_def x_def k_def)
  have "nat (ss_retryCount s) = Suc k" using False k by (simp add: k_def)
  then have "minRetryDelay * 2 ^ nat (ss_retryCount s) = 2 * x" by (simp add: x_def)
  moreover have "(if doubled < minRetryDelay then minRetryDelay
      else if maxRetryDelay < doubled then maxRetryDelay else doubled) = min maxRetryDelay (2 * x)"
    if "doubled = min maxRetryDelay x * 2" for doubled
    using that pos capped_double [of maxRetryDelay x]
    by (auto simp: min_def minRetryDelay_def maxRetryDelay_def)
  ultimately show ?thesis
    using assms(2) False k by (simp add: delay_ok_def nextRetryDelay_def Let_def d maxRetries_def)
qed

lemma delay_ok_reset: "delay_ok (resetRetryDelay s)"
  by (simp add: delay_ok_def resetRetryDelay_def maxRetries_def)

lemma delay_ok_after_sync: "delay_ok s \<Longrightarrow> after_sync failed s = (p, s') \<Longrightarrow> delay_ok s'"
  using delay_ok_next [of s] by (auto simp: after_sync_def not_less delay_ok_reset split: if_splits)

lemma delay_ok_step:
  assumes "neg_step l e l'" "delay_ok (lf_state l)"
  shows "delay_ok (lf_state l')"
  using assms
  by (induction rule: neg_step.induct)
    (auto simp: call_defs neg_init_def split: if_splits prod.splits option.splits intro: delay_ok_after_sync)

lemma reachable_inv: "reachable l \<Longrightarrow> one_loop l \<and> delay_ok (lf_state l)"
proof (induction rule: reachable.induct)
  case new
  then show ?case by (simp add: one_loop_def newSyncer_def delay_ok_def flag_defs maxRetries_def)
qed (blast intro: one_loop_step delay_ok_step)

section \<open>Shutting down\<close>

definition own_step :: "life \<Rightarrow> life \<Rightarrow> bool" where
  "own_step l l' \<longleftrightarrow> (\<exists>e. own_event e \<and> neg_step l e l')"

fun position_rank :: "position \<Rightarrow> nat" where
  "position_rank (AtSelect False) = 0"
| "position_rank AtSync = 1"
| "position_rank (AtSelect True) = 2"
| "position_rank InSync = 3"

definition rank :: "life \<Rightarrow> nat" where
  "rank l = (case ss_syncCh (lf_state l) of Some c \<Rightarrow> if ch_buffered c then 4 else 0 | None \<Rightarrow> 0) +
     (case lf_loops l of p # _ \<Rightarrow> position_rank p | [] \<Rightarrow> 0)"

lemma rank_le: "rank l \<le> 7"
proof -
  have "position_rank p \<le> 3" for p by (cases p rule: position_rank.cases) auto
  then have "(case lf_loops l of p # _ \<Rightarrow> position_rank p | [] \<Rightarrow> 0) \<le> 3" by (simp split: list.split)
  moreover have "(case ss_syncCh (lf_state l) of Some c \<Rightarrow> if ch_buffered c then 4 else 0 | None \<Rightarrow> 0) \<le> (4 :: nat)"
    by (simp split: option.split)
  ultimately show ?thesis unfolding rank_def by linarith
qed

inductive_cases stepE: "neg_step l e l'"

text \<open>
  A step of the goroutine of a stopped syncer either ends it or brings it closer to its end.
\<close>

lemma own_step_shutdown:
  assumes "own_step l l'" "one_loop l" "IsShuttingDown l"
  shows "lf_loops l' = [] \<and> \<not> IsShuttingDown l' \<or> IsShuttingDown l' \<and> rank l' < rank l"
proof -
  obtain e where e: "own_event e" "neg_step l e l'" using assms(1) by (auto simp: own_step_def)
  from e(2) show ?thesis
  proof (cases rule: neg_step.cases)
    case (begin_sync ps qs)
    with assms(3) show ?thesis by simp
  next
    case (skip_sync ps qs p s)
    with assms(2,3) show ?thesis
      by (auto simp: one_loop_def loops_cases after_sync_def resetRetryDelay_def rank_def flag_defs)
  next
    case (finish ps qs failed p s)
    with assms(2,3) show ?thesis
      by (auto simp: one_loop_def loops_cases after_sync_def resetRetryDelay_def nextRetryDelay_def Let_def
          rank_def flag_defs split: if_splits)
  next
    case (receive ps armed qs c)
    with assms(2,3) show ?thesis by (auto simp: one_loop_def loops_cases rank_def flag_defs)
  next
    case (exit ps armed qs c)
    with assms(2) show ?thesis by (auto simp: one_loop_def loops_cases flag_defs)
  next
    case (fire ps qs)
    with assms(2,3) show ?thesis by (auto simp: one_loop_def loops_cases rank_def flag_defs)
  qed (use e(1) in auto)
qed

lemma own_progress: "neg_step l e l' \<Longrightarrow> own_event e \<Longrightarrow> \<exists>l'. own_step l l'"
  unfolding own_step_def by blast

text \<open>A goroutine of a stopped syncer can always go on.\<close>

lemma shutdown_progress:
  assumes "one_loop l" "IsShuttingDown l"
  shows "\<exists>l'. own_step l l'"
proof -
  obtain p where p: "lf_loops l = [] @ p # []"
    using assms by (cases "lf_loops l") (auto simp: one_loop_def)
  obtain c where c: "ss_syncCh (lf_state l) = Some c" "ch_closed c"
    using assms by (auto simp: one_loop_def p)
  show ?thesis
  proof (cases p)
    case AtSync
    from own_progress [OF skip_sync [OF p [unfolded AtSync] disjI2 [OF assms(2)] surjective_pairing]]
    show ?thesis by simp
  next
    case InSync
    from own_progress [OF finish [OF p [unfolded InSync] surjective_pairing]] show ?thesis by simp
  next
    case (AtSelect armed)
    from own_progress [OF receive [OF p [unfolded AtSelect] c(1)]]
      own_progress [OF exit [OF p [unfolded AtSelect] c(1) _ c(2)]]
    show ?thesis by (cases "ch_buffered c") simp_all
  qed
qed

lemma no_loop_no_step: "lf_loops l = [] \<Longrightarrow> \<not> own_step l l'"
  by (auto simp: own_step_def elim!: stepE)

lemma own_step_one_loop: "own_step l l' \<Longrightarrow> one_loop l \<Longrightarrow> one_loop l'"
  unfolding own_step_def by (blast intro: one_loop_step)

lemma shutdown_bounded:
  "(own_step ^^ n) l l' \<Longrightarrow> one_loop l \<Longrightarrow> IsShuttingDown l \<Longrightarrow> n \<le> rank l + 1"
proof (induction n arbitrary: l)
  case (Suc n)
  from Suc.prems(1) obtain l1 where l1: "own_step l l1" "(own_step ^^ n) l1 l'"
    by (metis relpowp_Suc_D2)
  from own_step_shutdown [OF l1(1) Suc.prems(2,3)] show ?case
  proof
    assume "lf_loops l1 = [] \<and> \<not> IsShuttingDown l1"
    then have "n = 0" using l1(2) no_loop_no_step [of l1] by (metis not0_implies_Suc relpowp_Suc_D2)
    then show ?thesis by simp
  next
    assume "IsShuttingDown l1 \<and> rank l1 < rank l"
    with Suc.IH [OF l1(2)] own_step_one_loop [OF l1(1) Suc.prems(2)] show ?thesis by simp
  qed
qed simp

lemma shutdown_ends:
  assumes "rtranclp own_step l l'" "one_loop l" "IsShuttingDown l"
  shows "one_loop l' \<and> (IsShuttingDown l' \<or> lf_loops l' = [])"
  using assms
proof (induction rule: rtranclp_induct)
  case (step l1 l2)
  then show ?case
    using own_step_shutdown [OF step(2)] own_step_one_loop [OF step(2)] no_loop_no_step [of l1] by blast
qed simp

section \<open>Properties\<close>

text \<open>
  C25: whatever calls the manager makes and however they interleave with the goroutine, a syncer
  never has two goroutines; it has one exactly while it runs or shuts down, and no call ever closes a closed
  channel or sends on one.
\<close>

theorem syncer_invariant:
  assumes "reachable l"
  shows "length (lf_loops l) \<le> 1 \<and> (lf_loops l \<noteq> [] \<longleftrightarrow> \<not> IsStopped l \<or> IsShuttingDown l) \<and>
     (\<forall>p. fst (neg_Start l) \<noteq> Panics p \<and> fst (neg_Stop l) \<noteq> Panics p \<and> fst (neg_Sync l) \<noteq> Panics p)"
proof -
  have inv: "one_loop l" using reachable_inv [OF assms] by simp
  then have "\<exists>c. ss_syncCh (lf_state l) = Some c \<and> \<not> ch_closed c" if "\<not> IsStopped l"
    using that by (auto simp: one_loop_def)
  with inv show ?thesis
    by (auto simp: one_loop_def call_defs split: if_splits prod.splits option.splits)
qed

lemma reachable_started: "reachable (snd (neg_Start newSyncer))"
  by (rule reachable.step [OF reachable.new neg_step.start [of _ "fst (neg_Start newSyncer)"]]) simp

theorem syncer_invariant_witness: "length (lf_loops (snd (neg_Start newSyncer))) = 1"
proof -
  have "\<not> IsStopped (snd (neg_Start newSyncer))" by code_simp
  with syncer_invariant [OF reachable_started] show ?thesis by (auto simp: le_Suc_eq)
qed

text \<open>
  C26: stopping a syncer takes effect: its goroutine cannot get stuck, ends after at most eight
  steps of its own, and leaves a syncer that can be started again.
\<close>

theorem shutdown_completes:
  assumes "reachable l" "IsShuttingDown l"
  shows "(\<forall>n l'. (own_step ^^ n) l l' \<longrightarrow> n \<le> 8) \<and>
     (\<forall>l'. rtranclp own_step l l' \<and> (\<nexists>l2. own_step l' l2) \<longrightarrow>
        lf_loops l' = [] \<and> is_ok (fst (neg_Start l')))"
proof -
  have inv: "one_loop l" using reachable_inv [OF assms(1)] by simp
  have "n \<le> 8" if "(own_step ^^ n) l l'" for n l'
    using shutdown_bounded [OF that inv assms(2)] rank_le [of l] by simp
  moreover have "lf_loops l' = [] \<and> is_ok (fst (neg_Start l'))"
    if "rtranclp own_step l l'" "\<nexists>l2. own_step l' l2" for l'
    using shutdown_ends [OF that(1) inv assms(2)] shutdown_progress [of l'] that(2)
    by (auto simp: one_loop_def call_defs)
  ultimately show ?thesis by blast
qed

theorem shutdown_completes_witness:
  "\<nexists>l'. (own_step ^^ 9) (snd (neg_Stop (snd (neg_Start newSyncer)))) l'"
proof -
  let ?l = "snd (neg_Stop (snd (neg_Start newSyncer)))"
  have "reachable ?l"
    by (rule reachable.step [OF reachable_started neg_step.stop [of _ "fst (neg_Stop (snd (neg_Start newSyncer)))"]]) simp
  moreover have "IsShuttingDown ?l" by code_simp
  ultimately have "\<forall>n l'. (own_step ^^ n) ?l l' \<longrightarrow> n \<le> 8" using shutdown_completes by blast
  from this [rule_format, of 9] show ?thesis by auto
qed

text \<open>
  C27: after \<open>k\<close> failures in a row the syncer waits \<open>5 * 2 ^ (k - 1)\<close> seconds, at most 300, and
  counts at most one failure more than it retries; doubling the delay never overflows the 64 bits of a
  duration.
\<close>

theorem retry_delay:
  assumes "reachable l"
  defines "k \<equiv> ss_retryCount (lf_state l)" and "d \<equiv> ss_lastRetryDelay (lf_state l)"
  shows "0 \<le> k \<and> k \<le> 16 \<and> d = (if k = 0 then 0 else min (300 * 10 ^ 9) (5 * 10 ^ 9 * 2 ^ nat (k - 1))) \<and>
     0 \<le> 2 * d \<and> 2 * d < 2 ^ 63"
proof -
  have "delay_ok (lf_state l)" using reachable_inv [OF assms(1)] by simp
  then have "0 \<le> k \<and> k \<le> 16 \<and> d = (if k = 0 then 0 else min (300 * 10 ^ 9) (5 * 10 ^ 9 * 2 ^ nat (k - 1)))"
    by (simp add: delay_ok_def Let_def k_def d_def maxRetries_def minRetryDelay_def maxRetryDelay_def)
  moreover from this have "0 \<le> d \<and> d \<le> 300 * 10 ^ 9" by (auto simp: min_def)
  ultimately show ?thesis by auto
qed

theorem retry_delay_witness:
  "ss_lastRetryDelay (lf_state (snd (neg_Start newSyncer))) = 0"
proof -
  have "ss_retryCount (lf_state (snd (neg_Start newSyncer))) = 0" by code_simp
  with retry_delay [OF reachable_started] show ?thesis by simp
qed

end
