(* ===== verification/Neg_Manager.thy ===== *)
theory Neg_Manager
  imports Neg_Lifecycle "HOL-Library.Product_Lexorder"
begin

text \<open>
  The manager of the syncers (\<open>pkg/networkendpointgroup/manager.go\<close>): which service ports have a
  syncer, and the garbage collection of syncers and endpoint groups. Every method runs under the manager's
  lock, so a method is one call on the manager's state; the syncers' goroutines run between methods.

  A syncer is represented by its life; what else it holds is determined by its key.
\<close>

section \<open>Keys\<close>

record serviceKey =
  sk_namespace :: string
  sk_name :: string

text \<open>Both kinds of keys are ordered by their fields, so that maps over them have an order to range in.\<close>

instantiation servicePort_ext :: (linorder) linorder
begin

definition less_eq_servicePort_ext :: "'a servicePort_scheme \<Rightarrow> 'a servicePort_scheme \<Rightarrow> bool" where
  "less_eq_servicePort_ext a b \<longleftrightarrow>
     (svp_namespace a, svp_name a, svp_targetPort a, servicePort.more a) \<le>
     (svp_namespace b, svp_name b, svp_targetPort b, servicePort.more b)"

definition less_servicePort_ext :: "'a servicePort_scheme \<Rightarrow> 'a servicePort_scheme \<Rightarrow> bool" where
  "less_servicePort_ext a b \<longleftrightarrow> a \<le> b \<and> \<not> b \<le> a"

instance
proof
  fix a b c :: "'a servicePort_scheme"
  show "a < b \<longleftrightarrow> a \<le> b \<and> \<not> b \<le> a" by (rule less_servicePort_ext_def)
  show "a \<le> a" by (simp add: less_eq_servicePort_ext_def)
  show "a \<le> b \<Longrightarrow> b \<le> c \<Longrightarrow> a \<le> c" unfolding less_eq_servicePort_ext_def by (rule order_trans)
  show "a \<le> b \<or> b \<le> a" unfolding less_eq_servicePort_ext_def by (rule linear)
  show "a \<le> b \<Longrightarrow> b \<le> a \<Longrightarrow> a = b"
    unfolding less_eq_servicePort_ext_def by (drule (1) order_antisym) simp
qed

end

instantiation serviceKey_ext :: (linorder) linorder
begin

definition less_eq_serviceKey_ext :: "'a serviceKey_scheme \<Rightarrow> 'a serviceKey_scheme \<Rightarrow> bool" where
  "less_eq_serviceKey_ext a b \<longleftrightarrow>
     (sk_namespace a, sk_name a, serviceKey.more a) \<le> (sk_namespace b, sk_name b, serviceKey.more b)"

definition less_serviceKey_ext :: "'a serviceKey_scheme \<Rightarrow> 'a serviceKey_scheme \<Rightarrow> bool" where
  "less_serviceKey_ext a b \<longleftrightarrow> a \<le> b \<and> \<not> b \<le> a"

instance
proof
  fix a b c :: "'a serviceKey_scheme"
  show "a < b \<longleftrightarrow> a \<le> b \<and> \<not> b \<le> a" by (rule less_serviceKey_ext_def)
  show "a \<le> a" by (simp add: less_eq_serviceKey_ext_def)
  show "a \<le> b \<Longrightarrow> b \<le> c \<Longrightarrow> a \<le> c" unfolding less_eq_serviceKey_ext_def by (rule order_trans)
  show "a \<le> b \<or> b \<le> a" unfolding less_eq_serviceKey_ext_def by (rule linear)
  show "a \<le> b \<Longrightarrow> b \<le> a \<Longrightarrow> a = b"
    unfolding less_eq_serviceKey_ext_def by (drule (1) order_antisym) simp
qed

end

definition getSyncerKey :: "string \<Rightarrow> string \<Rightarrow> string \<Rightarrow> servicePort" where
  "getSyncerKey namespace name port = \<lparr>svp_namespace = namespace, svp_name = name, svp_targetPort = port\<rparr>"

definition getServiceKey :: "string \<Rightarrow> string \<Rightarrow> serviceKey" where
  "getServiceKey namespace name = \<lparr>sk_namespace = namespace, sk_name = name\<rparr>"

section \<open>The manager\<close>

record 'c syncerManager =
  mg_namer :: Namer
  mg_cloud :: "'c networkEndpointGroupCloud"
  mg_rng_services :: "serviceKey set \<Rightarrow> serviceKey list"
  mg_rng_ports :: "servicePort set \<Rightarrow> servicePort list"
  mg_rng_zones :: "string set \<Rightarrow> string list"

record 'c manager_state =
  mgs_svcPortMap :: "(serviceKey, string set) gomap"
  mgs_syncerMap :: "(servicePort, life) gomap"
  mgs_cloud_st :: 'c

definition newSyncerManager :: "'c \<Rightarrow> 'c manager_state" where
  "newSyncerManager c = \<lparr>mgs_svcPortMap = fmempty, mgs_syncerMap = fmempty, mgs_cloud_st = c\<rparr>"

definition put_syncer :: "servicePort \<Rightarrow> life \<Rightarrow> 'c manager_state \<Rightarrow> 'c manager_state" where
  "put_syncer key l s = s\<lparr>mgs_syncerMap := fmupd key l (mgs_syncerMap s)\<rparr>"

text \<open>A method call on the syncer stored under a key, with and without effect; a missing one is a nil pointer.\<close>

definition on_syncer :: "servicePort \<Rightarrow> (life, 'a) go \<Rightarrow> ('c manager_state, 'a) go" where
  "on_syncer key m s =
     (case fmlookup (mgs_syncerMap s) key of
        None \<Rightarrow> (Panics ''nil pointer dereference'', s)
      | Some l \<Rightarrow> (case m l of (r, l') \<Rightarrow> (r, put_syncer key l' s)))"

definition ask_syncer :: "servicePort \<Rightarrow> (life \<Rightarrow> 'a) \<Rightarrow> ('c manager_state, 'a) go" where
  "ask_syncer key f s =
     (case fmlookup (mgs_syncerMap s) key of
        None \<Rightarrow> (Panics ''nil pointer dereference'', s)
      | Some l \<Rightarrow> (Ok (f l), s))"

definition has_syncer :: "servicePort \<Rightarrow> ('c manager_state, bool) go" where
  "has_syncer key = read_state (\<lambda>s. fmlookup (mgs_syncerMap s) key \<noteq> None)"

definition ports_of :: "'c manager_state \<Rightarrow> serviceKey \<Rightarrow> string set" where
  "ports_of s key = (case fmlookup (mgs_svcPortMap s) key of None \<Rightarrow> {} | Some ps \<Rightarrow> ps)"

definition stop_if_there :: "servicePort \<Rightarrow> ('c manager_state, unit) go" where
  "stop_if_there key = bind (has_syncer key) (\<lambda>there. if there then on_syncer key neg_Stop else ret ())"

text \<open>One added port: its syncer is created when there is none, and started when it is stopped.\<close>

definition ensure_syncer :: "'c syncerManager \<Rightarrow> string \<Rightarrow> string \<Rightarrow> string \<Rightarrow> ('c manager_state, unit) go" where
  "ensure_syncer mg namespace name port =
     (let key = getSyncerKey namespace name port in
      bind (has_syncer key)
        (\<lambda>there. bind (if there then ret ()
                        else bind (lift_outcome (NEG (mg_namer mg) namespace name port))
                               (\<lambda>_. modify_state (put_syncer key newSyncer)))
           (\<lambda>_. bind (ask_syncer key IsStopped)
              (\<lambda>stopped. if stopped then on_syncer key neg_Start else ret ()))))"

definition EnsureSyncers ::
  "'c syncerManager \<Rightarrow> string \<Rightarrow> string \<Rightarrow> string set \<Rightarrow> ('c manager_state, unit) go" where
  "EnsureSyncers mg namespace name targetPorts =
     (let key = getServiceKey namespace name in
      bind (read_state (\<lambda>s. ports_of s key))
        (\<lambda>currentPorts.
           let removes = set_List (currentPorts - targetPorts);
               adds = set_List (targetPorts - currentPorts)
           in bind (modify_state (\<lambda>s. s\<lparr>mgs_svcPortMap := fmupd key targetPorts (mgs_svcPortMap s)\<rparr>))
                (\<lambda>_. bind (for_each (\<lambda>port. stop_if_there (getSyncerKey namespace name port)) removes)
                   (\<lambda>_. bind (collect_errs (ensure_syncer mg namespace name) adds)
                      (\<lambda>errList. lift_outcome (new_aggregate errList))))))"

definition StopSyncer :: "string \<Rightarrow> string \<Rightarrow> ('c manager_state, unit) go" where
  "StopSyncer namespace name =
     (let key = getServiceKey namespace name in
      bind (read_state (\<lambda>s. fmlookup (mgs_svcPortMap s) key))
        (\<lambda>r. case r of
           None \<Rightarrow> ret ()
         | Some ports \<Rightarrow>
             bind (for_each (\<lambda>port. stop_if_there (getSyncerKey namespace name port)) (set_List ports))
               (\<lambda>_. modify_state (\<lambda>s. s\<lparr>mgs_svcPortMap := fmdrop key (mgs_svcPortMap s)\<rparr>))))"

definition signal_if_running :: "servicePort \<Rightarrow> ('c manager_state, unit) go" where
  "signal_if_running key =
     bind (has_syncer key)
       (\<lambda>there. if \<not> there then ret ()
          else bind (ask_syncer key IsStopped)
            (\<lambda>stopped. if stopped then ret () else bind (on_syncer key neg_Sync) (\<lambda>_. ret ())))"

definition mgr_Sync :: "string \<Rightarrow> string \<Rightarrow> ('c manager_state, unit) go" where
  "mgr_Sync namespace name =
     bind (read_state (\<lambda>s. fmlookup (mgs_svcPortMap s) (getServiceKey namespace name)))
       (\<lambda>r. case r of
          None \<Rightarrow> ret ()
        | Some portList \<Rightarrow>
            for_each (\<lambda>port. signal_if_running (getSyncerKey namespace name port)) (set_List portList))"

definition ShutDown :: "'c syncerManager \<Rightarrow> ('c manager_state, unit) go" where
  "ShutDown mg =
     bind (read_state (\<lambda>s. mg_rng_ports mg (keys (mgs_syncerMap s))))
       (\<lambda>ks. for_each (\<lambda>key. on_syncer key neg_Stop) ks)"

section \<open>Garbage collection\<close>

definition garbageCollectSyncer :: "servicePort \<Rightarrow> ('c manager_state, unit) go" where
  "garbageCollectSyncer key =
     bind (ask_syncer key (\<lambda>l. IsStopped l \<and> \<not> IsShuttingDown l))
       (\<lambda>dead. if dead then modify_state (\<lambda>s. s\<lparr>mgs_syncerMap := fmdrop key (mgs_syncerMap s)\<rparr>) else ret ())"

definition getAllStoppedSyncerKeys :: "'c syncerManager \<Rightarrow> ('c manager_state, servicePort list) go" where
  "getAllStoppedSyncerKeys mg =
     read_state (\<lambda>s. filter (\<lambda>key. IsStopped (the (fmlookup (mgs_syncerMap s) key)))
       (mg_rng_ports mg (keys (mgs_syncerMap s))))"

definition on_neg_cloud :: "('c, 'a) go \<Rightarrow> ('c manager_state, 'a) go" where
  "on_neg_cloud = on_part mgs_cloud_st (\<lambda>c s. s\<lparr>mgs_cloud_st := c\<rparr>)"

text \<open>Any error of the lookup is taken for a missing group.\<close>

definition ensureDeleteNetworkEndpointGroup ::
  "'c syncerManager \<Rightarrow> string \<Rightarrow> string \<Rightarrow> ('c manager_state, unit) go" where
  "ensureDeleteNetworkEndpointGroup mg name zone =
     bind_err (on_neg_cloud (GetNetworkEndpointGroup (mg_cloud mg) name zone))
       (\<lambda>r. case r of
          Inl _ \<Rightarrow> ret ()
        | Inr _ \<Rightarrow> on_neg_cloud (DeleteNetworkEndpointGroup (mg_cloud mg) name zone))"

definition own_neg_names :: "Namer \<Rightarrow> (string, NetworkEndpointGroup list) gomap \<Rightarrow> string set" where
  "own_neg_names namer zoneNEGList =
     (\<Union>zone \<in> keys zoneNEGList. Set.filter (IsNEG namer) (neg_Name ` set (the (fmlookup zoneNEGList zone))))"

definition wanted_ports :: "'c syncerManager \<Rightarrow> 'c manager_state \<Rightarrow> (serviceKey \<times> string) list" where
  "wanted_ports mg s =
     concat (map (\<lambda>key. map (Pair key) (set_List (ports_of s key))) (mg_rng_services mg (keys (mgs_svcPortMap s))))"

definition garbageCollectNEG :: "'c syncerManager \<Rightarrow> ('c manager_state, unit) go" where
  "garbageCollectNEG mg =
     bind (wrap_err (\<lambda>e. Errorf ''failed to retrieve aggregated NEG list'' [e])
             (on_neg_cloud (AggregatedListNetworkEndpointGroup (mg_cloud mg))))
       (\<lambda>zoneNEGList. bind (read_state (wanted_ports mg))
          (\<lambda>wanted. bind (map_each (\<lambda>(key, port).
                 lift_outcome (NEG (mg_namer mg) (sk_namespace key) (sk_name key) port)) wanted)
             (\<lambda>names.
                let negNames = own_neg_names (mg_namer mg) zoneNEGList - set names
                in for_each (\<lambda>zone. for_each (\<lambda>name.
                       wrap_err (\<lambda>e. Errorf (''failed to delete NEG '' @ name @ '' in '' @ zone) [e])
                         (ensureDeleteNetworkEndpointGroup mg name zone)) (set_List negNames))
                     (mg_rng_zones mg (keys zoneNEGList)))))"

definition mgr_GC :: "'c syncerManager \<Rightarrow> ('c manager_state, unit) go" where
  "mgr_GC mg =
     bind (getAllStoppedSyncerKeys mg)
       (\<lambda>ks. bind (for_each garbageCollectSyncer ks)
          (\<lambda>_. wrap_err (\<lambda>e. Errorf ''Failed to garbage collect negs'' [e]) (garbageCollectNEG mg)))"

section \<open>Calls on one syncer\<close>

lemma wp_on_syncer:
  "fmlookup (mgs_syncerMap s) key = Some l \<Longrightarrow>
   wp (on_syncer key m) Q s = wp m (\<lambda>r l'. Q r (put_syncer key l' s)) l"
  by (simp add: wp_def on_syncer_def split: prod.splits)

lemma wp_ask_syncer:
  "fmlookup (mgs_syncerMap s) key = Some l \<Longrightarrow> wp (ask_syncer key f) Q s = Q (Ok (f l)) s"
  by (simp add: wp_def ask_syncer_def)

lemma wp_has_syncer [wp_simps]:
  "wp (has_syncer key) Q = (\<lambda>s. Q (Ok (fmlookup (mgs_syncerMap s) key \<noteq> None)) s)"
  by (simp add: has_syncer_def wp_simps)

lemma neg_Stop_reachable:
  assumes "reachable l"
  shows "wp neg_Stop (\<lambda>r l'. r = Ok () \<and> reachable l' \<and> IsStopped l') l"
proof -
  have inv: "one_loop l" using reachable_inv [OF assms] by simp
  obtain r l' where run: "neg_Stop l = (r, l')" by fastforce
  have "reachable l'" by (rule reachable.step [OF assms neg_step.stop [OF run]])
  moreover have "r = Ok () \<and> IsStopped l'"
    using run inv by (auto simp: call_defs one_loop_def flag_defs split: if_splits prod.splits option.splits)
  ultimately show ?thesis using run by (simp add: wp_def)
qed

lemma neg_Start_reachable:
  assumes "reachable l" "IsStopped l"
  shows "wp neg_Start (\<lambda>r l'. reachable l' \<and> (case r of
      Ok _ \<Rightarrow> \<not> IsShuttingDown l \<and> \<not> IsStopped l' | Err _ \<Rightarrow> IsShuttingDown l \<and> l' = l | Panics _ \<Rightarrow> False)) l"
proof -
  obtain r l' where run: "neg_Start l = (r, l')" by fastforce
  have "reachable l'" by (rule reachable.step [OF assms(1) neg_step.start [OF run]])
  with run assms(2) show ?thesis
    by (auto simp: wp_def call_defs flag_defs neg_init_def split: if_splits prod.splits outcome.splits)
qed

lemma neg_Sync_reachable:
  assumes "reachable l"
  shows "wp neg_Sync (\<lambda>r l'. reachable l' \<and> (\<exists>b. r = Ok b)) l"
proof -
  obtain r l' where run: "neg_Sync l = (r, l')" by fastforce
  have "reachable l'" by (rule reachable.step [OF assms neg_step.signal [OF run]])
  moreover have "one_loop l" using reachable_inv [OF assms] by simp
  ultimately show ?thesis
    using run by (auto simp: wp_def call_defs one_loop_def flag_defs split: if_splits prod.splits option.splits)
qed

section \<open>The invariant of the manager\<close>

definition lives_ok :: "'c manager_state \<Rightarrow> bool" where
  "lives_ok s \<longleftrightarrow> (\<forall>key l. fmlookup (mgs_syncerMap s) key = Some l \<longrightarrow> reachable l)"

text \<open>Only the syncer under one key is touched, and it is not lost.\<close>

definition touches_syncer :: "servicePort \<Rightarrow> 'c manager_state \<Rightarrow> 'c manager_state \<Rightarrow> bool" where
  "touches_syncer key s s' \<longleftrightarrow> mgs_svcPortMap s' = mgs_svcPortMap s \<and> mgs_cloud_st s' = mgs_cloud_st s \<and>
     (\<forall>k. k \<noteq> key \<longrightarrow> fmlookup (mgs_syncerMap s') k = fmlookup (mgs_syncerMap s) k) \<and>
     (fmlookup (mgs_syncerMap s) key \<noteq> None \<longrightarrow> fmlookup (mgs_syncerMap s') key \<noteq> None)"

definition runs :: "'c manager_state \<Rightarrow> servicePort \<Rightarrow> bool" where
  "runs s key \<longleftrightarrow> (\<exists>l. fmlookup (mgs_syncerMap s) key = Some l \<and> \<not> IsStopped l)"

lemma lives_ok_put [simp]: "lives_ok s \<Longrightarrow> reachable l \<Longrightarrow> lives_ok (put_syncer key l s)"
  by (simp add: lives_ok_def put_syncer_def)

lemma touches_put [simp]: "touches_syncer key s (put_syncer key l s)"
  by (simp add: touches_syncer_def put_syncer_def)

lemma touches_syncer_refl [simp]: "touches_syncer key s s"
  by (simp add: touches_syncer_def)

lemma runs_put [simp]: "runs (put_syncer key l s) k \<longleftrightarrow> (if k = key then \<not> IsStopped l else runs s k)"
  by (simp add: runs_def put_syncer_def)

lemma lookup_put [simp]:
  "fmlookup (mgs_syncerMap (put_syncer key l s)) k = (if k = key then Some l else fmlookup (mgs_syncerMap s) k)"
  by (simp add: put_syncer_def)

lemma wp_stop_if_there:
  assumes "lives_ok s"
  shows "wp (stop_if_there key)
     (\<lambda>r s'. r = Ok () \<and> lives_ok s' \<and> touches_syncer key s s' \<and> \<not> runs s' key) s"
proof (cases "fmlookup (mgs_syncerMap s) key")
  case None
  with assms show ?thesis by (simp add: stop_if_there_def wp_simps runs_def)
next
  case (Some l)
  with assms have "reachable l" by (auto simp: lives_ok_def)
  from wp_mono [OF neg_Stop_reachable [OF this]] show ?thesis
    unfolding stop_if_there_def wp_simps
    by (simp add: Some wp_on_syncer assms wp_simps)
qed

lemma wp_ensure_syncer:
  assumes "lives_ok s" "NEG (mg_namer mg) namespace name port = Ok neg"
  defines "key \<equiv> getSyncerKey namespace name port"
  shows "wp (ensure_syncer mg namespace name port)
     (\<lambda>r s'. lives_ok s' \<and> touches_syncer key s s' \<and>
        (case r of
           Ok _ \<Rightarrow> runs s' key \<and> \<not> (\<exists>l. fmlookup (mgs_syncerMap s) key = Some l \<and> IsShuttingDown l)
         | Err _ \<Rightarrow> (\<exists>l. fmlookup (mgs_syncerMap s) key = Some l \<and> IsShuttingDown l) \<and>
                    fmlookup (mgs_syncerMap s') key = fmlookup (mgs_syncerMap s) key
         | Panics _ \<Rightarrow> False)) s" (is "wp _ ?Q s")
proof -
  have start: "wp (bind (ask_syncer key IsStopped)
      (\<lambda>stopped. if stopped then on_syncer key neg_Start else ret ())) ?Q s1"
    if s1: "lives_ok s1" "touches_syncer key s s1" "fmlookup (mgs_syncerMap s1) key = Some l"
      "fmlookup (mgs_syncerMap s) key = Some l \<or> fmlookup (mgs_syncerMap s) key = None \<and> \<not> IsShuttingDown l" for s1 l
  proof -
    have l: "reachable l" using s1 by (auto simp: lives_ok_def)
    show ?thesis
  proof (cases "IsStopped l")
    case True
    have "touches_syncer key s (put_syncer key l' s1)" for l'
      using s1(2) by (simp add: touches_syncer_def put_syncer_def)
    then have "wp neg_Start (\<lambda>r l'. ?Q r (put_syncer key l' s1)) l"
      by (intro wp_mono [OF neg_Start_reachable [OF l True]])
        (use s1 True in \<open>auto split: outcome.splits\<close>)
    with True s1(3) show ?thesis by (simp add: wp_bind wp_ask_syncer wp_on_syncer)
  next
    case False
    moreover have "\<not> IsShuttingDown l" using False reachable_inv [OF l] by (auto simp: one_loop_def)
    ultimately show ?thesis using s1 by (auto simp: wp_bind wp_ask_syncer wp_ret runs_def)
  qed
  qed
  show ?thesis
  proof (cases "fmlookup (mgs_syncerMap s) key")
    case None
    have "reachable newSyncer" "\<not> IsShuttingDown newSyncer"
      by (rule reachable.new) (simp add: newSyncer_def flag_defs)
    with start [of "put_syncer key newSyncer s" newSyncer] None assms(1,2) show ?thesis
      by (simp add: ensure_syncer_def Let_def wp_bind wp_has_syncer wp_lift_outcome wp_modify_state
          flip: key_def)
  next
    case (Some l)
    with start [of s l] assms(1) show ?thesis
      by (simp add: ensure_syncer_def Let_def wp_bind wp_has_syncer wp_ret flip: key_def)
  qed
qed

text \<open>Only the syncers under the given keys are touched.\<close>

definition touches_syncers :: "servicePort set \<Rightarrow> 'c manager_state \<Rightarrow> 'c manager_state \<Rightarrow> bool" where
  "touches_syncers K s s' \<longleftrightarrow> mgs_svcPortMap s' = mgs_svcPortMap s \<and> mgs_cloud_st s' = mgs_cloud_st s \<and>
     (\<forall>k. k \<notin> K \<longrightarrow> fmlookup (mgs_syncerMap s') k = fmlookup (mgs_syncerMap s) k)"

lemma touches_syncers_refl [simp]: "touches_syncers K s s"
  by (simp add: touches_syncers_def)

lemma touches_syncers_snoc:
  "touches_syncers K s s1 \<Longrightarrow> touches_syncer k s1 s2 \<Longrightarrow> touches_syncers (insert k K) s s2"
  by (simp add: touches_syncers_def touches_syncer_def)

lemma touches_syncers_trans:
  "touches_syncers K s s1 \<Longrightarrow> touches_syncers K' s1 s2 \<Longrightarrow> touches_syncers (K \<union> K') s s2"
  by (simp add: touches_syncers_def)

lemma runs_touched: "touches_syncer key s s' \<Longrightarrow> k \<noteq> key \<Longrightarrow> runs s' k = runs s k"
  by (simp add: touches_syncer_def runs_def)

lemma runs_untouched: "touches_syncers K s s' \<Longrightarrow> k \<notin> K \<Longrightarrow> runs s' k = runs s k"
  by (simp add: touches_syncers_def runs_def)

lemma getSyncerKey_inject [simp]: "getSyncerKey ns n p = getSyncerKey ns n q \<longleftrightarrow> p = q"
  by (simp add: getSyncerKey_def)

lemma wp_stop_all:
  assumes "lives_ok s"
  shows "wp (for_each (\<lambda>p. stop_if_there (getSyncerKey ns n p)) ps)
     (\<lambda>r s'. r = Ok () \<and> lives_ok s' \<and> touches_syncers (getSyncerKey ns n ` set ps) s s' \<and>
        (\<forall>p \<in> set ps. \<not> runs s' (getSyncerKey ns n p))) s"
proof (rule wp_for_each [where I = "\<lambda>dn s'. lives_ok s' \<and> touches_syncers (getSyncerKey ns n ` set dn) s s' \<and>
        (\<forall>p \<in> set dn. \<not> runs s' (getSyncerKey ns n p))"], goal_cases)
  case (2 dn x rest s1)
  then have "lives_ok s1" by simp
  then show ?case
  proof (rule wp_mono [OF wp_stop_if_there [of s1 "getSyncerKey ns n x"]], goal_cases)
    case (1 r s2)
    moreover have "\<not> runs s2 (getSyncerKey ns n p)" if "p \<in> set dn" for p
      using runs_touched [of "getSyncerKey ns n x" s1 s2 "getSyncerKey ns n p"] 1 that 2(2)
      by (cases "p = x") auto
    ultimately show ?case using 2(2) by (auto intro: touches_syncers_snoc)
  qed
qed (use assms in auto)

lemma wp_ensure_all:
  assumes "lives_ok s" "distinct ps"
    and names: "\<And>p. p \<in> set ps \<Longrightarrow> \<exists>neg. NEG (mg_namer mg) ns n p = Ok neg"
    and calm: "\<And>p l. p \<in> set ps \<Longrightarrow> fmlookup (mgs_syncerMap s) (getSyncerKey ns n p) = Some l \<Longrightarrow> \<not> IsShuttingDown l"
  shows "wp (collect_errs (ensure_syncer mg ns n) ps)
     (\<lambda>r s'. r = Ok [] \<and> lives_ok s' \<and> touches_syncers (getSyncerKey ns n ` set ps) s s' \<and>
        (\<forall>p \<in> set ps. runs s' (getSyncerKey ns n p))) s"
proof (rule wp_collect_errs_ok [where I = "\<lambda>dn s'. lives_ok s' \<and> touches_syncers (getSyncerKey ns n ` set dn) s s' \<and>
        (\<forall>p \<in> set dn. runs s' (getSyncerKey ns n p))"], goal_cases)
  case (2 dn x rest s1)
  let ?k = "getSyncerKey ns n x"
  have "x \<notin> set dn" using assms(2) 2(1) by simp
  then have "?k \<notin> getSyncerKey ns n ` set dn" by auto
  with 2(2) have same: "fmlookup (mgs_syncerMap s1) ?k = fmlookup (mgs_syncerMap s) ?k"
    by (simp add: touches_syncers_def)
  have x: "x \<in> set ps" using 2(1) by simp
  then obtain neg where neg: "NEG (mg_namer mg) ns n x = Ok neg" using names by blast
  from 2(2) have "lives_ok s1" by simp
  from wp_ensure_syncer [OF this neg] show ?case
  proof (rule wp_mono, goal_cases)
    case (1 r s2)
    then have ok: "r = Ok ()" using calm [OF x] same by (cases r) auto
    have "runs s2 (getSyncerKey ns n p)" if "p \<in> set dn" for p
      using runs_touched [of ?k s1 s2 "getSyncerKey ns n p"] 1 that 2(2) \<open>x \<notin> set dn\<close> by auto
    with 1 2(2) ok show ?case by (auto intro: touches_syncers_snoc)
  qed
qed (use assms(1) in auto)

lemma distinct_set_List [simp]: "distinct (set_List A)"
  by (simp add: set_List_def)

lemma wp_EnsureSyncers:
  assumes lives: "lives_ok s" and fin: "finite T" "finite (ports_of s (getServiceKey ns n))"
    and names: "\<And>p. p \<in> T \<Longrightarrow> \<exists>neg. NEG (mg_namer mg) ns n p = Ok neg"
    and calm: "\<And>p l. p \<in> T - ports_of s (getServiceKey ns n) \<Longrightarrow>
        fmlookup (mgs_syncerMap s) (getSyncerKey ns n p) = Some l \<Longrightarrow> \<not> IsShuttingDown l"
    and running: "\<And>p. p \<in> T \<inter> ports_of s (getServiceKey ns n) \<Longrightarrow> runs s (getSyncerKey ns n p)"
  shows "wp (EnsureSyncers mg ns n T)
     (\<lambda>r s'. r = Ok () \<and> lives_ok s' \<and> mgs_svcPortMap s' = fmupd (getServiceKey ns n) T (mgs_svcPortMap s) \<and>
        (\<forall>p \<in> T. runs s' (getSyncerKey ns n p)) \<and>
        (\<forall>p \<in> ports_of s (getServiceKey ns n) - T. \<not> runs s' (getSyncerKey ns n p)) \<and>
        (\<forall>k. k \<notin> range (getSyncerKey ns n) \<longrightarrow> fmlookup (mgs_syncerMap s') k = fmlookup (mgs_syncerMap s) k)) s"
proof -
  let ?K = "getSyncerKey ns n" and ?cur = "ports_of s (getServiceKey ns n)"
  let ?s0 = "s\<lparr>mgs_svcPortMap := fmupd (getServiceKey ns n) T (mgs_svcPortMap s)\<rparr>"
  have lives0: "lives_ok ?s0" using lives by (simp add: lives_ok_def)
  have fins: "finite (?cur - T)" "finite (T - ?cur)" using fin by auto
  show ?thesis
    unfolding EnsureSyncers_def Let_def wp_simps on_ok_eta
  proof (rule wp_mono [OF wp_stop_all [OF lives0]], goal_cases)
    case (1 r s1)
    then have s1: "r = Ok ()" "lives_ok s1" "touches_syncers (?K ` (?cur - T)) ?s0 s1"
      "\<And>p. p \<in> ?cur - T \<Longrightarrow> \<not> runs s1 (?K p)"
      using fins by auto
    have calm1: "\<not> IsShuttingDown l" if "p \<in> T - ?cur" "fmlookup (mgs_syncerMap s1) (?K p) = Some l" for p l
    proof -
      have "?K p \<notin> ?K ` (?cur - T)" using that(1) by auto
      with that(2) s1(3) have "fmlookup (mgs_syncerMap s) (?K p) = Some l" by (simp add: touches_syncers_def)
      with calm that(1) show ?thesis by blast
    qed
    have "wp (collect_errs (ensure_syncer mg ns n) (set_List (T - ?cur)))
       (\<lambda>r s'. r = Ok [] \<and> lives_ok s' \<and> touches_syncers (?K ` (T - ?cur)) s1 s' \<and>
          (\<forall>p \<in> T - ?cur. runs s' (?K p))) s1"
      using wp_ensure_all [OF s1(2), of "set_List (T - ?cur)" mg ns n] names calm1 fins by simp
    then show ?case
      unfolding s1(1) on_ok_eta
    proof (rule wp_mono, goal_cases)
      case (1 r s2)
      have keep: "runs s2 (?K p)" if "p \<in> T \<inter> ?cur" for p
      proof -
        have "?K p \<notin> ?K ` (?cur - T)" "?K p \<notin> ?K ` (T - ?cur)" using that by auto
        with 1 s1(3) have "runs s2 (?K p) = runs ?s0 (?K p)" using runs_untouched by metis
        with running [OF that] show ?thesis by (simp add: runs_def)
      qed
      moreover have "\<not> runs s2 (?K p)" if "p \<in> ?cur - T" for p
      proof -
        have "?K p \<notin> ?K ` (T - ?cur)" using that by auto
        with 1 s1(4) [OF that] show ?thesis using runs_untouched by metis
      qed
      moreover have "fmlookup (mgs_syncerMap s2) k = fmlookup (mgs_syncerMap s) k" if "k \<notin> range ?K" for k
      proof -
        have "k \<notin> ?K ` (?cur - T)" "k \<notin> ?K ` (T - ?cur)" using that by auto
        with 1 s1(3) show ?thesis by (simp add: touches_syncers_def)
      qed
      moreover have "mgs_svcPortMap s2 = fmupd (getServiceKey ns n) T (mgs_svcPortMap s)"
        using 1 s1(3) by (simp add: touches_syncers_def)
      ultimately show ?case using 1 by (auto simp: wp_simps)
    qed
  qed
qed

text \<open>Nothing is done when the recorded ports are the wanted ones.\<close>

lemma EnsureSyncers_same:
  assumes "fmlookup (mgs_svcPortMap s) (getServiceKey ns n) = Some T"
  shows "EnsureSyncers mg ns n T s = (Ok (), s)"
proof -
  have "fmupd (getServiceKey ns n) T (mgs_svcPortMap s) = mgs_svcPortMap s"
    by (rule fmap_ext) (use assms in auto)
  with assms show ?thesis
    by (simp add: EnsureSyncers_def Let_def ports_of_def bind_def read_state_def modify_state_def ret_def
        set_List_def lift_outcome_def new_aggregate_def)
qed

lemma lives_ok_ports [simp]: "lives_ok (s\<lparr>mgs_svcPortMap := m\<rparr>) = lives_ok s"
  by (simp add: lives_ok_def)

text \<open>A port whose syncer still shuts down makes the call fail, and its syncer stays as it is.\<close>

lemma wp_EnsureSyncers_shutting_down:
  assumes lives: "lives_ok s" and fin: "finite T" "finite (ports_of s (getServiceKey ns n))"
    and names: "\<And>p. p \<in> T \<Longrightarrow> \<exists>neg. NEG (mg_namer mg) ns n p = Ok neg"
    and p: "p \<in> T - ports_of s (getServiceKey ns n)"
      "fmlookup (mgs_syncerMap s) (getSyncerKey ns n p) = Some l" "IsShuttingDown l"
  shows "wp (EnsureSyncers mg ns n T)
     (\<lambda>r s'. (\<exists>e. r = Err e) \<and> fmlookup (mgs_syncerMap s') (getSyncerKey ns n p) = Some l \<and>
        mgs_svcPortMap s' = fmupd (getServiceKey ns n) T (mgs_svcPortMap s)) s"
proof -
  let ?K = "getSyncerKey ns n" and ?cur = "ports_of s (getServiceKey ns n)"
  let ?s0 = "s\<lparr>mgs_svcPortMap := fmupd (getServiceKey ns n) T (mgs_svcPortMap s)\<rparr>"
  let ?I = "\<lambda>s'. lives_ok s' \<and> fmlookup (mgs_syncerMap s') (?K p) = Some l \<and> mgs_svcPortMap s' = mgs_svcPortMap ?s0"
  have lives0: "lives_ok ?s0" using lives by simp
  have fins: "finite (?cur - T)" "finite (T - ?cur)" using fin by auto
  have one: "wp (ensure_syncer mg ns n x)
      (\<lambda>r s'. ?I s' \<and> (\<forall>q. r \<noteq> Panics q) \<and> (x = p \<longrightarrow> (\<forall>u. r \<noteq> Ok u))) s1"
    if s1: "?I s1" and x: "x \<in> T - ?cur" for x s1
  proof -
    obtain neg where "NEG (mg_namer mg) ns n x = Ok neg" using names x by blast
    with s1 have "wp (ensure_syncer mg ns n x) (\<lambda>r s'. lives_ok s' \<and> touches_syncer (?K x) s1 s' \<and> (case r of
        Ok _ \<Rightarrow> runs s' (?K x) \<and> \<not> (\<exists>l. fmlookup (mgs_syncerMap s1) (?K x) = Some l \<and> IsShuttingDown l)
      | Err _ \<Rightarrow> (\<exists>l. fmlookup (mgs_syncerMap s1) (?K x) = Some l \<and> IsShuttingDown l) \<and>
                 fmlookup (mgs_syncerMap s') (?K x) = fmlookup (mgs_syncerMap s1) (?K x)
      | Panics _ \<Rightarrow> False)) s1"
      by (intro wp_ensure_syncer) auto
    then show ?thesis
    proof (rule wp_mono, goal_cases)
      case (1 r s2)
      with s1 p(3) show ?case
        by (cases "x = p"; cases r) (auto simp: touches_syncer_def)
    qed
  qed
  have all: "wp (collect_errs (ensure_syncer mg ns n) (set_List (T - ?cur)))
      (\<lambda>r s'. (?I s' \<and> (\<exists>es. r = Ok es)) \<and>
         (case r of Ok es \<Rightarrow> es = [] \<longrightarrow> ?I s' \<and> p \<notin> set (set_List (T - ?cur)) | Err _ \<Rightarrow> False | Panics _ \<Rightarrow> True)) s1"
    if s1: "?I s1" for s1
  proof (rule wp_conj)
    show "wp (collect_errs (ensure_syncer mg ns n) (set_List (T - ?cur))) (\<lambda>r s'. ?I s' \<and> (\<exists>es. r = Ok es)) s1"
      using fins s1 by (intro wp_collect_errs_total) (auto intro: wp_mono [OF one])
    show "wp (collect_errs (ensure_syncer mg ns n) (set_List (T - ?cur)))
       (\<lambda>r s'. case r of Ok es \<Rightarrow> es = [] \<longrightarrow> ?I s' \<and> p \<notin> set (set_List (T - ?cur)) | Err _ \<Rightarrow> False | Panics _ \<Rightarrow> True) s1"
    proof (rule wp_collect_errs [where I = "\<lambda>dn s'. ?I s' \<and> p \<notin> set dn"], goal_cases)
      case (2 dn x rest s2)
      then have "x \<in> T - ?cur" using fins(2) by (metis in_set_conv_decomp set_set_List)
      with 2(2) show ?case by (intro wp_mono [OF one]) (auto split: outcome.splits)
    qed (use s1 in simp)
  qed
  show ?thesis
    unfolding EnsureSyncers_def Let_def wp_simps on_ok_eta
  proof (rule wp_mono [OF wp_stop_all [OF lives0]], goal_cases)
    case (1 r s1)
    have "?K p \<notin> ?K ` (?cur - T)" using p(1) by auto
    with 1 p(2) fins have s1: "r = Ok ()" "?I s1" by (auto simp: touches_syncers_def)
    show ?case
      unfolding s1(1) on_ok_eta
    proof (rule wp_mono [OF all [OF s1(2)]], goal_cases)
      case (1 r s2)
      with p(1) fins show ?case by (auto simp: wp_simps new_aggregate_def split: outcome.splits)
    qed
  qed
qed

section \<open>Every method keeps the invariant\<close>

lemma lives_ok_cloud [simp]: "lives_ok (s\<lparr>mgs_cloud_st := c\<rparr>) = lives_ok s"
  by (simp add: lives_ok_def)

lemma lives_ok_drop [simp]: "lives_ok s \<Longrightarrow> lives_ok (s\<lparr>mgs_syncerMap := fmdrop key (mgs_syncerMap s)\<rparr>)"
  by (simp add: lives_ok_def)

lemma lives_on_syncer:
  assumes "lives_ok s" "\<And>l. reachable l \<Longrightarrow> wp m (\<lambda>_. reachable) l"
  shows "wp (on_syncer key m) (\<lambda>_. lives_ok) s"
proof (cases "fmlookup (mgs_syncerMap s) key")
  case None
  with assms(1) show ?thesis by (simp add: wp_def on_syncer_def)
next
  case (Some l)
  then have "reachable l" using assms(1) by (auto simp: lives_ok_def)
  from assms(2) [OF this] show ?thesis
    unfolding wp_on_syncer [OF Some] by (rule wp_mono) (simp add: assms(1))
qed

lemma lives_ask_syncer: "lives_ok s \<Longrightarrow> wp (ask_syncer key f) (\<lambda>_. lives_ok) s"
  by (simp add: wp_def ask_syncer_def split: option.split)

lemma lives_read: "lives_ok s \<Longrightarrow> wp (read_state f) (\<lambda>_. lives_ok) s"
  by (simp add: wp_simps)

lemma lives_lift: "lives_ok s \<Longrightarrow> wp (lift_outcome r) (\<lambda>_. lives_ok) s"
  by (simp add: wp_simps)

lemma lives_ret: "lives_ok s \<Longrightarrow> wp (ret a) (\<lambda>_. lives_ok) s"
  by (simp add: wp_simps)

lemma lives_has: "lives_ok s \<Longrightarrow> wp (has_syncer key) (\<lambda>_. lives_ok) s"
  by (simp add: wp_simps)

lemma lives_on_cloud: "lives_ok s \<Longrightarrow> wp (on_neg_cloud m) (\<lambda>_. lives_ok) s"
  by (simp add: on_neg_cloud_def wp_simps wp_def split: prod.split)

lemma reachable_Start: "reachable l \<Longrightarrow> wp neg_Start (\<lambda>_. reachable) l"
  by (rule wpI) (blast intro: reachable.step neg_step.start)

lemma reachable_Stop: "reachable l \<Longrightarrow> wp neg_Stop (\<lambda>_. reachable) l"
  by (rule wpI) (blast intro: reachable.step neg_step.stop)

lemma reachable_Sync: "reachable l \<Longrightarrow> wp neg_Sync (\<lambda>_. reachable) l"
  by (rule wpI) (blast intro: reachable.step neg_step.signal)

lemma lives_modify: "lives_ok s \<Longrightarrow> lives_ok (f s) \<Longrightarrow> wp (modify_state f) (\<lambda>_. lives_ok) s"
  by (simp add: wp_simps)

lemmas lives_rules = wp_bind_inv wp_bind_err_inv wp_wrap_err_inv wp_for_each_inv wp_map_each_inv
  wp_collect_errs_inv lives_on_syncer lives_ask_syncer lives_read lives_lift lives_ret lives_has
  lives_on_cloud lives_modify reachable_Start reachable_Stop reachable_Sync

lemma lives_stop_if_there: "lives_ok s \<Longrightarrow> wp (stop_if_there key) (\<lambda>_. lives_ok) s"
  by (rule wp_mono [OF wp_stop_if_there]) simp_all

lemma lives_ensure_syncer: "lives_ok s \<Longrightarrow> wp (ensure_syncer mg ns n p) (\<lambda>_. lives_ok) s"
  unfolding ensure_syncer_def Let_def
  by (intro wp_bind_inv lives_has; (auto intro!: lives_rules simp: reachable.new)?)

lemma lives_EnsureSyncers: "lives_ok s \<Longrightarrow> wp (EnsureSyncers mg ns n T) (\<lambda>_. lives_ok) s"
  unfolding EnsureSyncers_def Let_def
  by (intro wp_bind_inv wp_for_each_inv wp_collect_errs_inv lives_read lives_lift lives_stop_if_there
      lives_ensure_syncer lives_modify) simp_all

lemma lives_StopSyncer: "lives_ok s \<Longrightarrow> wp (StopSyncer ns n) (\<lambda>_. lives_ok) s"
  unfolding StopSyncer_def Let_def
  by (intro wp_bind_inv lives_read)
    (auto split: option.split intro!: lives_ret wp_bind_inv wp_for_each_inv lives_stop_if_there lives_modify)

lemma lives_mgr_Sync: "lives_ok s \<Longrightarrow> wp (mgr_Sync ns n) (\<lambda>_. lives_ok) s"
  unfolding mgr_Sync_def signal_if_running_def
  by (intro wp_bind_inv lives_read)
    (auto split: option.split intro!: lives_rules)

lemma lives_ShutDown: "lives_ok s \<Longrightarrow> wp (ShutDown mg) (\<lambda>_. lives_ok) s"
  unfolding ShutDown_def by (intro lives_rules)

lemma lives_mgr_GC: "lives_ok s \<Longrightarrow> wp (mgr_GC mg) (\<lambda>_. lives_ok) s"
  unfolding mgr_GC_def getAllStoppedSyncerKeys_def garbageCollectSyncer_def garbageCollectNEG_def
    ensureDeleteNetworkEndpointGroup_def Let_def
  by (intro wp_bind_inv lives_read wp_for_each_inv wp_wrap_err_inv lives_on_cloud lives_ask_syncer wp_map_each_inv)
    (auto intro!: lives_rules split: sum.split prod.split)

text \<open>Any sequence of methods, with steps of the goroutines and of the cloud in between.\<close>

inductive mgr_step :: "'c syncerManager \<Rightarrow> 'c manager_state \<Rightarrow> 'c manager_state \<Rightarrow> bool" for mg where
  ensure: "EnsureSyncers mg ns n T s = (r, s') \<Longrightarrow> mgr_step mg s s'"
| stops: "StopSyncer ns n s = (r, s') \<Longrightarrow> mgr_step mg s s'"
| signals: "mgr_Sync ns n s = (r, s') \<Longrightarrow> mgr_step mg s s'"
| shuts: "ShutDown mg s = (r, s') \<Longrightarrow> mgr_step mg s s'"
| collects: "mgr_GC mg s = (r, s') \<Longrightarrow> mgr_step mg s s'"
| goroutine: "fmlookup (mgs_syncerMap s) key = Some l \<Longrightarrow> neg_step l e l' \<Longrightarrow> own_event e \<Longrightarrow>
    mgr_step mg s (put_syncer key l' s)"
| cloud: "mgr_step mg s (s\<lparr>mgs_cloud_st := c\<rparr>)"

inductive mgr_reachable :: "'c syncerManager \<Rightarrow> 'c manager_state \<Rightarrow> bool" for mg where
  new: "mgr_reachable mg (newSyncerManager c)"
| step: "mgr_reachable mg s \<Longrightarrow> mgr_step mg s s' \<Longrightarrow> mgr_reachable mg s'"

lemma lives_mgr_step: "mgr_step mg s s' \<Longrightarrow> lives_ok s \<Longrightarrow> lives_ok s'"
proof (induction rule: mgr_step.induct)
  case (goroutine s key l e l')
  then have "reachable l" by (auto simp: lives_ok_def)
  then have "reachable l'" by (rule reachable.step [OF _ goroutine(2)])
  with goroutine show ?case by simp
qed (auto dest: wpD [OF lives_EnsureSyncers] wpD [OF lives_StopSyncer] wpD [OF lives_mgr_Sync]
    wpD [OF lives_ShutDown] wpD [OF lives_mgr_GC])

lemma lives_reachable: "mgr_reachable mg s \<Longrightarrow> lives_ok s"
proof (induction rule: mgr_reachable.induct)
  case new
  show ?case by (simp add: lives_ok_def newSyncerManager_def)
qed (rule lives_mgr_step)

lemma wp_signal_if_running:
  assumes "lives_ok s"
  shows "wp (signal_if_running key) (\<lambda>r s'. r = Ok () \<and> lives_ok s') s"
proof (cases "fmlookup (mgs_syncerMap s) key")
  case None
  with assms show ?thesis by (simp add: signal_if_running_def wp_simps)
next
  case (Some l)
  then have l: "reachable l" using assms by (auto simp: lives_ok_def)
  have "wp neg_Sync (on_ok (\<lambda>_ l'. lives_ok (put_syncer key l' s)) (\<lambda>(r :: unit outcome) l'. False)) l"
    by (rule wp_mono [OF neg_Sync_reachable [OF l]]) (use assms in auto)
  then have "wp (on_syncer key neg_Sync) (on_ok (\<lambda>_. lives_ok) (\<lambda>(r :: unit outcome) s'. r = Ok () \<and> lives_ok s')) s"
    unfolding wp_on_syncer [OF Some] by (rule wp_mono) (auto simp: on_ok_def split: outcome.splits)
  with assms Some show ?thesis
    by (simp add: signal_if_running_def wp_bind wp_has_syncer wp_ask_syncer wp_ret wp_if)
qed

lemma wp_signal_all:
  assumes "lives_ok s"
  shows "wp (for_each (\<lambda>p. signal_if_running (f p)) ps) (\<lambda>r s'. r = Ok ()) s"
  by (rule wp_for_each [where I = "\<lambda>_. lives_ok"]) (use assms in \<open>auto intro: wp_mono [OF wp_signal_if_running]\<close>)

section \<open>Garbage collection of groups\<close>

lemma wp_map_each_lift:
  "wp (map_each (\<lambda>x. lift_outcome (f x)) xs) (\<lambda>r s'. s' = s \<and> (\<forall>ys. r = Ok ys \<longrightarrow> map Ok ys = map f xs)) s"
proof (rule wp_map_each [where I = "\<lambda>dn ys s'. s' = s \<and> map Ok ys = map f dn"], goal_cases)
  case (2 dn ys x rest s1)
  then show ?case by (cases "f x") (auto simp: wp_simps)
qed auto

text \<open>The name of a group that some service port needs.\<close>

definition wanted :: "'c syncerManager \<Rightarrow> 'c manager_state \<Rightarrow> string \<Rightarrow> bool" where
  "wanted mg s name \<longleftrightarrow> (\<exists>key \<in> keys (mgs_svcPortMap s). \<exists>p \<in> ports_of s key.
     NEG (mg_namer mg) (sk_namespace key) (sk_name key) p = Ok name)"

lemma set_wanted_ports:
  assumes "map_range (mg_rng_services mg)" "\<And>key. finite (ports_of s key)"
  shows "set (wanted_ports mg s) = {(key, p). key \<in> keys (mgs_svcPortMap s) \<and> p \<in> ports_of s key}"
  using map_range.set_rng_keys [OF assms(1)] assms(2) by (auto simp: wanted_ports_def)

lemma mem_own_neg_names: "n \<in> own_neg_names namer m \<longleftrightarrow>
    IsNEG namer n \<and> (\<exists>z. z \<in> keys m \<and> n \<in> neg_Name ` set (the (fmlookup m z)))"
  by (auto simp: own_neg_names_def)

locale manager_over = neg_cloud "mg_cloud mg" groups members
  for mg :: "'c syncerManager" and groups :: "'c \<Rightarrow> NetworkEndpointGroup option neg_view"
    and members :: "'c \<Rightarrow> NetworkEndpoint set neg_view"
begin

abbreviation mgr_groups :: "'c manager_state \<Rightarrow> NetworkEndpointGroup option neg_view" where
  "mgr_groups s \<equiv> groups (mgs_cloud_st s)"

text \<open>A cloud that fails to return a group only when there is none.\<close>

definition reliable :: bool where
  "reliable \<longleftrightarrow> (\<forall>c n z e c'. GetNetworkEndpointGroup (mg_cloud mg) n z c = (Err e, c') \<longrightarrow> groups c n z = None)"

definition same_maps :: "'c manager_state \<Rightarrow> 'c manager_state \<Rightarrow> bool" where
  "same_maps s s' \<longleftrightarrow> mgs_svcPortMap s' = mgs_svcPortMap s \<and> mgs_syncerMap s' = mgs_syncerMap s"

lemma wp_ensureDelete:
  "wp (ensureDeleteNetworkEndpointGroup mg name zone)
     (\<lambda>r s'. same_maps s s' \<and> only_at name zone (mgr_groups s) (mgr_groups s') \<and>
        (r = Ok () \<and> reliable \<longrightarrow> mgr_groups s' name zone = None)) s"
  unfolding ensureDeleteNetworkEndpointGroup_def on_neg_cloud_def wp_bind_err wp_on_part
proof (rule wp_mono [OF wp_conj [OF get_law wpI [where Q = "\<lambda>r c'. reliable \<and> (\<exists>e. r = Err e) \<longrightarrow>
        groups (mgs_cloud_st s) name zone = None"]]], goal_cases)
  case (1 r c')
  then show ?case by (auto simp: reliable_def)
next
  case (2 r c1)
  show ?case
  proof (cases r)
    case (Ok neg)
    have "wp (DeleteNetworkEndpointGroup (mg_cloud mg) name zone)
        (\<lambda>r t. only_at name zone (mgr_groups s) (groups t) \<and> (r = Ok () \<longrightarrow> groups t name zone = None)) c1"
      by (rule wp_mono [OF delete_law]) (use 2 in auto)
    then show ?thesis
      by (simp add: Ok wp_on_part same_maps_def) (auto elim!: wp_mono)
  next
    case (Err e)
    with 2 show ?thesis by (auto simp: wp_ret same_maps_def only_at_def)
  next
    case (Panics p)
    with 2 show ?thesis by (simp add: same_maps_def only_at_def)
  qed
qed

definition names_kept :: "string set \<Rightarrow> 'c manager_state \<Rightarrow> 'c manager_state \<Rightarrow> bool" where
  "names_kept N s s' \<longleftrightarrow> same_maps s s' \<and> (\<forall>n z. n \<notin> N \<longrightarrow> mgr_groups s' n z = mgr_groups s n z)"

text \<open>The state of the groups after those at \<open>P\<close> were deleted, all of them with names in \<open>N\<close>.\<close>

definition deleted_at ::
  "string set \<Rightarrow> (string \<times> string) set \<Rightarrow> 'c manager_state \<Rightarrow> 'c manager_state \<Rightarrow> bool" where
  "deleted_at N P s s' \<longleftrightarrow> names_kept N s s' \<and>
     (reliable \<longrightarrow> (\<forall>n z. mgr_groups s' n z = (if (n, z) \<in> P then None else mgr_groups s n z)))"

lemma kept_one:
  assumes "names_kept N s s1" "name \<in> N" "same_maps s1 s2" "only_at name zone (mgr_groups s1) (mgr_groups s2)"
  shows "names_kept N s s2"
  using assms unfolding names_kept_def same_maps_def only_at_def by (metis Pair_inject)

lemma deleted_one:
  assumes "deleted_at N P s s1" "name \<in> N" "same_maps s1 s2" "only_at name zone (mgr_groups s1) (mgr_groups s2)"
    and "reliable \<longrightarrow> mgr_groups s2 name zone = None"
  shows "deleted_at N (insert (name, zone) P) s s2"
proof -
  have "names_kept N s s2" using kept_one assms(1-4) by (auto simp: deleted_at_def)
  moreover have "mgr_groups s2 n z = (if (n, z) \<in> insert (name, zone) P then None else mgr_groups s n z)"
    if reliable for n z
  proof (cases "(n, z) = (name, zone)")
    case False
    then have "mgr_groups s2 n z = mgr_groups s1 n z" using assms(4) by (auto simp: only_at_def)
    with False assms(1) that show ?thesis by (auto simp: deleted_at_def)
  qed (use assms(5) that in simp)
  ultimately show ?thesis by (simp add: deleted_at_def)
qed

lemma wp_delete_names:
  assumes "deleted_at N P s s0" "set ns \<subseteq> N"
  shows "wp (for_each (\<lambda>name. wrap_err (g name) (ensureDeleteNetworkEndpointGroup mg name zone)) ns)
     (\<lambda>r s'. names_kept N s s' \<and> (r = Ok () \<longrightarrow> deleted_at N (P \<union> set ns \<times> {zone}) s s')) s0"
proof (rule wp_for_each [where I = "\<lambda>dn. deleted_at N (P \<union> set dn \<times> {zone}) s"], goal_cases)
  case (2 dn name rest s1)
  have name: "name \<in> N" using 2(1) assms(2) by auto
  show ?case
    unfolding wp_wrap_err
  proof (rule wp_mono [OF wp_ensureDelete], goal_cases)
    case (1 r s2)
    have "names_kept N s s2" using kept_one [OF _ name] 1 2(2) by (auto simp: deleted_at_def)
    moreover have "deleted_at N (P \<union> set (dn @ [name]) \<times> {zone}) s s2" if "r = Ok ()"
      using deleted_one [OF 2(2) name, of s2 zone] 1 that by simp
    ultimately show ?case by (cases r) auto
  qed
qed (use assms in \<open>auto simp: deleted_at_def\<close>)

lemma wp_delete_zones:
  assumes "set ns = N"
  shows "wp (for_each (\<lambda>zone. for_each (\<lambda>name. wrap_err (g zone name)
        (ensureDeleteNetworkEndpointGroup mg name zone)) ns) zs)
     (\<lambda>r s'. names_kept N s s' \<and> (r = Ok () \<longrightarrow> deleted_at N (N \<times> set zs) s s')) s"
proof (rule wp_for_each [where I = "\<lambda>dn. deleted_at N (N \<times> set dn) s"], goal_cases)
  case 1
  show ?case by (simp add: deleted_at_def names_kept_def same_maps_def)
next
  case (2 dn zone rest s1)
  have eq: "N \<times> insert zone (set dn) = N \<times> set dn \<union> N \<times> {zone}" by auto
  show ?case
    by (rule wp_mono [OF wp_delete_names [OF 2(2), of ns, unfolded assms]])
      (simp_all add: eq on_ok_def split: outcome.split)
qed (auto simp: deleted_at_def)

lemma names_wanted:
  assumes rng: "map_range (mg_rng_services mg)" and fin: "\<And>key. finite (ports_of s key)"
    and names: "map Ok names = map (\<lambda>x. NEG (mg_namer mg) (sk_namespace (fst x)) (sk_name (fst x)) (snd x)) (wanted_ports mg s)"
  shows "n \<in> set names \<longleftrightarrow> wanted mg s n"
proof -
  let ?f = "\<lambda>x. NEG (mg_namer mg) (sk_namespace (fst x)) (sk_name (fst x)) (snd x)"
  have "n \<in> set names \<longleftrightarrow> Ok n \<in> set (map Ok names)" by auto
  also have "\<dots> \<longleftrightarrow> (\<exists>x \<in> set (wanted_ports mg s). Ok n = ?f x)" unfolding names by (simp add: image_iff)
  also have "\<dots> \<longleftrightarrow> wanted mg s n"
    unfolding wanted_def set_wanted_ports [OF rng fin] Bex_def split_paired_Ex mem_Collect_eq case_prod_conv
      fst_conv snd_conv eq_commute [of "Ok n"] by blast
  finally show ?thesis .
qed

text \<open>What a collection of groups does, when the order parameters range over what they are given.\<close>

definition collected :: "'c manager_state \<Rightarrow> unit outcome \<Rightarrow> 'c manager_state \<Rightarrow> bool" where
  "collected s r s' \<longleftrightarrow> same_maps s s' \<and>
     (\<forall>n z. \<not> IsNEG (mg_namer mg) n \<or> wanted mg s n \<longrightarrow> mgr_groups s' n z = mgr_groups s n z) \<and>
     (r = Ok () \<and> reliable \<longrightarrow> (\<forall>n z. mgr_groups s' n z \<noteq> None \<and> IsNEG (mg_namer mg) n \<longrightarrow> wanted mg s n))"

lemma collected_failed: "mgr_groups s' = mgr_groups s \<Longrightarrow> same_maps s s' \<Longrightarrow> r \<noteq> Ok () \<Longrightarrow> collected s r s'"
  by (simp add: collected_def)

lemma collected_ok: "collected s r s' \<Longrightarrow> (r' = Ok () \<Longrightarrow> r = Ok ()) \<Longrightarrow> collected s r' s'"
  unfolding collected_def by blast

lemma collected_cloud:
  assumes eq: "mgr_groups (s\<lparr>mgs_cloud_st := c\<rparr>) = mgr_groups s" and "collected (s\<lparr>mgs_cloud_st := c\<rparr>) r s'"
  shows "collected s r s'"
proof -
  have "wanted mg (s\<lparr>mgs_cloud_st := c\<rparr>) n = wanted mg s n" for n by (simp add: wanted_def ports_of_def)
  moreover have "same_maps (s\<lparr>mgs_cloud_st := c\<rparr>) s' = same_maps s s'" by (simp add: same_maps_def)
  ultimately show ?thesis using assms(2) unfolding collected_def eq by metis
qed

lemma collected_deleted:
  assumes N: "\<And>n. n \<in> N \<longleftrightarrow> IsNEG (mg_namer mg) n \<and> (\<exists>z. mgr_groups s n z \<noteq> None) \<and> \<not> wanted mg s n"
    and Z: "\<And>n z. mgr_groups s n z \<noteq> None \<Longrightarrow> z \<in> Z"
    and kept: "names_kept N s s'" "r = Ok () \<longrightarrow> deleted_at N (N \<times> Z) s s'"
  shows "collected s r s'"
proof -
  have "wanted mg s n" if r: "r = Ok ()" reliable and left: "mgr_groups s' n z \<noteq> None" "IsNEG (mg_namer mg) n" for n z
  proof (rule ccontr)
    assume unwanted: "\<not> wanted mg s n"
    have eq: "mgr_groups s' n z = (if (n, z) \<in> N \<times> Z then None else mgr_groups s n z)"
      using kept(2) r by (simp add: deleted_at_def)
    then have there: "mgr_groups s n z \<noteq> None" "(n, z) \<notin> N \<times> Z" using left(1) by (simp_all split: if_splits)
    have "n \<in> N" unfolding N using left(2) there(1) unwanted by blast
    moreover have "z \<in> Z" by (rule Z [OF there(1)])
    ultimately show False using there(2) by simp
  qed
  moreover have "mgr_groups s' n z = mgr_groups s n z" if "\<not> IsNEG (mg_namer mg) n \<or> wanted mg s n" for n z
  proof -
    have "n \<notin> N" unfolding N using that by blast
    then show ?thesis using kept(1) by (simp add: names_kept_def)
  qed
  moreover have "same_maps s s'" using kept(1) by (simp add: names_kept_def)
  ultimately show ?thesis unfolding collected_def by blast
qed

lemma wp_garbageCollectNEG:
  assumes rng: "map_range (mg_rng_services mg)" "map_range (mg_rng_zones mg)"
    and fin: "\<And>key. finite (ports_of s key)"
  shows "wp (garbageCollectNEG mg) (collected s) s"
  unfolding garbageCollectNEG_def on_neg_cloud_def wp_bind wp_wrap_err wp_on_part
proof (rule wp_mono [OF agg_law], goal_cases)
  case (1 r c)
  let ?s1 = "s\<lparr>mgs_cloud_st := c\<rparr>"
  have s1: "mgr_groups ?s1 = mgr_groups s" "same_maps s ?s1" using 1 by (simp_all add: same_maps_def)
  have to_s: "collected ?s1 r s' \<Longrightarrow> collected s r s'" for r s' by (rule collected_cloud [OF s1(1)])
  show ?case
  proof (cases r)
    case (Ok m)
    have m: "mgr_groups ?s1 n z \<noteq> None \<longleftrightarrow> z \<in> keys m \<and> n \<in> neg_Name ` set (the (fmlookup m z))" for n z
      using 1 Ok by simp
    show ?thesis
      unfolding Ok outcome.case on_ok_simps wp_read_state case_prod_unfold
    proof (rule wp_mono [OF wp_map_each_lift], goal_cases)
      case (1 r s2)
      show ?case
      proof (cases r)
        case (Ok names)
        let ?N = "own_neg_names (mg_namer mg) m - set names"
        have names: "n \<in> set names \<longleftrightarrow> wanted mg ?s1 n" for n
        proof (rule names_wanted [OF rng(1)])
          show "finite (ports_of ?s1 key)" for key using fin by (simp add: ports_of_def)
        qed (use 1 Ok in blast)
        have "finite ?N" by (simp add: own_neg_names_def)
        then have setN: "set (set_List ?N) = ?N" by simp
        have N: "n \<in> ?N \<longleftrightarrow> IsNEG (mg_namer mg) n \<and> (\<exists>z. mgr_groups ?s1 n z \<noteq> None) \<and> \<not> wanted mg ?s1 n" for n
          unfolding m Diff_iff names mem_own_neg_names by blast
        have zones: "set (mg_rng_zones mg (keys m)) = keys m" by (rule map_range.set_rng_keys [OF rng(2)])
        have "wp (for_each (\<lambda>zone. for_each (\<lambda>name.
                 wrap_err (\<lambda>e. Errorf (''failed to delete NEG '' @ name @ '' in '' @ zone) [e])
                   (ensureDeleteNetworkEndpointGroup mg name zone)) (set_List ?N)) (mg_rng_zones mg (keys m)))
             (collected s) ?s1"
        proof (rule wp_mono [OF wp_delete_zones [OF setN]], rule to_s, goal_cases)
          case (1 r s3)
          then show ?case unfolding zones using m by (intro collected_deleted [OF N, where Z = "keys m"]) blast+
        qed
        with 1 Ok show ?thesis by (simp add: Let_def)
      qed (use 1 s1 in \<open>simp_all add: collected_failed\<close>)
    qed
  qed (use s1 in \<open>simp_all add: collected_failed\<close>)
qed

end

section \<open>Garbage collection of syncers\<close>

definition dead :: "life \<Rightarrow> bool" where
  "dead l \<longleftrightarrow> IsStopped l \<and> \<not> IsShuttingDown l"

definition without_dead :: "servicePort set \<Rightarrow> 'c manager_state \<Rightarrow> 'c manager_state" where
  "without_dead K s = s\<lparr>mgs_syncerMap :=
     fmfilter (\<lambda>k. \<not> (k \<in> K \<and> dead (the (fmlookup (mgs_syncerMap s) k)))) (mgs_syncerMap s)\<rparr>"

lemma without_dead_insert:
  assumes "fmlookup (mgs_syncerMap s) key = Some l" "key \<notin> K"
  shows "without_dead (insert key K) s =
    (if dead l then (without_dead K s)\<lparr>mgs_syncerMap := fmdrop key (mgs_syncerMap (without_dead K s))\<rparr>
     else without_dead K s)"
proof -
  have "fmfilter (\<lambda>k. \<not> (k \<in> insert key K \<and> dead (the (fmlookup m k)))) m =
     (if dead l then fmdrop key (fmfilter (\<lambda>k. \<not> (k \<in> K \<and> dead (the (fmlookup m k)))) m)
      else fmfilter (\<lambda>k. \<not> (k \<in> K \<and> dead (the (fmlookup m k)))) m)" if "fmlookup m key = Some l" for m
    using that assms(2) by (auto intro!: fmap_ext)
  from this [OF assms(1)] show ?thesis by (simp add: without_dead_def)
qed

lemma wp_collect_syncers:
  assumes "distinct ks" "set ks \<subseteq> keys (mgs_syncerMap s)"
  shows "wp (for_each garbageCollectSyncer ks) (\<lambda>r s'. r = Ok () \<and> s' = without_dead (set ks) s) s"
proof (rule wp_for_each [where I = "\<lambda>dn s'. s' = without_dead (set dn) s"], goal_cases)
  case 1
  show ?case by (simp add: without_dead_def)
next
  case (2 dn key rest s1)
  then obtain l where l: "fmlookup (mgs_syncerMap s) key = Some l" using assms(2) by force
  have new: "key \<notin> set dn" using assms(1) 2(1) by auto
  have "fmlookup (mgs_syncerMap s1) key = Some l" using l new 2(2) by (simp add: without_dead_def)
  then show ?case
    using without_dead_insert [OF l new] 2(2)
    by (simp add: garbageCollectSyncer_def wp_bind wp_ask_syncer wp_modify_state wp_ret wp_if dead_def)
qed simp

lemma lookup_without_dead [simp]:
  "fmlookup (mgs_syncerMap (without_dead K s)) key = Some l \<longleftrightarrow>
   fmlookup (mgs_syncerMap s) key = Some l \<and> \<not> (key \<in> K \<and> dead l)"
  by (auto simp: without_dead_def)

lemma without_dead_other [simp]:
  "mgs_svcPortMap (without_dead K s) = mgs_svcPortMap s" "mgs_cloud_st (without_dead K s) = mgs_cloud_st s"
  "ports_of (without_dead K s) = ports_of s" "wanted mg (without_dead K s) = wanted mg s"
  by (simp_all add: without_dead_def ports_of_def wanted_def fun_eq_iff)

context manager_over
begin

lemma wp_mgr_GC:
  assumes rng: "map_range (mg_rng_services mg)" "map_range (mg_rng_zones mg)" "map_range (mg_rng_ports mg)"
    and fin: "\<And>key. finite (ports_of s key)"
  shows "wp (mgr_GC mg)
     (\<lambda>r s'. mgs_svcPortMap s' = mgs_svcPortMap s \<and>
        (\<forall>key l. fmlookup (mgs_syncerMap s') key = Some l \<longleftrightarrow> fmlookup (mgs_syncerMap s) key = Some l \<and> \<not> dead l) \<and>
        (\<forall>n z. \<not> IsNEG (mg_namer mg) n \<or> wanted mg s n \<longrightarrow> mgr_groups s' n z = mgr_groups s n z) \<and>
        (r = Ok () \<and> reliable \<longrightarrow> (\<forall>n z. mgr_groups s' n z \<noteq> None \<and> IsNEG (mg_namer mg) n \<longrightarrow> wanted mg s n))) s"
    (is "wp _ ?Q s")
proof -
  let ?ks = "filter (\<lambda>key. IsStopped (the (fmlookup (mgs_syncerMap s) key))) (mg_rng_ports mg (keys (mgs_syncerMap s)))"
  let ?s1 = "without_dead (set ?ks) s"
  have ks: "distinct ?ks" "set ?ks \<subseteq> keys (mgs_syncerMap s)"
    using map_range.distinct_rng [OF rng(3), of "keys (mgs_syncerMap s)"] map_range.set_rng_keys [OF rng(3)] by auto
  have syncers: "fmlookup (mgs_syncerMap ?s1) key = Some l \<longleftrightarrow> fmlookup (mgs_syncerMap s) key = Some l \<and> \<not> dead l" for key l
    using map_range.set_rng_keys [OF rng(3), of "mgs_syncerMap s"] by (auto simp: dead_def fmdom'_notI dest: fmdomI)
  have fin1: "finite (ports_of ?s1 key)" for key using fin by simp
  have goal: "?Q r s'" if "collected ?s1 r s'" for r s'
    using that unfolding collected_def same_maps_def without_dead_other
    by (elim conjE, intro conjI) (assumption | simp only: syncers simp_thms)+
  have "wp (wrap_err (\<lambda>e. Errorf ''Failed to garbage collect negs'' [e]) (garbageCollectNEG mg)) ?Q ?s1"
    unfolding wp_wrap_err
  proof (rule wp_mono [OF wp_garbageCollectNEG [OF rng(1,2) fin1]], rule goal, goal_cases)
    case (1 r s')
    show ?case by (rule collected_ok [OF 1]) (simp split: outcome.splits)
  qed
  then show ?thesis
    unfolding mgr_GC_def getAllStoppedSyncerKeys_def wp_bind wp_read_state on_ok_simps
    by (intro wp_mono [OF wp_collect_syncers [OF ks]]) auto
qed

end

section \<open>Stopping\<close>

lemma wp_StopSyncer:
  assumes "lives_ok s"
  shows "wp (StopSyncer ns n) (\<lambda>r s'. r = Ok () \<and>
     fmlookup (mgs_svcPortMap s') (getServiceKey ns n) = None \<and>
     (finite (ports_of s (getServiceKey ns n)) \<longrightarrow>
        (\<forall>p \<in> ports_of s (getServiceKey ns n). \<not> runs s' (getSyncerKey ns n p)))) s"
proof (cases "fmlookup (mgs_svcPortMap s) (getServiceKey ns n)")
  case None
  then show ?thesis by (simp add: StopSyncer_def Let_def wp_simps ports_of_def)
next
  case (Some ports)
  show ?thesis
    unfolding StopSyncer_def Let_def wp_bind wp_read_state on_ok_simps Some option.case
    by (rule wp_mono [OF wp_stop_all [OF assms]])
      (use Some in \<open>auto simp: wp_simps runs_def ports_of_def\<close>)
qed

lemma wp_ShutDown:
  assumes "lives_ok s" "map_range (mg_rng_ports mg)"
  shows "wp (ShutDown mg) (\<lambda>r s'. r = Ok () \<and> (\<forall>key. \<not> runs s' key)) s"
proof -
  let ?ks = "mg_rng_ports mg (keys (mgs_syncerMap s))"
  have ks: "set ?ks = keys (mgs_syncerMap s)" by (rule map_range.set_rng_keys [OF assms(2)])
  have "wp (for_each (\<lambda>key. on_syncer key neg_Stop) ?ks) (\<lambda>r s'. r = Ok () \<and> (\<forall>key. \<not> runs s' key)) s"
  proof (rule wp_for_each [where I = "\<lambda>dn s'. lives_ok s' \<and> keys (mgs_syncerMap s') = keys (mgs_syncerMap s) \<and>
        (\<forall>key \<in> set dn. \<not> runs s' key)"], goal_cases)
    case (2 dn key rest s1)
    then have "key \<in> keys (mgs_syncerMap s1)" using ks by (metis in_set_conv_decomp)
    then obtain l where l: "fmlookup (mgs_syncerMap s1) key = Some l" by force
    then have "reachable l" using 2(2) by (auto simp: lives_ok_def)
    from neg_Stop_reachable [OF this] show ?case
      unfolding wp_on_syncer [OF l]
    proof (rule wp_mono, goal_cases)
      case (1 r l')
      have "keys (mgs_syncerMap (put_syncer key l' s1)) = keys (mgs_syncerMap s1)"
        using l by (auto simp: put_syncer_def dest: fmdomI)
      with 1 2(2) show ?case by simp
    qed
  next
    case (3 s1)
    have "\<not> runs s1 key" for key
      using 3 ks by (cases "key \<in> keys (mgs_syncerMap s1)") (auto simp: runs_def dest: fmdomI)
    then show ?case by simp
  qed (use assms(1) in simp)
  then show ?thesis by (simp add: ShutDown_def wp_simps)
qed

lemma wp_mgr_Sync: "lives_ok s \<Longrightarrow> wp (mgr_Sync ns n) (\<lambda>r s'. r = Ok ()) s"
  unfolding mgr_Sync_def wp_bind wp_read_state on_ok_simps
  by (auto simp: wp_ret wp_signal_all split: option.split)

section \<open>Properties\<close>


definition example_manager :: "FakeNetworkEndpointGroupCloud syncerManager" where
  "example_manager = \<lparr>mg_namer = NewNamer ''0123456789abcdef'' [],
     mg_cloud = fakeNetworkEndpointGroupCloud ''subnet'' ''net'',
     mg_rng_services = set_List, mg_rng_ports = set_List, mg_rng_zones = set_List\<rparr>"





definition example_stopping :: "FakeNetworkEndpointGroupCloud manager_state" where
  "example_stopping =
     (newSyncerManager NewFakeNetworkEndpointGroupCloud)\<lparr>mgs_syncerMap :=
        fmap_of_list [(getSyncerKey ''default'' ''web'' ''80'', snd (neg_Stop (snd (neg_Start newSyncer))))]\<rparr>"

lemma lives_example_stopping: "lives_ok example_stopping"
proof -
  have "reachable (snd (neg_Stop (snd (neg_Start newSyncer))))"
    by (rule reachable.step [OF reachable_started neg_step.stop [of _ "fst (neg_Stop (snd (neg_Start newSyncer)))"]]) simp
  then show ?thesis by (simp add: lives_ok_def example_stopping_def)
qed



lemma example_manager_sel:
  "mg_cloud example_manager = fakeNetworkEndpointGroupCloud ''subnet'' ''net''"
  "mg_rng_services example_manager = set_List" "mg_rng_ports example_manager = set_List"
  "mg_rng_zones example_manager = set_List" "mg_namer example_manager = NewNamer ''0123456789abcdef'' []"
  by (simp_all add: example_manager_def)

interpretation example_mgr: manager_over example_manager fng_groups fng_members
  unfolding manager_over_def example_manager_sel by (rule fake_neg.neg_cloud_axioms)

lemma fake_reliable: "fng_Get n z c = (Err e, c') \<Longrightarrow> fng_groups c n z = None"
  by (auto simp: fng_Get_def bind_def read_state_def fng_groups_def ret_def split: option.splits)

definition example_group :: "string \<Rightarrow> NetworkEndpointGroup" where
  "example_group name = \<lparr>neg_Name = name, neg_SelfLink = [], neg_Type = ''LOAD_BALANCING'',
     neg_NetworkEndpointType = ''GCE_VM_IP_PORT'', neg_Network = ''net'', neg_Subnetwork = ''subnet''\<rparr>"

definition example_groups :: "FakeNetworkEndpointGroupCloud manager_state" where
  "example_groups = newSyncerManager
     (snd (fng_Create (example_group ''other'') ''zone1''
       (snd (fng_Create (example_group ''k8s1-0123456789abcdef-old'') ''zone1'' NewFakeNetworkEndpointGroupCloud))))"

definition example_sweep :: "(FakeNetworkEndpointGroupCloud manager_state, unit) go" where
  "example_sweep =
     for_each (\<lambda>zone. for_each (\<lambda>name.
         wrap_err (\<lambda>e. Errorf (''failed to delete NEG '' @ name @ '' in '' @ zone) [e])
           (ensureDeleteNetworkEndpointGroup example_manager name zone)) [''k8s1-0123456789abcdef-old''])
       [''zone1'']"

lemma example_gc: "fst (mgr_GC example_manager example_groups) = Ok ()"
proof -
  have own: "set_List (own_neg_names (mg_namer example_manager) (fng_NetworkEndpointGroups (mgs_cloud_st example_groups)))
      = [''k8s1-0123456789abcdef-old'']" by code_simp
  have zones: "set_List (keys (fng_NetworkEndpointGroups (mgs_cloud_st example_groups))) = [''zone1'']" by code_simp
  have none: "mgs_svcPortMap example_groups = fmempty" "mgs_syncerMap example_groups = fmempty"
    by (simp_all add: example_groups_def newSyncerManager_def)
  have "garbageCollectNEG example_manager example_groups = example_sweep example_groups"
    unfolding garbageCollectNEG_def example_sweep_def
    by (simp add: on_neg_cloud_def on_part_def wrap_err_def bind_def read_state_def wanted_ports_def none
        example_manager_sel(1-4) fakeNetworkEndpointGroupCloud_def set_List_def [where A = "{}"] Let_def own zones ret_def)
  moreover have "fst (example_sweep example_groups) = Ok ()" by code_simp
  ultimately show ?thesis
    by (auto simp: mgr_GC_def getAllStoppedSyncerKeys_def bind_def read_state_def none example_manager_sel
        set_List_def [where A = "{}"] ret_def wrap_err_def split: prod.splits)
qed


end
