(* ===== verification/HealthChecks.thy ===== *)
theory HealthChecks
  imports Namer
begin

text \<open>
  Package \<open>healthchecks\<close>: the health check of a backend (\<open>pkg/healthchecks/healthchecks.go\<close>) and
  the fake provider of the repository (\<open>pkg/healthchecks/fakes.go\<close>).

  A check exists in two versions of the API. The alpha version has the field
  \<open>PortSpecification\<close>, which the stable version \<open>v1\<close> lacks; the package converts between them
  through JSON, which carries over the fields that both versions have.
\<close>

section \<open>Health checks of the two API versions\<close>

record HTTPHealthCheckV1 =
  hh_Host :: string
  hh_Port :: int
  hh_RequestPath :: string

record HTTPHealthCheck = HTTPHealthCheckV1 +
  hh_PortSpecification :: string

record 'h HealthCheckOf =
  hc_Name :: string
  hc_SelfLink :: string
  hc_Description :: string
  hc_CheckIntervalSec :: int
  hc_TimeoutSec :: int
  hc_HealthyThreshold :: int
  hc_UnhealthyThreshold :: int
  hc_Type :: string
  hc_HttpHealthCheck :: "'h option"
  hc_HttpsHealthCheck :: "'h option"

type_synonym HealthCheckV1 = "HTTPHealthCheckV1 HealthCheckOf"
type_synonym HealthCheckAlpha = "HTTPHealthCheck HealthCheckOf"

definition convert_hc :: "('h \<Rightarrow> 'k) \<Rightarrow> 'h HealthCheckOf \<Rightarrow> 'k HealthCheckOf" where
  "convert_hc f hc =
     \<lparr>hc_Name = hc_Name hc, hc_SelfLink = hc_SelfLink hc, hc_Description = hc_Description hc,
      hc_CheckIntervalSec = hc_CheckIntervalSec hc, hc_TimeoutSec = hc_TimeoutSec hc,
      hc_HealthyThreshold = hc_HealthyThreshold hc, hc_UnhealthyThreshold = hc_UnhealthyThreshold hc,
      hc_Type = hc_Type hc, hc_HttpHealthCheck = map_option f (hc_HttpHealthCheck hc),
      hc_HttpsHealthCheck = map_option f (hc_HttpsHealthCheck hc)\<rparr>"

lemma convert_hc_simps [simp]:
  "hc_Name (convert_hc f hc) = hc_Name hc"
  "hc_SelfLink (convert_hc f hc) = hc_SelfLink hc"
  "hc_Type (convert_hc f hc) = hc_Type hc"
  "hc_HttpHealthCheck (convert_hc f hc) = map_option f (hc_HttpHealthCheck hc)"
  "hc_HttpsHealthCheck (convert_hc f hc) = map_option f (hc_HttpsHealthCheck hc)"
  by (simp_all add: convert_hc_def)

lemma own_link: "\<exists>link. hc = hc\<lparr>hc_SelfLink := link\<rparr>"
  by (rule exI [of _ "hc_SelfLink hc"]) simp

definition http_to_v1 :: "HTTPHealthCheck \<Rightarrow> HTTPHealthCheckV1" where
  "http_to_v1 h = \<lparr>hh_Host = hh_Host h, hh_Port = hh_Port h, hh_RequestPath = hh_RequestPath h\<rparr>"

definition http_to_alpha :: "HTTPHealthCheckV1 \<Rightarrow> HTTPHealthCheck" where
  "http_to_alpha h = \<lparr>hh_Host = hh_Host h, hh_Port = hh_Port h, hh_RequestPath = hh_RequestPath h,
                      hh_PortSpecification = []\<rparr>"

text \<open>
  \<open>copyViaJSON\<close> between the two structs. Marshalling strings and integers and reading them back
  into a struct with the same field names does not fail.
\<close>

definition toV1HealthCheck :: "HealthCheckAlpha \<Rightarrow> HealthCheckV1 outcome" where
  "toV1HealthCheck hc = Ok (convert_hc http_to_v1 hc)"

definition toAlphaHealthCheck :: "HealthCheckV1 \<Rightarrow> HealthCheckAlpha outcome" where
  "toAlphaHealthCheck hc = Ok (convert_hc http_to_alpha hc)"

section \<open>The flattened health check\<close>

text \<open>
  The struct \<open>HealthCheck\<close> embeds the generic settings and the settings of the HTTP probe, with the
  nested pointers of the generic part unused until it is sent.
\<close>

record HealthCheck =
  HTTP :: HTTPHealthCheck
  HC :: HealthCheckAlpha
  ForNEG :: bool

definition zero_http :: HTTPHealthCheck where
  "zero_http = \<lparr>hh_Host = [], hh_Port = 0, hh_RequestPath = [], hh_PortSpecification = []\<rparr>"

definition zero_hc :: HealthCheckAlpha where
  "zero_hc = \<lparr>hc_Name = [], hc_SelfLink = [], hc_Description = [], hc_CheckIntervalSec = 0,
      hc_TimeoutSec = 0, hc_HealthyThreshold = 0, hc_UnhealthyThreshold = 0, hc_Type = [],
      hc_HttpHealthCheck = None, hc_HttpsHealthCheck = None\<rparr>"

definition UseServingPortSpecification :: string where
  "UseServingPortSpecification = ''USE_SERVING_PORT''"

definition DefaultHealthCheckInterval :: int where "DefaultHealthCheckInterval = 60"
definition DefaultNEGHealthCheckInterval :: int where "DefaultNEGHealthCheckInterval = 15"
definition DefaultHealthyThreshold :: int where "DefaultHealthyThreshold = 1"
definition DefaultUnhealthyThreshold :: int where "DefaultUnhealthyThreshold = 10"
definition DefaultNEGUnhealthyThreshold :: int where "DefaultNEGUnhealthyThreshold = 2"
definition DefaultTimeout :: int where "DefaultTimeout = 60"
definition DefaultNEGTimeout :: int where "DefaultNEGTimeout = 15"

definition DefaultHealthCheck :: "int \<Rightarrow> AppProtocol \<Rightarrow> HealthCheck" where
  "DefaultHealthCheck port protocol =
     \<lparr>HTTP = zero_http\<lparr>hh_Port := port\<rparr>,
      HC = zero_hc\<lparr>hc_CheckIntervalSec := DefaultHealthCheckInterval,
                   hc_TimeoutSec := DefaultTimeout,
                   hc_HealthyThreshold := DefaultHealthyThreshold,
                   hc_UnhealthyThreshold := DefaultUnhealthyThreshold,
                   hc_Description := ''Default kubernetes L7 Loadbalancing health check.'',
                   hc_Type := protocol\<rparr>,
      ForNEG = False\<rparr>"

definition DefaultNEGHealthCheck :: "AppProtocol \<Rightarrow> HealthCheck" where
  "DefaultNEGHealthCheck protocol =
     \<lparr>HTTP = zero_http\<lparr>hh_PortSpecification := UseServingPortSpecification\<rparr>,
      HC = zero_hc\<lparr>hc_CheckIntervalSec := DefaultNEGHealthCheckInterval,
                   hc_TimeoutSec := DefaultNEGTimeout,
                   hc_HealthyThreshold := DefaultHealthyThreshold,
                   hc_UnhealthyThreshold := DefaultNEGUnhealthyThreshold,
                   hc_Description := ''Default kubernetes L7 Loadbalancing health check for NEG.'',
                   hc_Type := protocol\<rparr>,
      ForNEG = True\<rparr>"

definition NewHealthCheck :: "HealthCheckAlpha \<Rightarrow> HealthCheck outcome" where
  "NewHealthCheck hc =
     (let v = (\<lambda>h. \<lparr>HTTP = h,
                    HC = hc\<lparr>hc_HttpHealthCheck := None, hc_HttpsHealthCheck := None\<rparr>,
                    ForNEG = False\<rparr>);
          deref = (\<lambda>p. case p of None \<Rightarrow> Panics ''nil pointer dereference'' | Some h \<Rightarrow> Ok (v h))
      in if hc_Type hc = ProtocolHTTP then deref (hc_HttpHealthCheck hc)
         else if hc_Type hc = ProtocolHTTPS then deref (hc_HttpsHealthCheck hc)
         else Ok (v zero_http))"

definition merge :: "HealthCheck \<Rightarrow> HealthCheck" where
  "merge hc =
     hc\<lparr>HC := (HC hc)
       \<lparr>hc_HttpHealthCheck := (if hc_Type (HC hc) = ProtocolHTTP then Some (HTTP hc) else None),
        hc_HttpsHealthCheck := (if hc_Type (HC hc) = ProtocolHTTPS then Some (HTTP hc) else None)\<rparr>\<rparr>"

definition ToComputeHealthCheck :: "HealthCheck \<Rightarrow> HealthCheckV1 outcome" where
  "ToComputeHealthCheck hc = toV1HealthCheck (HC (merge hc))"

definition ToAlphaComputeHealthCheck :: "HealthCheck \<Rightarrow> HealthCheckAlpha" where
  "ToAlphaComputeHealthCheck hc =
     HC (merge (if length (hh_PortSpecification (HTTP hc)) > 0
                then hc\<lparr>HTTP := (HTTP hc)\<lparr>hh_Port := 0\<rparr>\<rparr> else hc))"

definition needToUpdate :: "HealthCheck \<Rightarrow> HealthCheck \<Rightarrow> bool" where
  "needToUpdate old new \<longleftrightarrow>
     hc_Type (HC old) \<noteq> hc_Type (HC new) \<or>
     hh_PortSpecification (HTTP old) \<noteq> hh_PortSpecification (HTTP new)"

definition mergeHealthcheckForNEG :: "HealthCheck \<Rightarrow> HealthCheck \<Rightarrow> HealthCheck" where
  "mergeHealthcheckForNEG oldHC newHC =
     newHC\<lparr>HTTP := (HTTP oldHC)\<lparr>hh_Port := 0,
                               hh_PortSpecification := hh_PortSpecification (HTTP newHC)\<rparr>\<rparr>"

section \<open>The health checker\<close>

record 'c HealthCheckProvider =
  CreateHttpHealthCheck :: "HttpHealthCheckV1 \<Rightarrow> ('c, unit) go"
  UpdateHttpHealthCheck :: "HttpHealthCheckV1 \<Rightarrow> ('c, unit) go"
  DeleteHttpHealthCheck :: "string \<Rightarrow> ('c, unit) go"
  GetHttpHealthCheck :: "string \<Rightarrow> ('c, HttpHealthCheckV1) go"
  CreateAlphaHealthCheck :: "HealthCheckAlpha \<Rightarrow> ('c, unit) go"
  CreateHealthCheck :: "HealthCheckV1 \<Rightarrow> ('c, unit) go"
  UpdateAlphaHealthCheck :: "HealthCheckAlpha \<Rightarrow> ('c, unit) go"
  UpdateHealthCheck :: "HealthCheckV1 \<Rightarrow> ('c, unit) go"
  DeleteHealthCheck :: "string \<Rightarrow> ('c, unit) go"
  GetAlphaHealthCheck :: "string \<Rightarrow> ('c, HealthCheckAlpha) go"
  GetHealthCheck :: "string \<Rightarrow> ('c, HealthCheckV1) go"

record 'c HealthChecks =
  hck_cloud :: "'c HealthCheckProvider"
  hck_defaultPath :: string
  hck_namer :: Namer

definition NewHealthChecker :: "'c HealthCheckProvider \<Rightarrow> string \<Rightarrow> Namer \<Rightarrow> 'c HealthChecks" where
  "NewHealthChecker cloud defaultHealthCheckPath namer =
     \<lparr>hck_cloud = cloud, hck_defaultPath = defaultHealthCheckPath, hck_namer = namer\<rparr>"

definition hck_New :: "'c HealthChecks \<Rightarrow> int \<Rightarrow> AppProtocol \<Rightarrow> bool \<Rightarrow> HealthCheck" where
  "hck_New h port protocol enableNEG =
     (let hc = (if enableNEG then DefaultNEGHealthCheck protocol else DefaultHealthCheck port protocol)
      in hc\<lparr>HC := (HC hc)\<lparr>hc_Name := Backend (hck_namer h) port\<rparr>,
            HTTP := (HTTP hc)\<lparr>hh_Port := port\<rparr>\<rparr>)"

definition hck_Get :: "'c HealthChecks \<Rightarrow> int \<Rightarrow> bool \<Rightarrow> ('c, HealthCheck) go" where
  "hck_Get h port alpha =
     (let name = Backend (hck_namer h) port in
      if alpha
      then bind (GetAlphaHealthCheck (hck_cloud h) name) (\<lambda>hc. lift_outcome (NewHealthCheck hc))
      else bind (GetHealthCheck (hck_cloud h) name)
             (\<lambda>v1hc. bind (lift_outcome (toAlphaHealthCheck v1hc))
                (\<lambda>hc. lift_outcome (NewHealthCheck hc))))"

definition hck_create :: "'c HealthChecks \<Rightarrow> HealthCheck \<Rightarrow> ('c, unit) go" where
  "hck_create h hc =
     (if ForNEG hc then CreateAlphaHealthCheck (hck_cloud h) (ToAlphaComputeHealthCheck hc)
      else bind (lift_outcome (ToComputeHealthCheck hc)) (CreateHealthCheck (hck_cloud h)))"

definition hck_update :: "'c HealthChecks \<Rightarrow> HealthCheck \<Rightarrow> HealthCheck \<Rightarrow> ('c, unit) go" where
  "hck_update h oldHC newHC =
     (if ForNEG newHC
      then UpdateAlphaHealthCheck (hck_cloud h)
             (ToAlphaComputeHealthCheck (mergeHealthcheckForNEG oldHC newHC))
      else bind (lift_outcome (ToComputeHealthCheck newHC)) (UpdateHealthCheck (hck_cloud h)))"

definition getHealthCheckLink :: "'c HealthChecks \<Rightarrow> int \<Rightarrow> ('c, string) go" where
  "getHealthCheckLink h port = bind (hck_Get h port False) (\<lambda>hc. ret (hc_SelfLink (HC hc)))"

text \<open>
  The Go function also returns the link of the existing check together with an error of the update;
  its caller drops the link then.
\<close>

definition hck_Sync :: "'c HealthChecks \<Rightarrow> HealthCheck \<Rightarrow> ('c, string) go" where
  "hck_Sync h hc0 =
     (let hc = (if hh_RequestPath (HTTP hc0) = []
                then hc0\<lparr>HTTP := (HTTP hc0)\<lparr>hh_RequestPath := hck_defaultPath h\<rparr>\<rparr> else hc0);
          nodePort = hh_Port (HTTP hc)
      in bind_err (hck_Get h nodePort (ForNEG hc))
        (\<lambda>r. case r of
           Inl err \<Rightarrow>
             if \<not> IsHTTPErrorCode (Some err) StatusNotFound then fail err
             else bind (hck_create h hc) (\<lambda>_. getHealthCheckLink h nodePort)
         | Inr existingHC \<Rightarrow>
             if needToUpdate existingHC hc
             then bind (hck_update h existingHC hc) (\<lambda>_. ret (hc_SelfLink (HC existingHC)))
             else ret (hc_SelfLink (HC existingHC))))"

definition hck_Delete :: "'c HealthChecks \<Rightarrow> int \<Rightarrow> ('c, unit) go" where
  "hck_Delete h port = DeleteHealthCheck (hck_cloud h) (Backend (hck_namer h) port)"

definition hck_GetLegacy :: "'c HealthChecks \<Rightarrow> int \<Rightarrow> ('c, HttpHealthCheckV1) go" where
  "hck_GetLegacy h port = GetHttpHealthCheck (hck_cloud h) (Backend (hck_namer h) port)"

definition hck_DeleteLegacy :: "'c HealthChecks \<Rightarrow> int \<Rightarrow> ('c, unit) go" where
  "hck_DeleteLegacy h port = DeleteHttpHealthCheck (hck_cloud h) (Backend (hck_namer h) port)"

text \<open>The health checker behind its interface.\<close>

record 's HealthChecker =
  hchk_New :: "int \<Rightarrow> AppProtocol \<Rightarrow> bool \<Rightarrow> HealthCheck"
  hchk_Sync :: "HealthCheck \<Rightarrow> ('s, string) go"
  hchk_Delete :: "int \<Rightarrow> ('s, unit) go"
  hchk_Get :: "int \<Rightarrow> bool \<Rightarrow> ('s, HealthCheck) go"
  hchk_GetLegacy :: "int \<Rightarrow> ('s, HttpHealthCheckV1) go"
  hchk_DeleteLegacy :: "int \<Rightarrow> ('s, unit) go"

definition HealthChecker_of :: "'c HealthChecks \<Rightarrow> 'c HealthChecker" where
  "HealthChecker_of h =
     \<lparr>hchk_New = hck_New h, hchk_Sync = hck_Sync h, hchk_Delete = hck_Delete h,
      hchk_Get = hck_Get h, hchk_GetLegacy = hck_GetLegacy h, hchk_DeleteLegacy = hck_DeleteLegacy h\<rparr>"

section \<open>The fake provider\<close>

record FakeHealthCheckProvider =
  fhc_http :: "(string, HttpHealthCheckV1) gomap"
  fhc_generic :: "(string, HealthCheckAlpha) gomap"

definition NewFakeHealthCheckProvider :: FakeHealthCheckProvider where
  "NewFakeHealthCheckProvider = \<lparr>fhc_http = fmempty, fhc_generic = fmempty\<rparr>"

definition fake_lookup :: "('s \<Rightarrow> (string, 'v) gomap) \<Rightarrow> string \<Rightarrow> ('s, 'v) go" where
  "fake_lookup m name =
     bind (read_state (\<lambda>f. fmlookup (m f) name))
       (\<lambda>r. case r of Some hc \<Rightarrow> ret hc | None \<Rightarrow> fail FakeGoogleAPINotFoundErr)"

definition fhc_CreateHttp :: "HttpHealthCheckV1 \<Rightarrow> (FakeHealthCheckProvider, unit) go" where
  "fhc_CreateHttp hc =
     modify_state (\<lambda>f. f\<lparr>fhc_http := fmupd (lhc_Name hc)
       (hc\<lparr>lhc_SelfLink := ''https://fake.google.com/compute/httpHealthChecks/'' @ lhc_Name hc\<rparr>)
       (fhc_http f)\<rparr>)"

definition fhc_UpdateHttp :: "HttpHealthCheckV1 \<Rightarrow> (FakeHealthCheckProvider, unit) go" where
  "fhc_UpdateHttp hc =
     bind (fake_lookup fhc_http (lhc_Name hc))
       (\<lambda>_. modify_state (\<lambda>f. f\<lparr>fhc_http := fmupd (lhc_Name hc) hc (fhc_http f)\<rparr>))"

definition fhc_DeleteHttp :: "string \<Rightarrow> (FakeHealthCheckProvider, unit) go" where
  "fhc_DeleteHttp name =
     bind (fake_lookup fhc_http name)
       (\<lambda>_. modify_state (\<lambda>f. f\<lparr>fhc_http := fmdrop name (fhc_http f)\<rparr>))"

text \<open>The self link is set on a copy that is then dropped.\<close>

definition fhc_CreateAlpha :: "HealthCheckAlpha \<Rightarrow> (FakeHealthCheckProvider, unit) go" where
  "fhc_CreateAlpha hc =
     modify_state (\<lambda>f. f\<lparr>fhc_generic := fmupd (hc_Name hc) hc (fhc_generic f)\<rparr>)"

definition fhc_Create :: "HealthCheckV1 \<Rightarrow> (FakeHealthCheckProvider, unit) go" where
  "fhc_Create hc = bind (lift_outcome (toAlphaHealthCheck hc)) fhc_CreateAlpha"

definition fhc_UpdateAlpha :: "HealthCheckAlpha \<Rightarrow> (FakeHealthCheckProvider, unit) go" where
  "fhc_UpdateAlpha hc =
     bind (fake_lookup fhc_generic (hc_Name hc))
       (\<lambda>_. modify_state (\<lambda>f. f\<lparr>fhc_generic := fmupd (hc_Name hc) hc (fhc_generic f)\<rparr>))"

definition fhc_Update :: "HealthCheckV1 \<Rightarrow> (FakeHealthCheckProvider, unit) go" where
  "fhc_Update hc =
     bind (fake_lookup fhc_generic (hc_Name hc))
       (\<lambda>_. bind (lift_outcome (toAlphaHealthCheck hc))
          (\<lambda>alphaHC. modify_state
             (\<lambda>f. f\<lparr>fhc_generic := fmupd (hc_Name hc) alphaHC (fhc_generic f)\<rparr>)))"

definition fhc_Delete :: "string \<Rightarrow> (FakeHealthCheckProvider, unit) go" where
  "fhc_Delete name =
     bind (fake_lookup fhc_generic name)
       (\<lambda>_. modify_state (\<lambda>f. f\<lparr>fhc_generic := fmdrop name (fhc_generic f)\<rparr>))"

definition fhc_Get :: "string \<Rightarrow> (FakeHealthCheckProvider, HealthCheckV1) go" where
  "fhc_Get name = bind (fake_lookup fhc_generic name) (\<lambda>hc. lift_outcome (toV1HealthCheck hc))"

definition fakeHealthCheckProvider :: "FakeHealthCheckProvider HealthCheckProvider" where
  "fakeHealthCheckProvider =
     \<lparr>CreateHttpHealthCheck = fhc_CreateHttp, UpdateHttpHealthCheck = fhc_UpdateHttp,
      DeleteHttpHealthCheck = fhc_DeleteHttp, GetHttpHealthCheck = fake_lookup fhc_http,
      CreateAlphaHealthCheck = fhc_CreateAlpha, CreateHealthCheck = fhc_Create,
      UpdateAlphaHealthCheck = fhc_UpdateAlpha, UpdateHealthCheck = fhc_Update,
      DeleteHealthCheck = fhc_Delete, GetAlphaHealthCheck = fake_lookup fhc_generic,
      GetHealthCheck = fhc_Get\<rparr>"

lemmas fake_hc_defs = fakeHealthCheckProvider_def fhc_CreateAlpha_def fhc_Create_def
  fhc_UpdateAlpha_def fhc_Update_def fhc_Delete_def fhc_Get_def fake_lookup_def
  fhc_CreateHttp_def fhc_UpdateHttp_def fhc_DeleteHttp_def toAlphaHealthCheck_def toV1HealthCheck_def

section \<open>What the health checker relies on\<close>

text \<open>
  The provider's checks by name. The provider chooses the self link of a check; the rest is what was
  sent. A failing call changes nothing, and a 404 means that there is no check of the name.
\<close>

abbreviation found :: "('v \<Rightarrow> bool) \<Rightarrow> 'v option \<Rightarrow> 'v outcome \<Rightarrow> bool" where
  "found P v r \<equiv> (case r of Ok a \<Rightarrow> P a \<and> v = Some a
     | Err e \<Rightarrow> IsHTTPErrorCode (Some e) StatusNotFound \<longrightarrow> v = None | Panics _ \<Rightarrow> False)"

locale hc_cloud =
  fixes cl :: "'c HealthCheckProvider" and checks :: "'c \<Rightarrow> string \<Rightarrow> HealthCheckAlpha option"
  assumes get_alpha_law: "wp (GetAlphaHealthCheck cl name)
      (\<lambda>r c'. checks c' = checks c \<and> found (\<lambda>_. True) (checks c name) r) c"
    and get_law: "wp (GetHealthCheck cl name)
      (\<lambda>r c'. checks c' = checks c \<and>
         found (\<lambda>_. True) (map_option (convert_hc http_to_v1) (checks c name)) r) c"
    and create_alpha_law: "wp (CreateAlphaHealthCheck cl hc)
      (\<lambda>r c'. case r of
         Ok _ \<Rightarrow> (\<exists>link. checks c' = (checks c)(hc_Name hc \<mapsto> hc\<lparr>hc_SelfLink := link\<rparr>))
       | Err _ \<Rightarrow> checks c' = checks c | Panics _ \<Rightarrow> False) c"
    and create_law: "wp (CreateHealthCheck cl v1hc)
      (\<lambda>r c'. case r of
         Ok _ \<Rightarrow> (\<exists>link. checks c' = (checks c)(hc_Name v1hc \<mapsto>
                     (convert_hc http_to_alpha v1hc)\<lparr>hc_SelfLink := link\<rparr>))
       | Err _ \<Rightarrow> checks c' = checks c | Panics _ \<Rightarrow> False) c"
    and update_alpha_law: "wp (UpdateAlphaHealthCheck cl hc)
      (\<lambda>r c'. case r of
         Ok _ \<Rightarrow> (\<exists>link. checks c' = (checks c)(hc_Name hc \<mapsto> hc\<lparr>hc_SelfLink := link\<rparr>))
       | Err _ \<Rightarrow> checks c' = checks c | Panics _ \<Rightarrow> False) c"
    and update_law: "wp (UpdateHealthCheck cl v1hc)
      (\<lambda>r c'. case r of
         Ok _ \<Rightarrow> (\<exists>link. checks c' = (checks c)(hc_Name v1hc \<mapsto>
                     (convert_hc http_to_alpha v1hc)\<lparr>hc_SelfLink := link\<rparr>))
       | Err _ \<Rightarrow> checks c' = checks c | Panics _ \<Rightarrow> False) c"
    and delete_law: "wp (DeleteHealthCheck cl name)
      (\<lambda>r c'. case r of
         Ok _ \<Rightarrow> checks c' = (checks c)(name := None)
       | Err e \<Rightarrow> checks c' = checks c \<and> (IsHTTPErrorCode (Some e) StatusNotFound \<longrightarrow> checks c name = None)
       | Panics _ \<Rightarrow> False) c"

interpretation fake_hc: hc_cloud fakeHealthCheckProvider "\<lambda>f. fmlookup (fhc_generic f)"
  by unfold_locales
    (auto simp: fake_hc_defs wp_simps fun_eq_iff own_link split: option.split)

section \<open>Synchronising a check\<close>

definition probe_of :: "'h HealthCheckOf \<Rightarrow> 'h option" where
  "probe_of a =
     (if hc_Type a = ProtocolHTTP then hc_HttpHealthCheck a
      else if hc_Type a = ProtocolHTTPS then hc_HttpsHealthCheck a else None)"

lemma probe_of_convert [simp]: "probe_of (convert_hc f a) = map_option f (probe_of a)"
  by (simp add: probe_of_def)

lemma NewHealthCheck_probe:
  "probe_of a = Some p \<Longrightarrow>
   NewHealthCheck a = Ok \<lparr>HTTP = p, HC = a\<lparr>hc_HttpHealthCheck := None, hc_HttpsHealthCheck := None\<rparr>,
     ForNEG = False\<rparr>"
  by (auto simp: NewHealthCheck_def probe_of_def Let_def split: if_splits)

lemma probe_of_merge:
  "hc_Type (HC hc) \<in> {ProtocolHTTP, ProtocolHTTPS} \<Longrightarrow> probe_of (HC (merge hc)) = Some (HTTP hc)"
  by (auto simp: probe_of_def merge_def)

lemma merge_simps [simp]:
  "hc_Name (HC (merge hc)) = hc_Name (HC hc)" "hc_Type (HC (merge hc)) = hc_Type (HC hc)"
  by (simp_all add: merge_def)

lemma probe_of_link [simp]: "probe_of (a\<lparr>hc_SelfLink := l\<rparr>) = probe_of a"
  by (simp add: probe_of_def)

text \<open>
  What \<open>Sync\<close> promises of the check under the name: it has the requested type, and for endpoint
  groups the requested port specification.
\<close>

definition serves :: "HealthCheck \<Rightarrow> HealthCheckAlpha option \<Rightarrow> bool" where
  "serves hc v \<longleftrightarrow>
     (\<exists>a p. v = Some a \<and> hc_Type a = hc_Type (HC hc) \<and> probe_of a = Some p \<and>
        (ForNEG hc \<longrightarrow> hh_PortSpecification p = hh_PortSpecification (HTTP hc)))"

text \<open>A check as \<open>New\<close> makes it, possibly with settings of a probe applied.\<close>

definition requests :: "'c HealthChecks \<Rightarrow> int \<Rightarrow> HealthCheck \<Rightarrow> bool" where
  "requests h port hc \<longleftrightarrow>
     hc_Name (HC hc) = Backend (hck_namer h) port \<and> hh_Port (HTTP hc) = port \<and>
     hc_Type (HC hc) \<in> {ProtocolHTTP, ProtocolHTTPS} \<and>
     (\<not> ForNEG hc \<longrightarrow> hh_PortSpecification (HTTP hc) = [])"

lemma requests_New: "protocol \<in> {ProtocolHTTP, ProtocolHTTPS} \<Longrightarrow> requests h port (hck_New h port protocol neg)"
  by (auto simp: requests_def hck_New_def DefaultHealthCheck_def DefaultNEGHealthCheck_def
      zero_http_def zero_hc_def)

locale health_checks_over = hc_cloud "hck_cloud h" checks
  for h :: "'c HealthChecks" and checks :: "'c \<Rightarrow> string \<Rightarrow> HealthCheckAlpha option"
begin

abbreviation chk_name :: "int \<Rightarrow> string" where
  "chk_name port \<equiv> Backend (hck_namer h) port"

definition probed :: "'c \<Rightarrow> int \<Rightarrow> bool" where
  "probed c port \<longleftrightarrow> (\<forall>a. checks c (chk_name port) = Some a \<longrightarrow> probe_of a \<noteq> None)"

lemma wp_Get:
  assumes "probed c port"
  shows "wp (hck_Get h port alpha)
     (\<lambda>r c'. checks c' = checks c \<and>
        (case r of
           Ok e \<Rightarrow> (\<exists>a p. checks c (chk_name port) = Some a \<and> probe_of a = Some p \<and>
              hc_Type (HC e) = hc_Type a \<and> hc_SelfLink (HC e) = hc_SelfLink a \<and>
              HTTP e = (if alpha then p else http_to_alpha (http_to_v1 p)))
         | Err e \<Rightarrow> IsHTTPErrorCode (Some e) StatusNotFound \<longrightarrow> checks c (chk_name port) = None
         | Panics _ \<Rightarrow> False)) c"
proof (cases alpha)
  case True
  show ?thesis
    unfolding hck_Get_def Let_def wp_simps
    by (simp only: True if_True wp_simps)
      (rule wp_mono [OF get_alpha_law],
        use assms in \<open>auto simp: on_ok_def wp_simps probed_def NewHealthCheck_probe True
          split: outcome.splits\<close>)
next
  case False
  show ?thesis
    unfolding hck_Get_def Let_def wp_simps
    by (simp only: False if_False wp_simps)
      (rule wp_mono [OF get_law],
        use assms in \<open>auto simp: on_ok_def wp_simps probed_def toAlphaHealthCheck_def
          NewHealthCheck_probe False split: outcome.splits\<close>)
qed

lemma wp_create:
  assumes "requests h port hc"
  shows "wp (hck_create h hc)
     (\<lambda>r c'. (\<forall>n. n \<noteq> chk_name port \<longrightarrow> checks c' n = checks c n) \<and>
        (case r of Ok _ \<Rightarrow> serves hc (checks c' (chk_name port))
         | Err _ \<Rightarrow> True | Panics _ \<Rightarrow> False)) c"
proof -
  have "probe_of (HC (merge (hc\<lparr>HTTP := x\<rparr>))) = Some x" for x
    using assms by (subst probe_of_merge) (auto simp: requests_def)
  then show ?thesis
    using assms unfolding hck_create_def wp_simps requests_def
    by (auto simp: wp_simps ToComputeHealthCheck_def toV1HealthCheck_def serves_def probe_of_merge
        ToAlphaComputeHealthCheck_def http_to_alpha_def http_to_v1_def
        intro!: wp_mono [OF create_law] wp_mono [OF create_alpha_law] split: outcome.splits)
qed

lemma wp_update:
  assumes "requests h port hc"
  shows "wp (hck_update h old hc)
     (\<lambda>r c'. (\<forall>n. n \<noteq> chk_name port \<longrightarrow> checks c' n = checks c n) \<and>
        (case r of Ok _ \<Rightarrow> serves hc (checks c' (chk_name port))
         | Err _ \<Rightarrow> True | Panics _ \<Rightarrow> False)) c"
proof -
  have "probe_of (HC (merge (hc\<lparr>HTTP := x\<rparr>))) = Some x" for x
    using assms by (subst probe_of_merge) (auto simp: requests_def)
  then show ?thesis
    using assms unfolding hck_update_def wp_simps requests_def
    by (auto simp: wp_simps ToComputeHealthCheck_def toV1HealthCheck_def serves_def probe_of_merge
        ToAlphaComputeHealthCheck_def mergeHealthcheckForNEG_def http_to_alpha_def http_to_v1_def
        intro!: wp_mono [OF update_law] wp_mono [OF update_alpha_law] split: outcome.splits)
qed

lemma serves_path: "serves (hc\<lparr>HTTP := (HTTP hc)\<lparr>hh_RequestPath := p\<rparr>\<rparr>) v = serves hc v"
  by (simp add: serves_def)

lemma requests_path:
  "requests h port (hc\<lparr>HTTP := (HTTP hc)\<lparr>hh_RequestPath := p\<rparr>\<rparr>) = requests h port hc"
  by (simp add: requests_def)

lemma wp_link:
  assumes "serves hc (checks c (chk_name port))" "\<forall>n. n \<noteq> chk_name port \<longrightarrow> checks c n = checks c0 n"
  shows "wp (getHealthCheckLink h port)
     (\<lambda>r c'. (\<forall>n. n \<noteq> chk_name port \<longrightarrow> checks c' n = checks c0 n) \<and>
        (case r of Ok _ \<Rightarrow> serves hc (checks c' (chk_name port))
         | Err _ \<Rightarrow> True | Panics _ \<Rightarrow> False)) c"
proof -
  have "probed c port" using assms(1) by (auto simp: probed_def serves_def)
  then show ?thesis
    unfolding getHealthCheckLink_def wp_simps
    by (intro wp_mono [OF wp_Get])
      (use assms in \<open>auto simp: on_ok_def wp_simps split: outcome.splits\<close>)
qed

lemma wp_Sync:
  assumes "requests h port hc" "probed c port"
  shows "wp (hck_Sync h hc)
     (\<lambda>r c'. (\<forall>n. n \<noteq> chk_name port \<longrightarrow> checks c' n = checks c n) \<and>
        (serves hc (checks c (chk_name port)) \<longrightarrow> checks c' = checks c) \<and>
        (case r of Ok _ \<Rightarrow> serves hc (checks c' (chk_name port))
         | Err _ \<Rightarrow> True | Panics _ \<Rightarrow> False)) c"
proof -
  let ?Q = "\<lambda>hc r c'. (\<forall>n. n \<noteq> chk_name port \<longrightarrow> checks c' n = checks c n) \<and>
        (serves hc (checks c (chk_name port)) \<longrightarrow> checks c' = checks c) \<and>
        (case r of Ok _ \<Rightarrow> serves hc (checks c' (chk_name port))
         | Err _ \<Rightarrow> True | Panics _ \<Rightarrow> False)"
  have main: "wp (bind_err (hck_Get h port (ForNEG hc))
        (\<lambda>r. case r of
           Inl err \<Rightarrow>
             if \<not> IsHTTPErrorCode (Some err) StatusNotFound then fail err
             else bind (hck_create h hc) (\<lambda>_. getHealthCheckLink h port)
         | Inr existingHC \<Rightarrow>
             if needToUpdate existingHC hc
             then bind (hck_update h existingHC hc) (\<lambda>_. ret (hc_SelfLink (HC existingHC)))
             else ret (hc_SelfLink (HC existingHC)))) (?Q hc) c"
    if hc: "requests h port hc" for hc
    unfolding wp_bind_err
  proof (rule wp_mono [OF wp_Get [OF assms(2)]], goal_cases)
    case (1 r c1)
    then show ?case
    proof (cases r)
      case (Ok e)
      with 1 obtain a p where a: "checks c (chk_name port) = Some a" "probe_of a = Some p"
        "hc_Type (HC e) = hc_Type a"
        "HTTP e = (if ForNEG hc then p else http_to_alpha (http_to_v1 p))" by auto
      have "needToUpdate e hc \<longleftrightarrow> \<not> serves hc (checks c (chk_name port))"
        using a hc by (auto simp: needToUpdate_def serves_def requests_def http_to_alpha_def
            split: if_splits)
      with 1 Ok a show ?thesis
        by (auto simp: wp_simps on_ok_def intro!: wp_mono [OF wp_update [OF hc]] split: outcome.splits)
    next
      case (Err err)
      with 1 show ?thesis
        by (auto simp: wp_simps serves_def on_ok_def intro!: wp_mono [OF wp_create [OF hc]]
            wp_mono [OF wp_link [unfolded serves_def]] split: outcome.splits)
    qed auto
  qed
  have "hh_Port (HTTP hc) = port" using assms(1) by (simp add: requests_def)
  then show ?thesis
    using main [of hc] main [of "hc\<lparr>HTTP := (HTTP hc)\<lparr>hh_RequestPath := hck_defaultPath h\<rparr>\<rparr>"] assms(1)
    by (simp add: hck_Sync_def Let_def serves_path requests_path
        cong: outcome.case_cong sum.case_cong if_cong)
qed

end

section \<open>Properties\<close>


interpretation fake_checks: health_checks_over "NewHealthChecker fakeHealthCheckProvider path namer"
  "\<lambda>f. fmlookup (fhc_generic f)" for path namer
  by (simp add: health_checks_over_def NewHealthChecker_def fake_hc.hc_cloud_axioms)




end
