(* ===== verification/Backends.thy ===== *)
theory Backends
  imports Instances HealthChecks Kube
begin

text \<open>
  Package \<open>backends\<close>: the pool of backend services, one per node port (\<open>pkg/backends/backends.go\<close>),
  and the fake cloud of the repository (\<open>pkg/backends/fakes.go\<close>).

  The pool calls four collaborators: the cloud's backend services, the node pool, the health checker
  and the getter of endpoint groups. Each is a record of calls on a state of its own.
\<close>

section \<open>Service ports\<close>

record ServicePort =
  sp_Port :: int
  sp_Protocol :: AppProtocol
  sp_SvcName :: NamespacedName
  sp_SvcPort :: IntOrString
  sp_SvcTargetPort :: string
  sp_NEGEnabled :: bool

definition dquote :: char where
  "dquote = char_of (34 :: nat)"

text \<open>A JSON object with two string fields, written without escaping.\<close>

definition Description :: "ServicePort \<Rightarrow> string" where
  "Description sp =
     (if NamespacedName_String (sp_SvcName sp) = [] \<or> IntOrString_String (sp_SvcPort sp) = [] then []
      else ''{'' @ [dquote] @ ''kubernetes.io/service-name'' @ [dquote] @ '':'' @ [dquote] @
           NamespacedName_String (sp_SvcName sp) @ [dquote] @ '','' @
           [dquote] @ ''kubernetes.io/service-port'' @ [dquote] @ '':'' @ [dquote] @
           IntOrString_String (sp_SvcPort sp) @ [dquote] @ ''}'')"

definition portKey :: "int \<Rightarrow> string" where
  "portKey port = Itoa port"

datatype BalancingMode = Rate | Utilization | Connections

fun mode_string :: "BalancingMode \<Rightarrow> string" where
  "mode_string Rate = ''RATE''"
| "mode_string Utilization = ''UTILIZATION''"
| "mode_string Connections = ''CONNECTION''"

definition maxRPS :: int where "maxRPS = 1"

section \<open>Collaborators\<close>

record 'c BackendServices =
  GetGlobalBackendService :: "string \<Rightarrow> ('c, BackendService) go"
  GetAlphaGlobalBackendService :: "string \<Rightarrow> ('c, BackendService) go"
  UpdateGlobalBackendService :: "BackendService \<Rightarrow> ('c, unit) go"
  UpdateAlphaGlobalBackendService :: "BackendService \<Rightarrow> ('c, unit) go"
  CreateGlobalBackendService :: "BackendService \<Rightarrow> ('c, unit) go"
  DeleteGlobalBackendService :: "string \<Rightarrow> ('c, unit) go"
  ListGlobalBackendServices :: "('c, BackendService list) go"
  GetGlobalBackendServiceHealth :: "string \<Rightarrow> string \<Rightarrow> ('c, string option list) go"

type_synonym probeProvider = "ServicePort \<Rightarrow> Probe option outcome"
type_synonym NEGGetter = "string \<Rightarrow> string \<Rightarrow> NetworkEndpointGroup outcome"

record ('c, 'n, 'h) Backends =
  bes_cloud :: "'c BackendServices"
  bes_negGetter :: NEGGetter
  bes_nodePool :: "'n NodePool"
  bes_healthChecker :: "'h HealthChecker"
  bes_prober :: "probeProvider option"
  bes_ignoredPorts :: "string set"
  bes_namer :: Namer
  bes_rng :: "string set \<Rightarrow> string list"

record ('c, 'n, 'h) Backends_state =
  bes_cloud_st :: 'c
  bes_np_st :: 'n
  bes_hc_st :: 'h
  bes_snapshotter :: "BackendService option InMemoryPool"

definition on_be_cloud :: "('c, 'a) go \<Rightarrow> (('c, 'n, 'h) Backends_state, 'a) go" where
  "on_be_cloud = on_part bes_cloud_st (\<lambda>c s. s\<lparr>bes_cloud_st := c\<rparr>)"

definition on_be_np :: "('n, 'a) go \<Rightarrow> (('c, 'n, 'h) Backends_state, 'a) go" where
  "on_be_np = on_part bes_np_st (\<lambda>n s. s\<lparr>bes_np_st := n\<rparr>)"

definition on_be_hc :: "('h, 'a) go \<Rightarrow> (('c, 'n, 'h) Backends_state, 'a) go" where
  "on_be_hc = on_part bes_hc_st (\<lambda>h s. s\<lparr>bes_hc_st := h\<rparr>)"

definition be_remember ::
  "int \<Rightarrow> BackendService option \<Rightarrow> ('c, 'n, 'h) Backends_state \<Rightarrow> ('c, 'n, 'h) Backends_state" where
  "be_remember port be s = s\<lparr>bes_snapshotter := pool_Add (portKey port) be (bes_snapshotter s)\<rparr>"

definition be_forget :: "int \<Rightarrow> ('c, 'n, 'h) Backends_state \<Rightarrow> ('c, 'n, 'h) Backends_state" where
  "be_forget port s = s\<lparr>bes_snapshotter := pool_Delete (portKey port) (bes_snapshotter s)\<rparr>"

section \<open>The backend pool\<close>

definition NewBackendPool ::
  "'c BackendServices \<Rightarrow> NEGGetter \<Rightarrow> 'h HealthChecker \<Rightarrow> 'n NodePool \<Rightarrow> Namer \<Rightarrow> int list \<Rightarrow>
   (string set \<Rightarrow> string list) \<Rightarrow> ('c, 'n, 'h) Backends" where
  "NewBackendPool cloud negGetter healthChecker nodePool namer ignorePorts rng =
     \<lparr>bes_cloud = cloud, bes_negGetter = negGetter, bes_nodePool = nodePool,
      bes_healthChecker = healthChecker, bes_prober = None,
      bes_ignoredPorts = set (map portKey ignorePorts), bes_namer = namer, bes_rng = rng\<rparr>"

text \<open>The key under which a backend service found in the cloud enters the pool.\<close>

definition be_keyGetter :: "Namer \<Rightarrow> BackendService \<Rightarrow> string outcome" where
  "be_keyGetter namer bs =
     (if \<not> NameBelongsToCluster namer (be_Name bs)
      then Err (Errorf (''unrecognized name '' @ be_Name bs) [])
      else BackendPort (be_Name bs))"

definition be_Init :: "probeProvider \<Rightarrow> ('c, 'n, 'h) Backends \<Rightarrow> ('c, 'n, 'h) Backends" where
  "be_Init pp b = b\<lparr>bes_prober := Some pp\<rparr>"

definition be_Get :: "('c, 'n, 'h) Backends \<Rightarrow> int \<Rightarrow> (('c, 'n, 'h) Backends_state, BackendService) go" where
  "be_Get b port =
     bind (on_be_cloud (GetGlobalBackendService (bes_cloud b) (Namer.Backend (bes_namer b) port)))
       (\<lambda>be. bind (modify_state (be_remember port (Some be))) (\<lambda>_. ret be))"

definition applyLegacyHCToHC :: "HttpHealthCheckV1 \<Rightarrow> HealthCheck \<Rightarrow> HealthCheck" where
  "applyLegacyHCToHC existing hc =
     hc\<lparr>HC := (HC hc)\<lparr>hc_Description := lhc_Description existing,
                      hc_CheckIntervalSec := lhc_CheckIntervalSec existing,
                      hc_HealthyThreshold := lhc_HealthyThreshold existing,
                      hc_TimeoutSec := lhc_TimeoutSec existing,
                      hc_UnhealthyThreshold := lhc_UnhealthyThreshold existing\<rparr>,
        HTTP := (HTTP hc)\<lparr>hh_Host := lhc_Host existing, hh_Port := lhc_Port existing,
                          hh_RequestPath := lhc_RequestPath existing\<rparr>\<rparr>"

definition applyProbeSettingsToHC :: "Probe \<Rightarrow> HealthCheck \<Rightarrow> HealthCheck outcome" where
  "applyProbeSettingsToHC p hc =
     (case pb_HTTPGet p of
        None \<Rightarrow> Panics ''nil pointer dereference''
      | Some g \<Rightarrow>
          let healthPath = (if HasPrefix (hga_Path g) ''/'' then hga_Path g else ''/'' @ hga_Path g);
              host = (case find (\<lambda>(name, val). name = ''Host'') (hga_HTTPHeaders g) of
                        Some (name, val) \<Rightarrow> val | None \<Rightarrow> hga_Host g)
          in Ok (hc\<lparr>HTTP := (HTTP hc)\<lparr>hh_RequestPath := healthPath, hh_Host := host\<rparr>,
                    HC := (HC hc)
                      \<lparr>hc_Description := ''Kubernetes L7 health check generated with readiness probe settings.'',
                       hc_TimeoutSec := pb_TimeoutSeconds p,
                       hc_CheckIntervalSec :=
                         (if ForNEG hc then pb_PeriodSeconds p
                          else pb_PeriodSeconds p + DefaultHealthCheckInterval)\<rparr>\<rparr>))"

definition ensureHealthCheck ::
  "('c, 'n, 'h) Backends \<Rightarrow> ServicePort \<Rightarrow> (('c, 'n, 'h) Backends_state, string) go" where
  "ensureHealthCheck b sp =
     (let hc = hchk_New (bes_healthChecker b) (sp_Port sp) (sp_Protocol sp) (sp_NEGEnabled sp);
          sync = (\<lambda>hc. on_be_hc (hchk_Sync (bes_healthChecker b) hc))
      in bind_err (on_be_hc (hchk_GetLegacy (bes_healthChecker b) (sp_Port sp)))
        (\<lambda>r. case r of
           Inr existingLegacyHC \<Rightarrow> sync (applyLegacyHCToHC existingLegacyHC hc)
         | Inl err \<Rightarrow>
             if \<not> IsNotFoundError (Some err) then fail err
             else case bes_prober b of
                 None \<Rightarrow> sync hc
               | Some getProbe \<Rightarrow>
                   bind (lift_outcome (getProbe sp))
                     (\<lambda>probe. case probe of
                        None \<Rightarrow> sync hc
                      | Some p \<Rightarrow> bind (lift_outcome (applyProbeSettingsToHC p hc)) sync)))"

definition zero_be :: BackendService where
  "zero_be = \<lparr>be_Name = [], be_SelfLink = [], be_Description = [], be_Protocol = [],
              be_HealthChecks = [], be_Port = 0, be_PortName = [], be_Backends = []\<rparr>"

definition be_create ::
  "('c, 'n, 'h) Backends \<Rightarrow> NamedPort \<Rightarrow> string \<Rightarrow> ServicePort \<Rightarrow> string \<Rightarrow>
   (('c, 'n, 'h) Backends_state, BackendService) go" where
  "be_create b namedPort hcLink sp name =
     (let bs = zero_be\<lparr>be_Name := name, be_Description := Description sp,
                       be_Protocol := sp_Protocol sp, be_HealthChecks := [hcLink],
                       be_Port := np_Port namedPort, be_PortName := np_Name namedPort\<rparr>
      in bind (on_be_cloud (CreateGlobalBackendService (bes_cloud b) bs))
           (\<lambda>_. be_Get b (np_Port namedPort)))"

definition getBackendsForIGs :: "InstanceGroup list \<Rightarrow> BalancingMode \<Rightarrow> Backend list" where
  "getBackendsForIGs igs bm =
     map (\<lambda>ig. \<lparr>bk_Group = ig_SelfLink ig, bk_BalancingMode = mode_string bm,
                bk_MaxRatePerInstance = (if bm = Rate then maxRPS else 0),
                bk_MaxRatePerEndpoint = 0\<rparr>) igs"

definition getBackendsForNEGs :: "NetworkEndpointGroup list \<Rightarrow> Backend list" where
  "getBackendsForNEGs negs =
     map (\<lambda>neg. \<lparr>bk_Group = neg_SelfLink neg, bk_BalancingMode = mode_string Rate,
                 bk_MaxRatePerInstance = 0, bk_MaxRatePerEndpoint = maxRPS\<rparr>) negs"

text \<open>
  \<open>edgeHop\<close> changes the backend service that its caller holds, so it returns it beside the error:
  \<open>(be, None)\<close> is the Go result nil with \<open>be\<close> the pointee afterwards.
\<close>

fun try_modes ::
  "('c, 'n, 'h) Backends \<Rightarrow> Backend list \<Rightarrow> InstanceGroup list \<Rightarrow> BalancingMode list \<Rightarrow> gerror list \<Rightarrow>
   BackendService \<Rightarrow> (('c, 'n, 'h) Backends_state, BackendService \<times> gerror option) go" where
  "try_modes b original addIGs [] errs be =
     ret (be, Some (Errorf ''received errors when updating backend service: '' errs))"
| "try_modes b original addIGs (bm # bms) errs be =
     (let be' = be\<lparr>be_Backends := original @ getBackendsForIGs addIGs bm\<rparr> in
      bind_err (on_be_cloud (UpdateGlobalBackendService (bes_cloud b) be'))
        (\<lambda>r. case r of
           Inl err \<Rightarrow> if IsHTTPErrorCode (Some err) StatusBadRequest
                      then try_modes b original addIGs bms (errs @ [err]) be'
                      else ret (be', Some err)
         | Inr _ \<Rightarrow> ret (be', None)))"

definition edgeHop ::
  "('c, 'n, 'h) Backends \<Rightarrow> BackendService \<Rightarrow> InstanceGroup list \<Rightarrow>
   (('c, 'n, 'h) Backends_state, BackendService \<times> gerror option) go" where
  "edgeHop b be igs =
     (let beIGs = set (map bk_Group (be_Backends be));
          igLinks = set (map ig_SelfLink igs)
      in if igLinks \<subseteq> beIGs then ret (be, None)
         else
           let originalIGBackends = filter (\<lambda>k. Contains (bk_Group k) ''instanceGroups'') (be_Backends be);
               addIGs = filter (\<lambda>ig. ig_SelfLink ig \<notin> beIGs) igs
           in try_modes b originalIGBackends addIGs [Rate, Utilization] [] be)"

definition retrieveObjectName :: "string \<Rightarrow> string" where
  "retrieveObjectName url = last (Split url ''/'')"

text \<open>The part of \<open>ensureBackendService\<close> after the backend service is there.\<close>

definition existing_hc_link :: "BackendService \<Rightarrow> string" where
  "existing_hc_link be = (if length (be_HealthChecks be) = 1 then be_HealthChecks be ! 0 else [])"

definition be_matches :: "ServicePort \<Rightarrow> string \<Rightarrow> BackendService \<Rightarrow> bool" where
  "be_matches p hcLink be \<longleftrightarrow>
     be_Protocol be = sp_Protocol p \<and>
     retrieveObjectName (existing_hc_link be) = retrieveObjectName hcLink \<and>
     be_Description be = Description p"

definition reconcile_be ::
  "('c, 'n, 'h) Backends \<Rightarrow> ServicePort \<Rightarrow> InstanceGroup list \<Rightarrow> string \<Rightarrow> BackendService \<Rightarrow>
   (('c, 'n, 'h) Backends_state, BackendService \<times> gerror option) go" where
  "reconcile_be b p igs hcLink be =
     (let existingHCLink = existing_hc_link be;
          be' = (if be_matches p hcLink be then be
                 else be\<lparr>be_Protocol := sp_Protocol p, be_HealthChecks := [hcLink],
                         be_Description := Description p\<rparr>)
      in bind_err (if be_matches p hcLink be then ret ()
                   else on_be_cloud (UpdateGlobalBackendService (bes_cloud b) be'))
        (\<lambda>r. case r of
           Inl err \<Rightarrow> ret (be', Some err)
         | Inr _ \<Rightarrow>
             bind_err (if existingHCLink \<noteq> hcLink \<and> Contains existingHCLink ''/httpHealthChecks/''
                       then on_be_hc (hchk_DeleteLegacy (bes_healthChecker b) (sp_Port p)) else ret ())
               (\<lambda>_. if igs = [] \<or> sp_NEGEnabled p then ret (be', None) else edgeHop b be' igs)))"

text \<open>
  The body of \<open>ensureBackendService\<close>, with the variable \<open>be\<close> that the deferred call captures as
  first component of the result; \<open>None\<close> is the nil pointer it holds after a failed creation.
\<close>

definition ensure_body ::
  "('c, 'n, 'h) Backends \<Rightarrow> ServicePort \<Rightarrow> InstanceGroup list \<Rightarrow>
   (('c, 'n, 'h) Backends_state, BackendService option \<times> gerror option) go" where
  "ensure_body b p igs =
     bind_err (ensureHealthCheck b p)
       (\<lambda>r. case r of
          Inl err \<Rightarrow> ret (Some zero_be, Some err)
        | Inr hcLink \<Rightarrow>
            bind_err
              (bind_err (be_Get b (sp_Port p))
                 (\<lambda>r. case r of
                    Inr be \<Rightarrow> ret be
                  | Inl _ \<Rightarrow>
                      be_create b \<lparr>np_Name = Namer.NamedPort (bes_namer b) (sp_Port p), np_Port = sp_Port p\<rparr>
                        hcLink p (Namer.Backend (bes_namer b) (sp_Port p))))
              (\<lambda>r. case r of
                 Inl err \<Rightarrow> ret (None, Some err)
               | Inr be \<Rightarrow> bind (reconcile_be b p igs hcLink be)
                             (\<lambda>(be', err). ret (Some be', err))))"

definition ensureBackendService ::
  "('c, 'n, 'h) Backends \<Rightarrow> ServicePort \<Rightarrow> InstanceGroup list \<Rightarrow> (('c, 'n, 'h) Backends_state, unit) go" where
  "ensureBackendService b p igs =
     bind (ensure_body b p igs)
       (\<lambda>(be, err). bind (modify_state (be_remember (sp_Port p) be))
          (\<lambda>_. case err of None \<Rightarrow> ret () | Some e \<Rightarrow> fail e))"

text \<open>\<open>igs = None\<close> is the nil slice.\<close>

definition be_Ensure ::
  "('c, 'n, 'h) Backends \<Rightarrow> ServicePort list \<Rightarrow> InstanceGroup list option \<Rightarrow>
   (('c, 'n, 'h) Backends_state, unit) go" where
  "be_Ensure b svcPorts igs =
     bind (case igs of
             Some l \<Rightarrow> ret l
           | None \<Rightarrow> on_be_np (ensure_groups_for (bes_nodePool b) (bes_namer b) (map sp_Port svcPorts)))
       (\<lambda>l. for_each (\<lambda>port. ensureBackendService b port l) svcPorts)"

definition be_Delete :: "('c, 'n, 'h) Backends \<Rightarrow> int \<Rightarrow> (('c, 'n, 'h) Backends_state, unit) go" where
  "be_Delete b port =
     bind_err
       (bind_err (on_be_cloud (DeleteGlobalBackendService (bes_cloud b) (Namer.Backend (bes_namer b) port)))
          (\<lambda>r. case r of
             Inl err \<Rightarrow> if \<not> IsHTTPErrorCode (Some err) StatusNotFound then fail err
                        else on_be_hc (hchk_Delete (bes_healthChecker b) port)
           | Inr _ \<Rightarrow> on_be_hc (hchk_Delete (bes_healthChecker b) port)))
       (\<lambda>r. case r of
          Inl err \<Rightarrow> if IsHTTPErrorCode (Some err) StatusNotFound
                     then modify_state (be_forget port) else fail err
        | Inr _ \<Rightarrow> modify_state (be_forget port))"

definition be_List :: "('c, 'n, 'h) Backends \<Rightarrow> (('c, 'n, 'h) Backends_state, BackendService list) go" where
  "be_List b = on_be_cloud (ListGlobalBackendServices (bes_cloud b))"

definition gc_port ::
  "('c, 'n, 'h) Backends \<Rightarrow> string set \<Rightarrow> string \<Rightarrow> (('c, 'n, 'h) Backends_state, unit) go" where
  "gc_port b knownPorts port =
     (case ParseUint 16 port of
        None \<Rightarrow> fail (Errorf (''strconv.ParseUint: parsing '' @ port) [])
      | Some p \<Rightarrow>
          let nodePort = int p in
          if portKey nodePort \<in> knownPorts \<or> portKey nodePort \<in> bes_ignoredPorts b then ret ()
          else ignoring_not_found (be_Delete b nodePort))"

definition be_GC :: "('c, 'n, 'h) Backends \<Rightarrow> ServicePort list \<Rightarrow> (('c, 'n, 'h) Backends_state, unit) go" where
  "be_GC b svcNodePorts =
     (let knownPorts = (\<lambda>p. portKey (sp_Port p)) ` set svcNodePorts in
      bind (read_state (\<lambda>s. bes_rng b (keys (Snapshot (bes_rng b) (bes_snapshotter s)))))
        (for_each (gc_port b knownPorts)))"

definition be_Shutdown :: "('c, 'n, 'h) Backends \<Rightarrow> (('c, 'n, 'h) Backends_state, unit) go" where
  "be_Shutdown b = be_GC b []"

definition be_Status :: "('c, 'n, 'h) Backends \<Rightarrow> string \<Rightarrow> (('c, 'n, 'h) Backends_state, string) go" where
  "be_Status b name =
     bind_err (on_be_cloud (GetGlobalBackendService (bes_cloud b) name))
       (\<lambda>r. case r of
          Inl _ \<Rightarrow> ret ''Unknown''
        | Inr backend \<Rightarrow>
            (case be_Backends backend of
               [] \<Rightarrow> ret ''Unknown''
             | k # _ \<Rightarrow>
                 bind_err (on_be_cloud (GetGlobalBackendServiceHealth (bes_cloud b) name (bk_Group k)))
                   (\<lambda>r. case r of
                      Inr (Some state # _) \<Rightarrow> ret state
                    | _ \<Rightarrow> ret ''Unknown'')))"

definition be_Link ::
  "('c, 'n, 'h) Backends \<Rightarrow> ServicePort \<Rightarrow> string list \<Rightarrow> (('c, 'n, 'h) Backends_state, unit) go" where
  "be_Link b port zones =
     (if \<not> sp_NEGEnabled port then ret ()
      else bind (lift_outcome (NEG (bes_namer b) (nn_Namespace (sp_SvcName port))
                   (nn_Name (sp_SvcName port)) (sp_SvcTargetPort port)))
        (\<lambda>negName. bind (map_each (\<lambda>zone. lift_outcome (bes_negGetter b negName zone)) zones)
          (\<lambda>negs. bind (on_be_cloud (GetAlphaGlobalBackendService (bes_cloud b)
                          (Namer.Backend (bes_namer b) (sp_Port port))))
            (\<lambda>backendService.
               let targetBackends = getBackendsForNEGs negs;
                   oldBackends = set (map bk_Group (be_Backends backendService));
                   newBackends = set (map bk_Group targetBackends)
               in if oldBackends \<noteq> newBackends
                  then on_be_cloud (UpdateAlphaGlobalBackendService (bes_cloud b)
                         (backendService\<lparr>be_Backends := targetBackends\<rparr>))
                  else ret ()))))"

section \<open>The fake cloud\<close>

text \<open>The error hook sees the operation and the object; \<open>None\<close> as hook is the nil function.\<close>

type_synonym errFunc = "(Call \<Rightarrow> BackendService \<Rightarrow> gerror option) option"

record FakeBackendServices =
  fbs_services :: "(string, BackendService) gomap"
  fbs_calls :: "Call list"

definition NewFakeBackendServices :: FakeBackendServices where
  "NewFakeBackendServices = \<lparr>fbs_services = fmempty, fbs_calls = []\<rparr>"

definition fbs_record :: "Call \<Rightarrow> (FakeBackendServices, unit) go" where
  "fbs_record call = modify_state (\<lambda>f. f\<lparr>fbs_calls := fbs_calls f @ [call]\<rparr>)"

definition fbs_hook :: "errFunc \<Rightarrow> Call \<Rightarrow> BackendService \<Rightarrow> (FakeBackendServices, unit) go" where
  "fbs_hook ef op be =
     (case ef of None \<Rightarrow> ret ()
      | Some f \<Rightarrow> (case f op be of None \<Rightarrow> ret () | Some err \<Rightarrow> fail err))"

definition fbs_Get :: "string \<Rightarrow> (FakeBackendServices, BackendService) go" where
  "fbs_Get name =
     bind (fbs_record GetCall)
       (\<lambda>_. bind (read_state (\<lambda>f. fmlookup (fbs_services f) name))
          (\<lambda>r. case r of
             None \<Rightarrow> fail FakeGoogleAPINotFoundErr
           | Some svc \<Rightarrow> if name = be_Name svc then ret svc else fail FakeGoogleAPINotFoundErr))"

text \<open>
  The JSON conversions between the two API versions: the stable version has no rate per endpoint.
\<close>

definition toV1BackendService :: "BackendService \<Rightarrow> BackendService" where
  "toV1BackendService be =
     be\<lparr>be_Backends := map (\<lambda>k. k\<lparr>bk_MaxRatePerEndpoint := 0\<rparr>) (be_Backends be)\<rparr>"

definition toAlphaBackendService :: "BackendService \<Rightarrow> BackendService" where
  "toAlphaBackendService be = be"

definition fbs_Create :: "errFunc \<Rightarrow> BackendService \<Rightarrow> (FakeBackendServices, unit) go" where
  "fbs_Create ef be =
     bind (fbs_hook ef CreateCall be)
       (\<lambda>_. bind (fbs_record CreateCall)
          (\<lambda>_. modify_state (\<lambda>f. f\<lparr>fbs_services :=
             fmupd (be_Name be) (be\<lparr>be_SelfLink := be_Name be\<rparr>) (fbs_services f)\<rparr>)))"

definition fbs_Update :: "errFunc \<Rightarrow> BackendService \<Rightarrow> (FakeBackendServices, unit) go" where
  "fbs_Update ef be =
     bind (fbs_hook ef UpdateCall be)
       (\<lambda>_. bind (fbs_record UpdateCall)
          (\<lambda>_. modify_state (\<lambda>f. f\<lparr>fbs_services := fmupd (be_Name be) be (fbs_services f)\<rparr>)))"

definition fbs_Delete :: "string \<Rightarrow> (FakeBackendServices, unit) go" where
  "fbs_Delete name =
     bind (fbs_record DeleteCall)
       (\<lambda>_. bind (read_state (\<lambda>f. fmlookup (fbs_services f) name))
          (\<lambda>r. case r of
             None \<Rightarrow> fail FakeGoogleAPINotFoundErr
           | Some svc \<Rightarrow> modify_state (\<lambda>f. f\<lparr>fbs_services := fmdrop (be_Name svc) (fbs_services f)\<rparr>)))"

definition fakeBackendServices ::
  "errFunc \<Rightarrow> (string set \<Rightarrow> string list) \<Rightarrow> FakeBackendServices BackendServices" where
  "fakeBackendServices ef rng =
     \<lparr>GetGlobalBackendService = fbs_Get,
      GetAlphaGlobalBackendService = (\<lambda>name. bind (fbs_Get name) (\<lambda>be. ret (toAlphaBackendService be))),
      UpdateGlobalBackendService = fbs_Update ef,
      UpdateAlphaGlobalBackendService = (\<lambda>be. fbs_Update ef (toV1BackendService be)),
      CreateGlobalBackendService = fbs_Create ef,
      DeleteGlobalBackendService = fbs_Delete,
      ListGlobalBackendServices = read_state (\<lambda>f. map (the \<circ> fmlookup (fbs_services f))
        (rng (keys (fbs_services f)))),
      GetGlobalBackendServiceHealth = (\<lambda>name link. bind (fbs_Get name) (\<lambda>_. ret [Some ''HEALTHY'']))\<rparr>"

lemmas fbs_defs = fakeBackendServices_def fbs_Get_def fbs_Create_def fbs_Update_def fbs_Delete_def
  fbs_hook_def fbs_record_def toAlphaBackendService_def toV1BackendService_def

definition fakeProbeProvider :: "(ServicePort, Probe) gomap \<Rightarrow> probeProvider" where
  "fakeProbeProvider probes port =
     (case fmlookup probes port of
        Some probe \<Rightarrow> Ok (if pb_HTTPGet probe \<noteq> None then Some probe else None)
      | None \<Rightarrow> Ok None)"

section \<open>What the pool relies on\<close>

text \<open>
  The cloud's backend services by name: what is created or updated is stored as sent (the cloud
  picks the self link at creation), a failing call changes nothing, a 404 means that there is no
  service of the name. Of the alpha calls only the linked groups matter.
\<close>

type_synonym service_view = "string \<Rightarrow> BackendService option"

locale be_cloud =
  fixes cl :: "'c BackendServices" and services :: "'c \<Rightarrow> service_view" and inv :: "'c \<Rightarrow> bool"
  assumes get_law: "inv c \<Longrightarrow> wp (GetGlobalBackendService cl name)
      (\<lambda>r c'. inv c' \<and> services c' = services c \<and> found (\<lambda>be. be_Name be = name) (services c name) r) c"
    and get_alpha_law: "inv c \<Longrightarrow> wp (GetAlphaGlobalBackendService cl name)
      (\<lambda>r c'. inv c' \<and> services c' = services c \<and>
         (case r of Ok a \<Rightarrow> be_Name a = name \<and> (\<exists>be. services c name = Some be \<and>
             map bk_Group (be_Backends a) = map bk_Group (be_Backends be))
          | Err _ \<Rightarrow> True | Panics _ \<Rightarrow> False)) c"
    and update_law: "inv c \<Longrightarrow> wp (UpdateGlobalBackendService cl be)
      (\<lambda>r c'. inv c' \<and> (case r of Ok _ \<Rightarrow> services c' = (services c)(be_Name be \<mapsto> be)
          | Err _ \<Rightarrow> services c' = services c | Panics _ \<Rightarrow> False)) c"
    and update_alpha_law: "inv c \<Longrightarrow> wp (UpdateAlphaGlobalBackendService cl be)
      (\<lambda>r c'. inv c' \<and> (case r of Ok _ \<Rightarrow> (\<exists>be'. services c' = (services c)(be_Name be \<mapsto> be') \<and>
             map bk_Group (be_Backends be') = map bk_Group (be_Backends be))
          | Err _ \<Rightarrow> services c' = services c | Panics _ \<Rightarrow> False)) c"
    and create_law: "inv c \<Longrightarrow> wp (CreateGlobalBackendService cl be)
      (\<lambda>r c'. inv c' \<and> (case r of
            Ok _ \<Rightarrow> (\<exists>link. services c' = (services c)(be_Name be \<mapsto> be\<lparr>be_SelfLink := link\<rparr>))
          | Err _ \<Rightarrow> services c' = services c | Panics _ \<Rightarrow> False)) c"
    and delete_law: "inv c \<Longrightarrow> wp (DeleteGlobalBackendService cl name)
      (\<lambda>r c'. inv c' \<and> (case r of Ok _ \<Rightarrow> services c' = (services c)(name := None)
          | Err e \<Rightarrow> services c' = services c \<and>
              (IsHTTPErrorCode (Some e) StatusNotFound \<longrightarrow> services c name = None)
          | Panics _ \<Rightarrow> False)) c"

text \<open>The fake stores every service under its own name.\<close>

definition fbs_inv :: "FakeBackendServices \<Rightarrow> bool" where
  "fbs_inv f \<longleftrightarrow> (\<forall>name be. fmlookup (fbs_services f) name = Some be \<longrightarrow> be_Name be = name)"

interpretation fake_be: be_cloud "fakeBackendServices ef rng" "\<lambda>f. fmlookup (fbs_services f)" fbs_inv
  for ef rng
  by unfold_locales
    (auto simp: fbs_defs wp_simps fbs_inv_def fun_eq_iff comp_def split: option.split)

section \<open>Ensuring a backend service\<close>

text \<open>Calls on the health checker leave the cloud's services and the pool alone.\<close>

definition same_but_hc :: "('c, 'n, 'h) Backends_state \<Rightarrow> ('c, 'n, 'h) Backends_state \<Rightarrow> bool" where
  "same_but_hc s s' \<longleftrightarrow> bes_cloud_st s' = bes_cloud_st s \<and> bes_snapshotter s' = bes_snapshotter s \<and>
     bes_np_st s' = bes_np_st s"

lemma wp_on_be_hc: "wp (on_be_hc m) (\<lambda>r s'. same_but_hc s s') s"
  by (simp add: on_be_hc_def wp_on_part same_but_hc_def wp_def split: prod.split)

lemma same_but_hc_refl [simp]: "same_but_hc s s"
  by (simp add: same_but_hc_def)

lemma wp_ensureHealthCheck: "wp (ensureHealthCheck b sp) (\<lambda>r s'. same_but_hc s s') s"
proof -
  have sync: "wp (on_be_hc m) (\<lambda>r s'. same_but_hc s s') s1" if "same_but_hc s s1" for m s1
    by (rule wp_mono [OF wp_on_be_hc]) (use that in \<open>simp add: same_but_hc_def\<close>)
  show ?thesis
    unfolding ensureHealthCheck_def Let_def wp_bind_err
    by (rule wp_mono [OF wp_on_be_hc])
      (auto simp: wp_simps on_ok_def sync split: outcome.splits option.splits)
qed

text \<open>
  What ensuring promises of a backend service: protocol, description and health check match, and
  it links to all instance groups unless its backends are endpoint groups.
\<close>

definition links_all :: "InstanceGroup list \<Rightarrow> BackendService \<Rightarrow> bool" where
  "links_all igs be \<longleftrightarrow> ig_SelfLink ` set igs \<subseteq> bk_Group ` set (be_Backends be)"

definition be_ready :: "ServicePort \<Rightarrow> InstanceGroup list \<Rightarrow> string \<Rightarrow> BackendService \<Rightarrow> bool" where
  "be_ready p igs hcLink be \<longleftrightarrow>
     be_matches p hcLink be \<and> (sp_NEGEnabled p \<or> links_all igs be)"

locale backends_over = be_cloud "bes_cloud b" services inv
  for b :: "('c, 'n, 'h) Backends" and services :: "'c \<Rightarrow> service_view" and inv :: "'c \<Rightarrow> bool"
begin

abbreviation be_name :: "int \<Rightarrow> string" where
  "be_name port \<equiv> Namer.Backend (bes_namer b) port"

abbreviation sview :: "('c, 'n, 'h) Backends_state \<Rightarrow> service_view" where
  "sview s \<equiv> services (bes_cloud_st s)"

text \<open>The frame of an operation on one port: other services and other pool keys stay.\<close>

definition touches :: "int \<Rightarrow> ('c, 'n, 'h) Backends_state \<Rightarrow> ('c, 'n, 'h) Backends_state \<Rightarrow> bool" where
  "touches port s s' \<longleftrightarrow> inv (bes_cloud_st s') \<and>
     (\<forall>n. n \<noteq> be_name port \<longrightarrow> sview s' n = sview s n) \<and>
     keys (bes_snapshotter s) - {portKey port} = keys (bes_snapshotter s') - {portKey port}"

lemma touches_refl: "inv (bes_cloud_st s) \<Longrightarrow> touches port s s"
  by (simp add: touches_def)

lemma touches_trans: "touches port s s' \<Longrightarrow> touches port s' s'' \<Longrightarrow> touches port s s''"
  by (auto simp: touches_def)

lemma touches_hc: "inv (bes_cloud_st s) \<Longrightarrow> same_but_hc s s' \<Longrightarrow> touches port s s'"
  by (simp add: touches_def same_but_hc_def)

lemma touches_remember: "touches port s s' \<Longrightarrow> touches port s (be_remember port v s')"
  by (auto simp: touches_def be_remember_def pool_Add_def)

lemma sview_remember [simp]: "sview (be_remember port v s) = sview s"
  by (simp add: be_remember_def)

lemma wp_update:
  assumes "inv (bes_cloud_st s)" "be_Name be = be_name port"
  shows "wp (on_be_cloud (UpdateGlobalBackendService (bes_cloud b) be))
     (\<lambda>r s'. touches port s s' \<and>
        (case r of Ok _ \<Rightarrow> sview s' (be_name port) = Some be
         | Err _ \<Rightarrow> sview s' = sview s | Panics _ \<Rightarrow> False)) s"
  unfolding on_be_cloud_def wp_on_part
  by (rule wp_mono [OF update_law [OF assms(1)]])
    (use assms in \<open>auto simp: touches_def split: outcome.splits\<close>)

lemma wp_Get:
  assumes "inv (bes_cloud_st s)"
  shows "wp (be_Get b port)
     (\<lambda>r s'. touches port s s' \<and> sview s' = sview s \<and>
        (case r of Ok be \<Rightarrow> sview s (be_name port) = Some be \<and> be_Name be = be_name port
         | Err _ \<Rightarrow> True | Panics _ \<Rightarrow> False)) s"
proof -
  have "wp (on_be_cloud (GetGlobalBackendService (bes_cloud b) (be_name port)))
     (\<lambda>r s'. touches port s s' \<and> sview s' = sview s \<and>
        (case r of Ok be \<Rightarrow> sview s (be_name port) = Some be \<and> be_Name be = be_name port
         | Err _ \<Rightarrow> True | Panics _ \<Rightarrow> False)) s"
    unfolding on_be_cloud_def wp_on_part
    by (rule wp_mono [OF get_law [OF assms]]) (auto simp: touches_def split: outcome.splits)
  then show ?thesis
    unfolding be_Get_def wp_simps
    by (rule wp_mono) (auto simp: on_ok_def wp_simps intro: touches_remember split: outcome.splits)
qed

lemma wp_create:
  assumes "inv (bes_cloud_st s)"
  shows "wp (be_create b \<lparr>np_Name = np, np_Port = port\<rparr> hcLink sp (be_name port))
     (\<lambda>r s'. touches port s s' \<and>
        (case r of Ok be \<Rightarrow> sview s' (be_name port) = Some be \<and> be_Name be = be_name port
         | Err _ \<Rightarrow> True | Panics _ \<Rightarrow> False)) s"
proof -
  let ?bs = "zero_be\<lparr>be_Name := be_name port, be_Description := Description sp,
      be_Protocol := sp_Protocol sp, be_HealthChecks := [hcLink], be_Port := port, be_PortName := np\<rparr>"
  have create: "wp (on_be_cloud (CreateGlobalBackendService (bes_cloud b) ?bs))
      (\<lambda>r s'. touches port s s' \<and> (case r of Panics _ \<Rightarrow> False | _ \<Rightarrow> True)) s"
    unfolding on_be_cloud_def wp_on_part
    by (rule wp_mono [OF create_law [OF assms]]) (auto simp: touches_def split: outcome.splits)
  show ?thesis
    unfolding be_create_def Let_def wp_bind NamedPort.simps
  proof (rule wp_mono [OF create], goal_cases)
    case (1 r s1)
    then have "inv (bes_cloud_st s1)" by (simp add: touches_def)
    from wp_Get [OF this, of port] 1 show ?case
      by (cases r) (auto elim!: wp_mono intro: touches_trans split: outcome.splits)
  qed
qed

text \<open>
  The retry over the balancing modes. Only a 400 leads to the next mode; a failed call leaves the
  services as they were.
\<close>

lemma wp_try_modes:
  assumes "inv (bes_cloud_st s)" "be_Name be = be_name port"
  shows "wp (try_modes b original addIGs modes errs be)
     (\<lambda>r s'. touches port s s' \<and>
        (case r of
           Ok (be', None) \<Rightarrow> \<exists>bm \<in> set modes.
             be' = be\<lparr>be_Backends := original @ getBackendsForIGs addIGs bm\<rparr> \<and>
             sview s' (be_name port) = Some be'
         | Ok (be', Some _) \<Rightarrow> sview s' = sview s
         | Err _ \<Rightarrow> False | Panics _ \<Rightarrow> False)) s"
  using assms
proof (induction modes arbitrary: errs be s)
  case Nil
  then show ?case by (simp add: wp_simps touches_refl)
next
  case (Cons bm modes)
  let ?be = "be\<lparr>be_Backends := original @ getBackendsForIGs addIGs bm\<rparr>"
  show ?case
    unfolding try_modes.simps Let_def wp_bind_err
  proof (rule wp_mono [OF wp_update [of s ?be port]], goal_cases)
    case (3 r s1)
    then have inv: "inv (bes_cloud_st s1)" by (simp add: touches_def)
    from Cons.IH [OF inv, of ?be] Cons.prems(2)
    have IH: "wp (try_modes b original addIGs modes errs' ?be)
      (\<lambda>r s'. touches port s1 s' \<and>
        (case r of
           Ok (be', None) \<Rightarrow> \<exists>bm \<in> set modes.
             be' = be\<lparr>be_Backends := original @ getBackendsForIGs addIGs bm\<rparr> \<and>
             sview s' (be_name port) = Some be'
         | Ok (be', Some _) \<Rightarrow> sview s' = sview s1
         | Err _ \<Rightarrow> False | Panics _ \<Rightarrow> False)) s1" for errs'
      by (simp cong: outcome.case_cong option.case_cong prod.case_cong)
    show ?case
      using 3 by (cases r)
        (auto simp: wp_simps intro!: wp_mono [OF IH] intro: touches_trans
          split: outcome.splits option.splits prod.splits)
  qed (use Cons.prems in simp_all)
qed

lemma links_all_added:
  assumes "\<forall>ig \<in> set igs. Contains (ig_SelfLink ig) ''instanceGroups''"
  shows "links_all igs (be\<lparr>be_Backends :=
     filter (\<lambda>k. Contains (bk_Group k) ''instanceGroups'') (be_Backends be) @
     getBackendsForIGs (filter (\<lambda>ig. ig_SelfLink ig \<notin> set (map bk_Group (be_Backends be))) igs) bm\<rparr>)"
  unfolding links_all_def
proof
  fix l assume "l \<in> ig_SelfLink ` set igs"
  then obtain ig where ig: "ig \<in> set igs" "l = ig_SelfLink ig" by blast
  show "l \<in> bk_Group ` set (be_Backends (be\<lparr>be_Backends :=
      filter (\<lambda>k. Contains (bk_Group k) ''instanceGroups'') (be_Backends be) @
      getBackendsForIGs (filter (\<lambda>ig. ig_SelfLink ig \<notin> set (map bk_Group (be_Backends be))) igs) bm\<rparr>))"
  proof (cases "l \<in> bk_Group ` set (be_Backends be)")
    case True
    with ig assms show ?thesis by (auto simp: image_Un)
  next
    case False
    with ig show ?thesis
      by (auto simp: image_Un getBackendsForIGs_def image_image)
  qed
qed

lemma wp_edgeHop:
  assumes "inv (bes_cloud_st s)" "sview s (be_name port) = Some be" "be_Name be = be_name port"
    and "\<forall>ig \<in> set igs. Contains (ig_SelfLink ig) ''instanceGroups''"
  shows "wp (edgeHop b be igs)
     (\<lambda>r s'. touches port s s' \<and>
        (case r of
           Ok (be', None) \<Rightarrow> sview s' (be_name port) = Some be' \<and> links_all igs be' \<and>
             (\<exists>bks. be' = be\<lparr>be_Backends := bks\<rparr>)
         | Ok (be', Some _) \<Rightarrow> sview s' = sview s
         | Err _ \<Rightarrow> False | Panics _ \<Rightarrow> False)) s"
proof (cases "set (map ig_SelfLink igs) \<subseteq> set (map bk_Group (be_Backends be))")
  case True
  have "\<exists>bks. be = be\<lparr>be_Backends := bks\<rparr>" by (rule exI [of _ "be_Backends be"]) simp
  with True show ?thesis
    using assms by (simp add: edgeHop_def Let_def wp_simps touches_refl links_all_def)
next
  case False
  show ?thesis
    unfolding edgeHop_def Let_def if_not_P [OF False]
  proof (rule wp_mono [OF wp_try_modes [OF assms(1,3)]], goal_cases)
    case (1 r s')
    with links_all_added [OF assms(4), of be] show ?case
      by (auto split: outcome.splits option.splits prod.splits simp del: set_map)
  qed
qed

lemma be_matches_fixed:
  "be_matches p hcLink (be\<lparr>be_Protocol := sp_Protocol p, be_HealthChecks := [hcLink],
     be_Description := Description p\<rparr>)"
  by (simp add: be_matches_def existing_hc_link_def)

lemma be_matches_backends [simp]: "be_matches p hcLink (be\<lparr>be_Backends := bks\<rparr>) = be_matches p hcLink be"
  by (simp add: be_matches_def existing_hc_link_def)

text \<open>The tail of reconciling, once the service in the cloud matches.\<close>

lemma wp_reconcile_tail:
  assumes inv: "inv (bes_cloud_st s)" and be: "sview s (be_name port) = Some be" "be_Name be = be_name port"
    and igs: "\<forall>ig \<in> set igs. Contains (ig_SelfLink ig) ''instanceGroups''"
    and p: "sp_Port p = port" "be_matches p hcLink be"
  shows "wp (bind_err (if legacy then on_be_hc m else ret ())
               (\<lambda>_. if igs = [] \<or> sp_NEGEnabled p then ret (be, None) else edgeHop b be igs))
     (\<lambda>r s'. touches port s s' \<and>
        (case r of
           Ok (be', None) \<Rightarrow> sview s' (be_name port) = Some be' \<and> be_ready p igs hcLink be'
         | Ok (be', Some _) \<Rightarrow> True
         | Err _ \<Rightarrow> False | Panics _ \<Rightarrow> True)) s"
proof -
  let ?Q = "\<lambda>r s'. touches port s s' \<and>
        (case r of
           Ok (be', None) \<Rightarrow> sview s' (be_name port) = Some be' \<and> be_ready p igs hcLink be'
         | Ok (be', Some _) \<Rightarrow> True
         | Err _ \<Rightarrow> False | Panics _ \<Rightarrow> True)"
  have tail: "wp (if igs = [] \<or> sp_NEGEnabled p then ret (be, None) else edgeHop b be igs) ?Q s1"
    if "same_but_hc s s1" for s1
  proof -
    have s1: "inv (bes_cloud_st s1)" "sview s1 (be_name port) = Some be" "touches port s s1"
      using that inv be by (simp_all add: same_but_hc_def touches_def)
    show ?thesis
    proof (cases "igs = [] \<or> sp_NEGEnabled p")
      case True
      with s1 p show ?thesis by (auto simp: wp_simps be_ready_def links_all_def)
    next
      case False
      show ?thesis
        unfolding if_not_P [OF False]
      proof (rule wp_mono [OF wp_edgeHop [OF s1(1,2) be(2) igs]], goal_cases)
        case (1 r s')
        then show ?case
          using p(2) touches_trans [OF s1(3)] by (auto simp: be_ready_def split: outcome.splits option.splits)
      qed
    qed
  qed
  have legacy: "wp (if legacy then on_be_hc m else ret ()) (\<lambda>_. same_but_hc s) s"
    by (simp add: wp_simps wp_on_be_hc)
  show ?thesis
    unfolding wp_bind_err
  proof (rule wp_mono [OF legacy], goal_cases)
    case (1 r s1)
    with tail [OF 1] inv show ?case by (cases r) (simp_all add: touches_hc)
  qed
qed

lemma wp_reconcile:
  assumes inv: "inv (bes_cloud_st s)" and be: "sview s (be_name port) = Some be" "be_Name be = be_name port"
    and igs: "\<forall>ig \<in> set igs. Contains (ig_SelfLink ig) ''instanceGroups''"
    and p: "sp_Port p = port"
  shows "wp (reconcile_be b p igs hcLink be)
     (\<lambda>r s'. touches port s s' \<and>
        (case r of
           Ok (be', None) \<Rightarrow> sview s' (be_name port) = Some be' \<and> be_ready p igs hcLink be'
         | Ok (be', Some _) \<Rightarrow> True
         | Err _ \<Rightarrow> False | Panics _ \<Rightarrow> True)) s"
proof (cases "be_matches p hcLink be")
  case True
  show ?thesis
    unfolding reconcile_be_def Let_def if_P [OF True] wp_bind_err [of "ret ()"] wp_ret outcome.case sum.case
    by (rule wp_reconcile_tail [OF inv be igs p True])
next
  case False
  let ?be = "be\<lparr>be_Protocol := sp_Protocol p, be_HealthChecks := [hcLink], be_Description := Description p\<rparr>"
  show ?thesis
    unfolding reconcile_be_def Let_def if_not_P [OF False]
      wp_bind_err [of "on_be_cloud (UpdateGlobalBackendService _ _)"]
  proof (rule wp_mono [OF wp_update [OF inv, of ?be port]], goal_cases)
    case (2 r s1)
    show ?case
    proof (cases r)
      case (Ok u)
      with 2 have s1: "inv (bes_cloud_st s1)" "sview s1 (be_name port) = Some ?be" "touches port s s1"
        by (auto simp: touches_def)
      from be(2) have nm: "be_Name ?be = be_name port" by simp
      show ?thesis
        unfolding Ok outcome.case sum.case
        by (rule wp_mono [OF wp_reconcile_tail [OF s1(1,2) nm igs p be_matches_fixed]])
          (auto intro: touches_trans [OF s1(3)])
    qed (use 2 in \<open>auto simp: wp_simps\<close>)
  qed (use be in simp)
qed

text \<open>One service port, from the health check to the linked groups.\<close>

lemma wp_ensure_body:
  assumes inv: "inv (bes_cloud_st s)"
    and igs: "\<forall>ig \<in> set igs. Contains (ig_SelfLink ig) ''instanceGroups''"
    and p: "sp_Port p = port"
  shows "wp (ensure_body b p igs)
     (\<lambda>r s'. touches port s s' \<and>
        (case r of
           Ok (be', None) \<Rightarrow> \<exists>be hcLink. be' = Some be \<and> sview s' (be_name port) = Some be \<and>
             fst (ensureHealthCheck b p s) = Ok hcLink \<and> be_ready p igs hcLink be
         | Ok (be', Some _) \<Rightarrow> True
         | Err _ \<Rightarrow> False | Panics _ \<Rightarrow> True)) s"
proof -
  let ?Q = "\<lambda>r s'. touches port s s' \<and>
        (case r of
           Ok (be', None) \<Rightarrow> \<exists>be hcLink. be' = Some be \<and> sview s' (be_name port) = Some be \<and>
             fst (ensureHealthCheck b p s) = Ok hcLink \<and> be_ready p igs hcLink be
         | Ok (be', Some _) \<Rightarrow> True
         | Err _ \<Rightarrow> False | Panics _ \<Rightarrow> True)"
  let ?goc = "\<lambda>hcLink. bind_err (be_Get b (sp_Port p))
                 (\<lambda>r. case r of
                    Inr be \<Rightarrow> ret be
                  | Inl _ \<Rightarrow>
                      be_create b \<lparr>np_Name = Namer.NamedPort (bes_namer b) (sp_Port p), np_Port = sp_Port p\<rparr>
                        hcLink p (Namer.Backend (bes_namer b) (sp_Port p)))"
  have goc: "wp (?goc hcLink) (\<lambda>r s'. touches port s s' \<and>
        (case r of Ok be \<Rightarrow> sview s' (be_name port) = Some be \<and> be_Name be = be_name port
         | Err _ \<Rightarrow> True | Panics _ \<Rightarrow> False)) s1"
    if "touches port s s1" for hcLink s1
    unfolding p wp_bind_err
  proof (rule wp_mono [OF wp_Get [of s1 port]], goal_cases)
    case (2 r s2)
    then have t: "touches port s s2" "inv (bes_cloud_st s2)"
      using touches_trans [OF that] by (auto simp: touches_def)
    show ?case
      using 2 t by (cases r)
        (auto simp: wp_simps intro!: wp_mono [OF wp_create] intro: touches_trans [OF t(1)]
          split: outcome.splits)
  qed (use that in \<open>simp add: touches_def\<close>)
  have tail: "wp (bind_err (?goc hcLink)
              (\<lambda>r. case r of
                 Inl err \<Rightarrow> ret (None, Some err)
               | Inr be \<Rightarrow> bind (reconcile_be b p igs hcLink be) (\<lambda>(be', err). ret (Some be', err)))) ?Q s1"
    if s1: "touches port s s1" and hc: "fst (ensureHealthCheck b p s) = Ok hcLink" for hcLink s1
    unfolding wp_bind_err [of "?goc hcLink"]
  proof (rule wp_mono [OF goc [OF s1]], goal_cases)
    case (1 r s2)
    show ?case
    proof (cases r)
      case (Ok be)
      with 1 have s2: "inv (bes_cloud_st s2)" "sview s2 (be_name port) = Some be"
        "be_Name be = be_name port" "touches port s s2" by (auto simp: touches_def)
      show ?thesis
        unfolding Ok outcome.case sum.case wp_bind
        by (rule wp_mono [OF wp_reconcile [OF s2(1-3) igs p]])
          (use hc in \<open>auto simp: on_ok_def wp_simps intro: touches_trans [OF s2(4)]
            split: outcome.splits option.splits prod.splits\<close>)
    qed (use 1 in \<open>auto simp: wp_simps\<close>)
  qed
  have hc: "wp (ensureHealthCheck b p)
      (\<lambda>r s'. fst (ensureHealthCheck b p s) = r \<and> same_but_hc s s') s"
    by (rule wp_conj [OF _ wp_ensureHealthCheck]) (simp add: wp_def split: prod.split)
  show ?thesis
    unfolding ensure_body_def wp_bind_err [of "ensureHealthCheck b p"]
  proof (rule wp_mono [OF hc], goal_cases)
    case (1 r s1)
    then have "touches port s s1" using inv by (simp add: touches_hc)
    with 1 tail show ?case by (cases r) (auto simp: wp_simps)
  qed
qed

lemma wp_ensureBackendService:
  assumes inv: "inv (bes_cloud_st s)"
    and igs: "\<forall>ig \<in> set igs. Contains (ig_SelfLink ig) ''instanceGroups''"
  shows "wp (ensureBackendService b p igs)
     (\<lambda>r s'. touches (sp_Port p) s s' \<and>
        (case r of
           Ok _ \<Rightarrow> portKey (sp_Port p) \<in> keys (bes_snapshotter s') \<and>
             (\<exists>be hcLink. sview s' (be_name (sp_Port p)) = Some be \<and>
               fst (ensureHealthCheck b p s) = Ok hcLink \<and> be_ready p igs hcLink be)
         | Err _ \<Rightarrow> portKey (sp_Port p) \<in> keys (bes_snapshotter s')
         | Panics _ \<Rightarrow> True)) s"
  unfolding ensureBackendService_def wp_bind
  by (rule wp_mono [OF wp_ensure_body [OF inv igs refl]])
    (auto simp: on_ok_def wp_simps be_remember_def [of _ _ "_ :: ('c, 'n, 'h) Backends_state"]
      pool_Add_def touches_def split: outcome.splits option.splits prod.splits)

lemma touches_forget: "touches port s s' \<Longrightarrow> touches port s (be_forget port s')"
  by (auto simp: touches_def be_forget_def pool_Delete_def)

lemma wp_Delete:
  assumes inv: "inv (bes_cloud_st s)"
  shows "wp (be_Delete b port)
     (\<lambda>r s'. touches port s s' \<and>
        (case r of
           Ok _ \<Rightarrow> sview s' (be_name port) = None \<and> portKey port \<notin> keys (bes_snapshotter s')
         | Err e \<Rightarrow> \<not> IsHTTPErrorCode (Some e) StatusNotFound \<and> bes_snapshotter s' = bes_snapshotter s
         | Panics _ \<Rightarrow> True)) s"
proof -
  let ?P = "\<lambda>r s'. touches port s s' \<and> bes_snapshotter s' = bes_snapshotter s \<and>
      (case r of Ok _ \<Rightarrow> sview s' (be_name port) = None
       | Err e \<Rightarrow> IsHTTPErrorCode (Some e) StatusNotFound \<longrightarrow> sview s' (be_name port) = None
       | Panics _ \<Rightarrow> True)"
  have hc: "wp (on_be_hc m) ?P s1"
    if "touches port s s1" "bes_snapshotter s1 = bes_snapshotter s" "sview s1 (be_name port) = None"
    for m :: "('h, unit) go" and s1
    by (rule wp_mono [OF wp_on_be_hc])
      (use that in \<open>auto simp: same_but_hc_def touches_def split: outcome.splits\<close>)
  have del: "wp (on_be_cloud (DeleteGlobalBackendService (bes_cloud b) (be_name port)))
      (\<lambda>r s'. touches port s s' \<and> bes_snapshotter s' = bes_snapshotter s \<and>
         (case r of Ok _ \<Rightarrow> sview s' (be_name port) = None
          | Err e \<Rightarrow> IsHTTPErrorCode (Some e) StatusNotFound \<longrightarrow> sview s' (be_name port) = None
          | Panics _ \<Rightarrow> False)) s"
    unfolding on_be_cloud_def wp_on_part
    by (rule wp_mono [OF delete_law [OF inv]]) (auto simp: touches_def split: outcome.splits)
  have inner: "wp (bind_err (on_be_cloud (DeleteGlobalBackendService (bes_cloud b) (be_name port)))
          (\<lambda>r. case r of
             Inl err \<Rightarrow> if \<not> IsHTTPErrorCode (Some err) StatusNotFound then fail err
                        else on_be_hc (hchk_Delete (bes_healthChecker b) port)
           | Inr _ \<Rightarrow> on_be_hc (hchk_Delete (bes_healthChecker b) port))) ?P s"
    unfolding wp_bind_err
  proof (rule wp_mono [OF del], goal_cases)
    case (1 r s1)
    then show ?case using hc [of s1] by (cases r) (simp_all add: wp_simps)
  qed
  show ?thesis
    unfolding be_Delete_def wp_bind_err [of "bind_err _ _"]
  proof (rule wp_mono [OF inner], goal_cases)
    case (1 r s1)
    then show ?case
      using touches_forget [of port s s1]
      by (cases r) (auto simp: wp_simps, auto simp: be_forget_def pool_Delete_def)
  qed
qed

lemma wp_gc_port:
  assumes inv: "inv (bes_cloud_st s)" and p: "p < 2 ^ 16"
  shows "wp (gc_port b known (portKey (int p)))
     (\<lambda>r s'. if portKey (int p) \<in> known \<or> portKey (int p) \<in> bes_ignoredPorts b then r = Ok () \<and> s' = s
        else touches (int p) s s' \<and>
          (case r of
             Ok _ \<Rightarrow> sview s' (be_name (int p)) = None \<and> portKey (int p) \<notin> keys (bes_snapshotter s')
           | Err e \<Rightarrow> bes_snapshotter s' = bes_snapshotter s
           | Panics _ \<Rightarrow> True)) s"
proof -
  have "ParseUint 16 (portKey (int p)) = Some p"
    using p by (simp add: portKey_def Itoa_nat ParseUint_dec_nat)
  then have gc: "gc_port b known (portKey (int p)) =
      (if portKey (int p) \<in> known \<or> portKey (int p) \<in> bes_ignoredPorts b then ret ()
       else ignoring_not_found (be_Delete b (int p)))" by (simp add: gc_port_def Let_def)
  have "wp (ignoring_not_found (be_Delete b (int p)))
      (\<lambda>r s'. touches (int p) s s' \<and>
        (case r of
           Ok _ \<Rightarrow> sview s' (be_name (int p)) = None \<and> portKey (int p) \<notin> keys (bes_snapshotter s')
         | Err e \<Rightarrow> bes_snapshotter s' = bes_snapshotter s
         | Panics _ \<Rightarrow> True)) s"
    unfolding ignoring_not_found_def wp_bind_err
  proof (rule wp_mono [OF wp_Delete [OF inv]], goal_cases)
    case (1 r s')
    then show ?case by (cases r) (simp_all add: wp_simps IgnoreHTTPNotFound_def)
  qed
  then show ?thesis unfolding gc by (simp add: wp_ret)
qed

text \<open>The ports whose backends are garbage: in the pool, but neither known nor ignored.\<close>

definition garbage :: "string set \<Rightarrow> ('c, 'n, 'h) Backends_state \<Rightarrow> string set" where
  "garbage known s = keys (bes_snapshotter s) - known - bes_ignoredPorts b"

definition canonical :: "('c, 'n, 'h) Backends_state \<Rightarrow> bool" where
  "canonical s \<longleftrightarrow> (\<forall>k \<in> keys (bes_snapshotter s). \<exists>p < 2 ^ 16. k = portKey (int p))"

definition gc_frame :: "string set \<Rightarrow> ('c, 'n, 'h) Backends_state \<Rightarrow> ('c, 'n, 'h) Backends_state \<Rightarrow> bool" where
  "gc_frame known s s' \<longleftrightarrow> inv (bes_cloud_st s') \<and>
     (\<forall>n. (\<forall>p. portKey p \<in> garbage known s \<longrightarrow> n \<noteq> be_name p) \<longrightarrow> sview s' n = sview s n) \<and>
     keys (bes_snapshotter s) - garbage known s \<subseteq> keys (bes_snapshotter s') \<and>
     keys (bes_snapshotter s') \<subseteq> keys (bes_snapshotter s)"

lemma gc_frame_touches:
  assumes "gc_frame known s s1" "touches (int p) s1 s2" "portKey (int p) \<in> garbage known s"
  shows "gc_frame known s s2"
proof -
  from assms have "portKey (int p) \<in> keys (bes_snapshotter s)" by (simp add: garbage_def)
  moreover have "keys (bes_snapshotter s1) - {portKey (int p)} = keys (bes_snapshotter s2) - {portKey (int p)}"
    using assms(2) by (simp add: touches_def)
  ultimately have "keys (bes_snapshotter s) - garbage known s \<subseteq> keys (bes_snapshotter s2)"
    "keys (bes_snapshotter s2) \<subseteq> keys (bes_snapshotter s)"
    using assms(1,3) unfolding gc_frame_def by blast+
  then show ?thesis using assms by (simp add: gc_frame_def touches_def)
qed

lemma wp_GC:
  fixes svcs :: "ServicePort list"
  assumes rng: "string_range (bes_rng b)" and inv: "inv (bes_cloud_st s)" and can: "canonical s"
  defines "known \<equiv> (\<lambda>p. portKey (sp_Port p)) ` set svcs"
  shows "wp (be_GC b svcs)
     (\<lambda>r s'. gc_frame known s s' \<and>
        (case r of
           Ok _ \<Rightarrow> keys (bes_snapshotter s') = keys (bes_snapshotter s) - garbage known s \<and>
             (\<forall>p. portKey p \<in> garbage known s \<longrightarrow> sview s' (be_name p) = None)
         | Err _ \<Rightarrow> True | Panics _ \<Rightarrow> True)) s"
proof -
  let ?ks = "bes_rng b (keys (bes_snapshotter s))"
  have ks: "set ?ks = keys (bes_snapshotter s)"
    using rng by (simp add: string_range_def map_range.set_rng)
  let ?I = "\<lambda>dn s'. gc_frame known s s' \<and>
      keys (bes_snapshotter s') \<subseteq> keys (bes_snapshotter s) - (garbage known s \<inter> set dn) \<and>
      (\<forall>p. portKey p \<in> garbage known s \<inter> set dn \<longrightarrow> sview s' (be_name p) = None)"
  have step: "wp (gc_port b known k) (on_ok (\<lambda>_. ?I (dn @ [k])) (\<lambda>r s'. gc_frame known s s' \<and>
        (case r of
           Ok _ \<Rightarrow> keys (bes_snapshotter s') = keys (bes_snapshotter s) - garbage known s \<and>
             (\<forall>p. portKey p \<in> garbage known s \<longrightarrow> sview s' (be_name p) = None)
         | Err _ \<Rightarrow> True | Panics _ \<Rightarrow> True))) s1"
    if k: "k \<in> keys (bes_snapshotter s)" and I: "?I dn s1" for k dn s1
  proof -
    from can k obtain p where p: "p < 2 ^ 16" "k = portKey (int p)" by (auto simp: canonical_def)
    have inj: "int p = q" if "portKey q = portKey (int p)" for q
      using that by (simp add: portKey_def Itoa_inject)
    have inv1: "inv (bes_cloud_st s1)" using I by (simp add: gc_frame_def)
    show ?thesis
    proof (cases "k \<in> known \<or> k \<in> bes_ignoredPorts b")
      case True
      then have "k \<notin> garbage known s" by (auto simp: garbage_def)
      then have same: "garbage known s \<inter> set (dn @ [k]) = garbage known s \<inter> set dn" by auto
      show ?thesis
        unfolding p(2)
      proof (rule wp_mono [OF wp_gc_port [OF inv1 p(1)]], goal_cases)
        case (1 r s2)
        with True p(2) have "r = Ok ()" "s2 = s1" by simp_all
        with I same p(2) show ?case by simp
      qed
    next
      case False
      then have g: "portKey (int p) \<in> garbage known s" using k p(2) by (simp add: garbage_def)
      show ?thesis
        unfolding p(2)
      proof (rule wp_mono [OF wp_gc_port [OF inv1 p(1)]], goal_cases)
        case (1 r s2)
        with False p(2) have t: "touches (int p) s1 s2" by simp
        with I g have frame: "gc_frame known s s2" by (blast intro: gc_frame_touches)
        have keep: "sview s2 (be_name q) = None" if "portKey q \<in> garbage known s" "portKey q \<in> set dn"
            "sview s2 (be_name (int p)) = None" for q
          using that I t by (cases "be_name q = be_name (int p)") (simp_all add: touches_def)
        have sub: "keys (bes_snapshotter s2) \<subseteq> insert (portKey (int p)) (keys (bes_snapshotter s1))"
          using t by (auto simp: touches_def)
        show ?case
        proof (cases r)
          case (Ok u)
          with 1 False p(2) have gone: "sview s2 (be_name (int p)) = None"
            "portKey (int p) \<notin> keys (bes_snapshotter s2)" by simp_all
          have "sview s2 (be_name q) = None" if "portKey q \<in> garbage known s" "portKey q \<in> set (dn @ [portKey (int p)])" for q
            using that keep [of q] gone(1) inj [of q] by auto
          moreover have "keys (bes_snapshotter s2) \<subseteq>
              keys (bes_snapshotter s) - (garbage known s \<inter> set (dn @ [portKey (int p)]))"
            using gone(2) I sub g by (auto simp: garbage_def)
          ultimately show ?thesis using frame by (simp add: Ok)
        qed (simp_all add: frame)
      qed
    qed
  qed
  have "wp (for_each (gc_port b known) ?ks) (\<lambda>r s'. gc_frame known s s' \<and>
        (case r of
           Ok _ \<Rightarrow> keys (bes_snapshotter s') = keys (bes_snapshotter s) - garbage known s \<and>
             (\<forall>p. portKey p \<in> garbage known s \<longrightarrow> sview s' (be_name p) = None)
         | Err _ \<Rightarrow> True | Panics _ \<Rightarrow> True)) s"
  proof (rule wp_for_each [where I = ?I], goal_cases)
    case 1
    then show ?case using inv by (simp add: gc_frame_def)
  next
    case (2 dn k rest s1)
    then show ?case using ks by (intro step) auto
  next
    case (3 s1)
    moreover have "garbage known s \<inter> set ?ks = garbage known s" using ks by (auto simp: garbage_def)
    ultimately show ?case by (simp add: gc_frame_def) blast
  qed
  then show ?thesis
    by (simp add: be_GC_def known_def wp_simps string_range.Snapshot_id [OF rng])
qed

lemma wp_neg_lookup:
  "wp (map_each (\<lambda>zone. lift_outcome (bes_negGetter b negName zone)) zones)
     (\<lambda>r s'. s' = s \<and> (case r of Ok negs \<Rightarrow> map Ok negs = map (bes_negGetter b negName) zones | _ \<Rightarrow> True)) s"
  by (rule wp_map_each [where I = "\<lambda>dn negs s'. s' = s \<and> map Ok negs = map (bes_negGetter b negName) dn"])
    (auto simp: wp_simps on_ok_def split: outcome.splits)

lemma wp_Link:
  assumes inv: "inv (bes_cloud_st s)" and neg: "sp_NEGEnabled p"
    and name: "NEG (bes_namer b) (nn_Namespace (sp_SvcName p)) (nn_Name (sp_SvcName p)) (sp_SvcTargetPort p) = Ok negName"
  shows "wp (be_Link b p zones)
     (\<lambda>r s'. (\<forall>n. n \<noteq> be_name (sp_Port p) \<longrightarrow> sview s' n = sview s n) \<and>
        (r = Ok () \<longrightarrow> (\<exists>negs be. map Ok negs = map (bes_negGetter b negName) zones \<and>
           sview s' (be_name (sp_Port p)) = Some be \<and>
           bk_Group ` set (be_Backends be) = neg_SelfLink ` set negs))) s"
proof -
  let ?n = "be_name (sp_Port p)"
  let ?Q = "\<lambda>r s'. (\<forall>n. n \<noteq> ?n \<longrightarrow> sview s' n = sview s n) \<and>
        (r = Ok () \<longrightarrow> (\<exists>negs be. map Ok negs = map (bes_negGetter b negName) zones \<and>
           sview s' ?n = Some be \<and> bk_Group ` set (be_Backends be) = neg_SelfLink ` set negs))"
  have upd: "wp (on_be_cloud (UpdateAlphaGlobalBackendService (bes_cloud b)
      (a\<lparr>be_Backends := getBackendsForNEGs negs\<rparr>))) ?Q s1"
    if "inv (bes_cloud_st s1)" "sview s1 = sview s" "be_Name a = ?n"
      "map Ok negs = map (bes_negGetter b negName) zones" for a negs s1
  proof -
    have groups: "bk_Group ` set (be_Backends be') = neg_SelfLink ` set negs"
      if "map bk_Group (be_Backends be') = map bk_Group (getBackendsForNEGs negs)" for be'
      using arg_cong [OF that, of set] by (auto simp: getBackendsForNEGs_def image_image)
    show ?thesis
      unfolding on_be_cloud_def wp_on_part
    proof (rule wp_mono [OF update_alpha_law [OF that(1)]], goal_cases)
      case (1 r c')
      show ?case
      proof (cases r)
        case (Ok u)
        with 1 that(3) obtain be' where be': "services c' = (sview s1)(?n \<mapsto> be')"
          "map bk_Group (be_Backends be') = map bk_Group (getBackendsForNEGs negs)" by auto
        have "services c' ?n = Some be'" using be'(1) by simp
        with groups [OF be'(2)] that(4) have "\<exists>negs be. map Ok negs = map (bes_negGetter b negName) zones \<and>
            services c' ?n = Some be \<and> bk_Group ` set (be_Backends be) = neg_SelfLink ` set negs" by blast
        with be'(1) that(2) show ?thesis by simp
      qed (use 1 that in auto)
    qed
  qed
  have get: "wp (on_be_cloud (GetAlphaGlobalBackendService (bes_cloud b) ?n))
      (\<lambda>r s'. inv (bes_cloud_st s') \<and> sview s' = sview s \<and>
         (case r of Ok a \<Rightarrow> be_Name a = ?n \<and> (\<exists>be. sview s ?n = Some be \<and>
             map bk_Group (be_Backends a) = map bk_Group (be_Backends be)) | _ \<Rightarrow> True)) s"
    unfolding on_be_cloud_def wp_on_part
    by (rule wp_mono [OF get_alpha_law [OF inv]]) (auto split: outcome.splits)
  have tail: "wp (bind (on_be_cloud (GetAlphaGlobalBackendService (bes_cloud b) ?n))
      (\<lambda>a. if set (map bk_Group (be_Backends a)) \<noteq> set (map bk_Group (getBackendsForNEGs negs))
        then on_be_cloud (UpdateAlphaGlobalBackendService (bes_cloud b)
               (a\<lparr>be_Backends := getBackendsForNEGs negs\<rparr>))
        else ret ())) ?Q s"
    if negs: "map Ok negs = map (bes_negGetter b negName) zones" for negs
    unfolding wp_bind
  proof (rule wp_mono [OF get], goal_cases)
    case (1 r s1)
    show ?case
    proof (cases r)
      case (Ok a)
      with 1 obtain be where be: "be_Name a = ?n" "sview s ?n = Some be"
        "map bk_Group (be_Backends a) = map bk_Group (be_Backends be)" by auto
      show ?thesis
      proof (cases "set (map bk_Group (be_Backends a)) = set (map bk_Group (getBackendsForNEGs negs))")
        case True
        then have "bk_Group ` set (be_Backends be) = neg_SelfLink ` set negs"
          unfolding be(3) by (simp add: getBackendsForNEGs_def image_image)
        with negs be(2) have "\<exists>negs be. map Ok negs = map (bes_negGetter b negName) zones \<and>
            sview s ?n = Some be \<and> bk_Group ` set (be_Backends be) = neg_SelfLink ` set negs" by blast
        with True 1 show ?thesis by (simp only: Ok on_ok_simps wp_simps simp_thms if_False)
      next
        case False
        with upd [of s1 a negs] 1 negs be(1) show ?thesis by (simp add: Ok del: set_map)
      qed
    qed (use 1 in auto)
  qed
  show ?thesis
    unfolding be_Link_def if_not_P [OF not_not [THEN iffD2, OF neg]] name Let_def
      wp_bind [of "lift_outcome _"] wp_bind [of "map_each _ _"] wp_lift_outcome on_ok_simps
  proof (rule wp_mono [OF wp_neg_lookup], goal_cases)
    case (1 r s1)
    show ?case
    proof (cases r)
      case (Ok negs)
      with 1 have "s1 = s" "map Ok negs = map (bes_negGetter b negName) zones" by simp_all
      with tail [of negs] show ?thesis by (simp only: Ok on_ok_simps)
    qed (use 1 in simp_all)
  qed
qed

end

section \<open>Properties\<close>


definition fake_backends ::
  "(FakeBackendServices, FakeInstanceGroups Instances_state, FakeHealthCheckProvider) Backends" where
  "fake_backends = NewBackendPool (fakeBackendServices None set_List)
     (\<lambda>name zone. Ok \<lparr>neg_Name = name, neg_SelfLink = zone @ ''/'' @ name, neg_Type = [],
        neg_NetworkEndpointType = [], neg_Network = [], neg_Subnetwork = []\<rparr>)
     (HealthChecker_of (NewHealthChecker fakeHealthCheckProvider ''/'' (NewNamer ''uid1'' [])))
     (NodePool_of (fake_pool [''zone-a''])) (NewNamer ''uid1'' []) [] set_List"

definition fake_backends_st ::
  "(FakeBackendServices, FakeInstanceGroups Instances_state, FakeHealthCheckProvider) Backends_state" where
  "fake_backends_st =
     \<lparr>bes_cloud_st = NewFakeBackendServices,
      bes_np_st = \<lparr>ins_cloud_st = NewFakeInstanceGroups {}, ins_snapshotter = NewInMemoryPool\<rparr>,
      bes_hc_st = NewFakeHealthCheckProvider, bes_snapshotter = NewInMemoryPool\<rparr>"

definition example_port :: "int \<Rightarrow> bool \<Rightarrow> ServicePort" where
  "example_port p neg =
     \<lparr>sp_Port = p, sp_Protocol = ProtocolHTTP,
      sp_SvcName = \<lparr>nn_Namespace = ''default'', nn_Name = ''web''\<rparr>, sp_SvcPort = IntVal 80,
      sp_SvcTargetPort = ''80'', sp_NEGEnabled = neg\<rparr>"

definition example_group :: InstanceGroup where
  "example_group = \<lparr>ig_Name = ''k8s-ig--uid1'', ig_Zone = ''zone-a'',
     ig_SelfLink = ''zones/zone-a/instanceGroups/k8s-ig--uid1'', ig_NamedPorts = []\<rparr>"

lemma fake_backends_fields:
  "bes_cloud fake_backends = fakeBackendServices None set_List" "bes_rng fake_backends = set_List"
  "bes_namer fake_backends = NewNamer ''uid1'' []" "bes_ignoredPorts fake_backends = {}"
  by (simp_all add: fake_backends_def NewBackendPool_def)

lemma fbs_inv_New [simp]: "fbs_inv NewFakeBackendServices"
  by (simp add: fbs_inv_def NewFakeBackendServices_def)

interpretation fake_services: backends_over fake_backends "\<lambda>f. fmlookup (fbs_services f)" fbs_inv
  unfolding backends_over_def fake_backends_fields by (rule fake_be.be_cloud_axioms)



definition two_port_pool ::
  "(FakeBackendServices, FakeInstanceGroups Instances_state, FakeHealthCheckProvider) Backends_state" where
  "two_port_pool = be_remember 7 None (be_remember 8 None fake_backends_st)"


text \<open>
  C18: deleting a backend removes its service and forgets its port; when the service cannot be
  deleted, or its health check cannot, the port stays in the pool, so that the next garbage collection
  tries again. A backend that is already gone counts as deleted.
\<close>

theorem backend_delete:
  assumes "be_cloud (bes_cloud b) services valid" "valid (bes_cloud_st s)"
    and "be_Delete b port s = (r, s')"
  shows "(\<forall>n. n \<noteq> Namer.Backend (bes_namer b) port \<longrightarrow>
            services (bes_cloud_st s') n = services (bes_cloud_st s) n) \<and>
     (case r of
        Ok _ \<Rightarrow> services (bes_cloud_st s') (Namer.Backend (bes_namer b) port) = None \<and>
          portKey port \<notin> keys (bes_snapshotter s')
      | Err e \<Rightarrow> \<not> IsHTTPErrorCode (Some e) StatusNotFound \<and> bes_snapshotter s' = bes_snapshotter s
      | Panics _ \<Rightarrow> True)"
proof -
  have over: "backends_over b services valid" using assms(1) by (simp add: backends_over_def)
  from wpD [OF backends_over.wp_Delete [OF over assms(2)] assms(3)] show ?thesis
    by (simp add: backends_over.touches_def [OF over])
qed

theorem backend_delete_witness:
  "\<exists>s'. be_Delete fake_backends 8 two_port_pool = (Ok (), s') \<and> portKey 8 \<notin> keys (bes_snapshotter s')"
proof -
  have "fst (be_Delete fake_backends 8 two_port_pool) = Ok ()" by code_simp
  from run_outcome [OF this] obtain s' where run: "be_Delete fake_backends 8 two_port_pool = (Ok (), s')" ..
  have cloud: "be_cloud (bes_cloud fake_backends) (\<lambda>f. fmlookup (fbs_services f)) fbs_inv"
    unfolding fake_backends_fields by (rule fake_be.be_cloud_axioms)
  have valid: "fbs_inv (bes_cloud_st two_port_pool)"
    by (simp add: two_port_pool_def be_remember_def fake_backends_st_def)
  from backend_delete [OF cloud valid run] run show ?thesis by simp
qed

text \<open>
  C19: linking a port with endpoint groups makes the groups of all zones, and nothing else, the
  backends of its service; an up-to-date service is not written again, and services of other ports are
  left alone.
\<close>

theorem backend_link:
  assumes "be_cloud (bes_cloud b) services valid" "valid (bes_cloud_st s)" "sp_NEGEnabled p"
    and "NEG (bes_namer b) (nn_Namespace (sp_SvcName p)) (nn_Name (sp_SvcName p)) (sp_SvcTargetPort p) = Ok negName"
    and "be_Link b p zones s = (r, s')"
  shows "(\<forall>n. n \<noteq> Namer.Backend (bes_namer b) (sp_Port p) \<longrightarrow>
            services (bes_cloud_st s') n = services (bes_cloud_st s) n) \<and>
     (r = Ok () \<longrightarrow> (\<exists>negs be. map Ok negs = map (bes_negGetter b negName) zones \<and>
        services (bes_cloud_st s') (Namer.Backend (bes_namer b) (sp_Port p)) = Some be \<and>
        bk_Group ` set (be_Backends be) = neg_SelfLink ` set negs))"
proof -
  have over: "backends_over b services valid" using assms(1) by (simp add: backends_over_def)
  from wpD [OF backends_over.wp_Link [OF over assms(2-4)] assms(5)] show ?thesis .
qed

definition neg_port_ready ::
  "(FakeBackendServices, FakeInstanceGroups Instances_state, FakeHealthCheckProvider) Backends_state" where
  "neg_port_ready = fake_backends_st
     \<lparr>bes_cloud_st := NewFakeBackendServices
        \<lparr>fbs_services := fmupd (Namer.Backend (NewNamer ''uid1'' []) 7)
           \<lparr>be_Name = Namer.Backend (NewNamer ''uid1'' []) 7, be_SelfLink = [], be_Description = [],
            be_Protocol = [], be_HealthChecks = [], be_Port = 7, be_PortName = [], be_Backends = []\<rparr>
           fmempty\<rparr>\<rparr>"

theorem backend_link_witness:
  "\<exists>negName s' be.
     NEG (NewNamer ''uid1'' []) ''default'' ''web'' ''80'' = Ok negName \<and>
     be_Link fake_backends (example_port 7 True) [''zone-a''] neg_port_ready = (Ok (), s') \<and>
     fmlookup (fbs_services (bes_cloud_st s')) (Namer.Backend (NewNamer ''uid1'' []) 7) = Some be \<and>
     bk_Group ` set (be_Backends be) = {''zone-a/'' @ negName}"
proof -
  obtain negName where neg: "NEG (NewNamer ''uid1'' []) ''default'' ''web'' ''80'' = Ok negName"
    using NEG_Ok [of "''default''" "''web''" "''80''"] by blast
  have "fst (be_Link fake_backends (example_port 7 True) [''zone-a''] neg_port_ready) = Ok ()"
    by (simp add: be_Link_def example_port_def fake_backends_def NewBackendPool_def neg bind_def
        lift_outcome_def on_be_cloud_def on_part_def neg_port_ready_def fbs_defs read_state_def ret_def
        modify_state_def NewFakeBackendServices_def fake_backends_st_def Let_def getBackendsForNEGs_def)
  from run_outcome [OF this] obtain s' where
    run: "be_Link fake_backends (example_port 7 True) [''zone-a''] neg_port_ready = (Ok (), s')" ..
  have cloud: "be_cloud (bes_cloud fake_backends) (\<lambda>f. fmlookup (fbs_services f)) fbs_inv"
    unfolding fake_backends_fields by (rule fake_be.be_cloud_axioms)
  have valid: "fbs_inv (bes_cloud_st neg_port_ready)"
    by (simp add: neg_port_ready_def NewFakeBackendServices_def fbs_inv_def)
  have name: "NEG (bes_namer fake_backends) (nn_Namespace (sp_SvcName (example_port 7 True)))
      (nn_Name (sp_SvcName (example_port 7 True))) (sp_SvcTargetPort (example_port 7 True)) = Ok negName"
    using neg by (simp add: fake_backends_fields example_port_def)
  have "sp_NEGEnabled (example_port 7 True)" by (simp add: example_port_def)
  from backend_link [OF cloud valid this name run] neg run show ?thesis
    by (auto simp: fake_backends_fields example_port_def) (auto simp: fake_backends_def NewBackendPool_def)
qed

text \<open>
  The description of a backend service is never empty for a port given by number: the test
  for an empty service name cannot succeed, because a namespaced name always contains its separator, and
  the zero port is printed as \<open>0\<close>. A service port that is not set is described as service \<open>/\<close>.
\<close>

lemma description_guard_is_dead:
  "NamespacedName_String n \<noteq> [] \<and>
   Description \<lparr>sp_Port = p, sp_Protocol = pr, sp_SvcName = n, sp_SvcPort = IntVal i,
      sp_SvcTargetPort = t, sp_NEGEnabled = neg\<rparr> \<noteq> []"
  by (simp add: Description_def NamespacedName_String_def Itoa_def)

end
