(* ===== verification/Load_Balancers.thy ===== *)
theory Load_Balancers
  imports Namer
begin

text \<open>
  Package \<open>loadbalancers\<close>, a single load balancer (\<open>pkg/loadbalancers/loadbalancers.go\<close>, type \<open>L7\<close>):
  the chain of cloud resources behind one Ingress, the check of each edge of the chain, and the cleanup.
  The cloud interface (\<open>interfaces.go\<close>) is a record of calls; the repository's fake (\<open>fakes.go\<close>) is
  one instance of it.

  A lookup returns a pointer, \<open>None\<close> when it is nil. The objects that a call returns are copies, as the
  API client decodes a fresh object for every answer.
\<close>

section \<open>The cloud interface\<close>

record 'c LoadBalancers =
  GetGlobalForwardingRule :: "string \<Rightarrow> ('c, ForwardingRule option) go"
  CreateGlobalForwardingRule :: "ForwardingRule \<Rightarrow> ('c, unit) go"
  DeleteGlobalForwardingRule :: "string \<Rightarrow> ('c, unit) go"
  SetProxyForGlobalForwardingRule :: "string \<Rightarrow> string \<Rightarrow> ('c, unit) go"
  GetUrlMap :: "string \<Rightarrow> ('c, UrlMap option) go"
  CreateUrlMap :: "UrlMap \<Rightarrow> ('c, unit) go"
  cloud_UpdateUrlMap :: "UrlMap \<Rightarrow> ('c, unit) go"
  DeleteUrlMap :: "string \<Rightarrow> ('c, unit) go"
  GetTargetHttpProxy :: "string \<Rightarrow> ('c, TargetHttpProxy option) go"
  CreateTargetHttpProxy :: "TargetHttpProxy \<Rightarrow> ('c, unit) go"
  DeleteTargetHttpProxy :: "string \<Rightarrow> ('c, unit) go"
  SetUrlMapForTargetHttpProxy :: "TargetHttpProxy \<Rightarrow> UrlMap \<Rightarrow> ('c, unit) go"
  GetTargetHttpsProxy :: "string \<Rightarrow> ('c, TargetHttpsProxy option) go"
  CreateTargetHttpsProxy :: "TargetHttpsProxy \<Rightarrow> ('c, unit) go"
  DeleteTargetHttpsProxy :: "string \<Rightarrow> ('c, unit) go"
  SetUrlMapForTargetHttpsProxy :: "TargetHttpsProxy \<Rightarrow> UrlMap \<Rightarrow> ('c, unit) go"
  SetSslCertificateForTargetHttpsProxy :: "TargetHttpsProxy \<Rightarrow> SslCertificate \<Rightarrow> ('c, unit) go"
  GetSslCertificate :: "string \<Rightarrow> ('c, SslCertificate option) go"
  CreateSslCertificate :: "SslCertificate \<Rightarrow> ('c, SslCertificate option) go"
  DeleteSslCertificate :: "string \<Rightarrow> ('c, unit) go"
  ReserveGlobalAddress :: "Address \<Rightarrow> ('c, unit) go"
  GetGlobalAddress :: "string \<Rightarrow> ('c, Address option) go"
  DeleteGlobalAddress :: "string \<Rightarrow> ('c, unit) go"

section \<open>Load balancers\<close>

definition httpDefaultPortRange :: string where "httpDefaultPortRange = ''80-80''"
definition httpsDefaultPortRange :: string where "httpsDefaultPortRange = ''443-443''"

record TLSCerts =
  tls_Key :: string
  tls_Cert :: string
  tls_Chain :: string

record L7RuntimeInfo =
  ri_Name :: string
  ri_IP :: string
  ri_TLS :: "TLSCerts option"
  ri_TLSName :: string
  ri_AllowHTTP :: bool
  ri_StaticIPName :: string

record L7 =
  l7_Name :: string
  l7_runtimeInfo :: L7RuntimeInfo
  l7_um :: "UrlMap option"
  l7_tp :: "TargetHttpProxy option"
  l7_tps :: "TargetHttpsProxy option"
  l7_fw :: "ForwardingRule option"
  l7_fws :: "ForwardingRule option"
  l7_ip :: "Address option"
  l7_sslCert :: "SslCertificate option"
  l7_oldSSLCert :: "SslCertificate option"
  l7_glbcDefaultBackend :: "BackendService option"

text \<open>
  What a method of a load balancer runs on: the object and the cloud. The fields \<open>cloud\<close> and \<open>namer\<close>
  never change; they are parameters.
\<close>

record 'c L7_env =
  l7_cloud :: "'c LoadBalancers"
  l7_namer :: Namer

record 'c L7_state =
  lst_l7 :: L7
  lst_cloud :: 'c

abbreviation l7_get :: "(L7 \<Rightarrow> 'a) \<Rightarrow> ('c L7_state, 'a) go" where
  "l7_get f \<equiv> read_state (\<lambda>s. f (lst_l7 s))"

definition l7_set :: "(L7 \<Rightarrow> L7) \<Rightarrow> ('c L7_state, unit) go" where
  "l7_set f = modify_state (\<lambda>s. s\<lparr>lst_l7 := f (lst_l7 s)\<rparr>)"

definition on_lb :: "('c, 'a) go \<Rightarrow> ('c L7_state, 'a) go" where
  "on_lb = on_part lst_cloud (\<lambda>c s. s\<lparr>lst_cloud := c\<rparr>)"

text \<open>\<open>x, _ := lookup\<close>: the error is dropped and the pointer is nil then.\<close>

definition found :: "('s, 'a option) go \<Rightarrow> ('s, 'a option) go" where
  "found m = bind_err m (\<lambda>r. ret (case r of Inl _ \<Rightarrow> None | Inr x \<Rightarrow> x))"

section \<open>Url map and HTTP proxy\<close>

definition checkUrlMap :: "'c L7_env \<Rightarrow> ('c L7_state, unit) go" where
  "checkUrlMap e =
     bind (l7_get (\<lambda>l. (l7_glbcDefaultBackend l, l7_Name l)))
       (\<lambda>(defaultBackend, name). case defaultBackend of
          None \<Rightarrow> fail (Errorf ''cannot create urlmap without default backend'' [])
        | Some be \<Rightarrow>
            let urlMapName = UrlMap (l7_namer e) name in
            bind (on_lb (found (GetUrlMap (l7_cloud e) urlMapName)))
              (\<lambda>urlMap. case urlMap of
                 Some um \<Rightarrow> l7_set (\<lambda>l. l\<lparr>l7_um := Some um\<rparr>)
               | None \<Rightarrow>
                   bind (on_lb (CreateUrlMap (l7_cloud e)
                           \<lparr>um_Name = urlMapName, um_SelfLink = [], um_DefaultService = be_SelfLink be,
                            um_HostRules = [], um_PathMatchers = []\<rparr>))
                     (\<lambda>_. bind (on_lb (GetUrlMap (l7_cloud e) urlMapName))
                        (\<lambda>um. l7_set (\<lambda>l. l\<lparr>l7_um := um\<rparr>)))))"

definition checkProxy :: "'c L7_env \<Rightarrow> ('c L7_state, unit) go" where
  "checkProxy e =
     bind (l7_get (\<lambda>l. (l7_um l, l7_Name l)))
       (\<lambda>(urlMap, name). case urlMap of
          None \<Rightarrow> fail (Errorf ''cannot create proxy without urlmap'' [])
        | Some um \<Rightarrow>
            bind (lift_outcome (TargetProxy (l7_namer e) name HTTPProtocol))
              (\<lambda>proxyName. bind (on_lb (found (GetTargetHttpProxy (l7_cloud e) proxyName)))
                 (\<lambda>proxy. case proxy of
                    None \<Rightarrow>
                      bind (on_lb (CreateTargetHttpProxy (l7_cloud e)
                              \<lparr>tp_Name = proxyName, tp_SelfLink = [], tp_UrlMap = um_SelfLink um\<rparr>))
                        (\<lambda>_. bind (on_lb (GetTargetHttpProxy (l7_cloud e) proxyName))
                           (\<lambda>tp. l7_set (\<lambda>l. l\<lparr>l7_tp := tp\<rparr>)))
                  | Some tp \<Rightarrow>
                      bind (if \<not> CompareLinks (tp_UrlMap tp) (um_SelfLink um)
                            then on_lb (SetUrlMapForTargetHttpProxy (l7_cloud e) tp um) else ret ())
                        (\<lambda>_. l7_set (\<lambda>l. l\<lparr>l7_tp := Some tp\<rparr>)))))"

section \<open>Certificates\<close>

definition deleteOldSSLCert :: "'c L7_env \<Rightarrow> ('c L7_state, unit) go" where
  "deleteOldSSLCert e =
     bind (l7_get (\<lambda>l. (l7_oldSSLCert l, l7_sslCert l)))
       (\<lambda>(old, cur). case (old, cur) of
          (Some oldCert, Some cert) \<Rightarrow>
            if cert_Name oldCert = cert_Name cert \<or> \<not> IsSSLCert (cert_Name oldCert) then ret ()
            else bind (ignoring_not_found (on_lb (DeleteSslCertificate (l7_cloud e) (cert_Name oldCert))))
                   (\<lambda>_. l7_set (\<lambda>l. l\<lparr>l7_oldSSLCert := None\<rparr>))
        | _ \<Rightarrow> ret ())"

definition getResourceNameFromLink :: "string \<Rightarrow> string" where
  "getResourceNameFromLink link =
     (let s = Split link ''/'' in if length s = 0 then [] else s ! (length s - 1))"

text \<open>Whether a pre-shared certificate is used; an error is only returned together with \<open>true\<close>.\<close>

definition usePreSharedCert :: "'c L7_env \<Rightarrow> ('c L7_state, bool) go" where
  "usePreSharedCert e =
     bind (l7_get (\<lambda>l. (ri_TLSName (l7_runtimeInfo l), l7_Name l)))
       (\<lambda>(preSharedCertName, name).
          if preSharedCertName = [] then ret False
          else bind (on_lb (GetSslCertificate (l7_cloud e) preSharedCertName))
            (\<lambda>cert. case cert of
               None \<Rightarrow> fail (Errorf (''cannot find existing sslCertificate '' @ preSharedCertName @ '' for '' @ name) [])
             | Some c \<Rightarrow> bind (l7_set (\<lambda>l. l\<lparr>l7_sslCert := Some c\<rparr>)) (\<lambda>_. ret True)))"

definition getSslCertLinkInUse :: "'c L7_env \<Rightarrow> ('c L7_state, string) go" where
  "getSslCertLinkInUse e =
     bind (l7_get l7_Name)
       (\<lambda>name. bind (lift_outcome (TargetProxy (l7_namer e) name HTTPSProtocol))
          (\<lambda>proxyName. bind (on_lb (found (GetTargetHttpsProxy (l7_cloud e) proxyName)))
             (\<lambda>proxy. ret (case proxy of
                Some p \<Rightarrow> (case tps_SslCertificates p of [] \<Rightarrow> [] | link # _ \<Rightarrow> link)
              | None \<Rightarrow> []))))"

text \<open>The assignment \<open>l.sslCert, err = \<dots>\<close> clears the field when the lookup fails.\<close>

definition populateSSLCert :: "'c L7_env \<Rightarrow> ('c L7_state, unit) go" where
  "populateSSLCert e =
     bind (l7_get l7_sslCert)
       (\<lambda>cur. bind (case cur of
             Some c \<Rightarrow> ret (cert_Name c)
           | None \<Rightarrow> bind (getSslCertLinkInUse e) (\<lambda>link. ret (getResourceNameFromLink link)))
          (\<lambda>expectedCertName.
             if expectedCertName = [] then ret ()
             else bind_err (on_lb (GetSslCertificate (l7_cloud e) expectedCertName))
               (\<lambda>r. case r of
                  Inr cert \<Rightarrow> l7_set (\<lambda>l. l\<lparr>l7_sslCert := cert\<rparr>)
                | Inl err \<Rightarrow> bind (l7_set (\<lambda>l. l\<lparr>l7_sslCert := None\<rparr>)) (\<lambda>_. ignoring_not_found (fail err)))))"

definition nextCertificateName :: "'c L7_env \<Rightarrow> L7 \<Rightarrow> string" where
  "nextCertificateName e l =
     (let primaryCertName = SSLCert (l7_namer e) (l7_Name l) True;
          secondaryCertName = SSLCert (l7_namer e) (l7_Name l) False
      in case l7_sslCert l of
           Some c \<Rightarrow> if cert_Name c = primaryCertName then secondaryCertName else primaryCertName
         | None \<Rightarrow> primaryCertName)"

text \<open>A certificate that differs from the one in use is created under the other name.\<close>

definition replace_cert :: "'c L7_env \<Rightarrow> TLSCerts \<Rightarrow> ('c L7_state, unit) go" where
  "replace_cert e tls =
     bind (l7_get (nextCertificateName e))
       (\<lambda>newCertName.
          bind (wrap_err (\<lambda>err. Errorf (''unable to delete ssl certificate with name '' @ newCertName @
                             '', expected it to be unused. err: '') [err])
                  (ignoring_not_found (on_lb (DeleteSslCertificate (l7_cloud e) newCertName))))
            (\<lambda>_. bind (on_lb (CreateSslCertificate (l7_cloud e)
                   \<lparr>cert_Name = newCertName, cert_SelfLink = [], cert_Certificate = tls_Cert tls,
                    cert_PrivateKey = tls_Key tls\<rparr>))
               (\<lambda>cert. l7_set (\<lambda>l. l\<lparr>l7_oldSSLCert := l7_sslCert l, l7_sslCert := cert\<rparr>))))"

definition checkSSLCert :: "'c L7_env \<Rightarrow> ('c L7_state, unit) go" where
  "checkSSLCert e =
     bind (usePreSharedCert e)
       (\<lambda>used. if used then ret ()
          else bind (populateSSLCert e)
            (\<lambda>_. bind (l7_get (\<lambda>l. (ri_TLS (l7_runtimeInfo l), l7_sslCert l)))
               (\<lambda>(TLS, cur). case TLS of
                  None \<Rightarrow> panic ''nil pointer dereference''
                | Some tls \<Rightarrow>
                    if (case cur of Some c \<Rightarrow> tls_Cert tls = cert_Certificate c | None \<Rightarrow> False) then ret ()
                    else replace_cert e tls)))"

section \<open>HTTPS proxy\<close>

text \<open>\<open>proxy.SslCertificates[0]\<close> panics when the proxy has no certificate.\<close>

definition checkHttpsProxy :: "'c L7_env \<Rightarrow> ('c L7_state, unit) go" where
  "checkHttpsProxy e =
     bind (l7_get (\<lambda>l. (l7_sslCert l, l7_um l, l7_Name l)))
       (\<lambda>(sslCert, urlMap, name). case sslCert of
          None \<Rightarrow> ret ()
        | Some cert \<Rightarrow> (case urlMap of
            None \<Rightarrow> fail (Errorf (''no UrlMap for '' @ name @ '', will not create HTTPS proxy'') [])
          | Some um \<Rightarrow>
              bind (lift_outcome (TargetProxy (l7_namer e) name HTTPSProtocol))
                (\<lambda>proxyName. bind (on_lb (found (GetTargetHttpsProxy (l7_cloud e) proxyName)))
                   (\<lambda>proxy. case proxy of
                      None \<Rightarrow>
                        bind (on_lb (CreateTargetHttpsProxy (l7_cloud e)
                                \<lparr>tps_Name = proxyName, tps_SelfLink = [], tps_UrlMap = um_SelfLink um,
                                 tps_SslCertificates = [cert_SelfLink cert]\<rparr>))
                          (\<lambda>_. bind (on_lb (GetTargetHttpsProxy (l7_cloud e) proxyName))
                             (\<lambda>tps. l7_set (\<lambda>l. l\<lparr>l7_tps := tps\<rparr>)))
                    | Some tps \<Rightarrow>
                        bind (if \<not> CompareLinks (tps_UrlMap tps) (um_SelfLink um)
                              then on_lb (SetUrlMapForTargetHttpsProxy (l7_cloud e) tps um) else ret ())
                          (\<lambda>_. case tps_SslCertificates tps of
                             [] \<Rightarrow> panic ''index out of range''
                           | link # _ \<Rightarrow>
                               bind (if \<not> CompareLinks link (cert_SelfLink cert)
                                     then on_lb (SetSslCertificateForTargetHttpsProxy (l7_cloud e) tps cert)
                                     else ret ())
                                 (\<lambda>_. l7_set (\<lambda>l. l\<lparr>l7_tps := Some tps\<rparr>)))))))"

section \<open>Forwarding rules\<close>

text \<open>A rule with another address or port range is deleted.\<close>

definition drop_stale_rule ::
  "'c L7_env \<Rightarrow> string \<Rightarrow> string \<Rightarrow> string \<Rightarrow> ForwardingRule option \<Rightarrow> ('c L7_state, ForwardingRule option) go" where
  "drop_stale_rule e name ip portRange fw =
     (case fw of
        Some f \<Rightarrow>
          if ip \<noteq> [] \<and> fr_IPAddress f \<noteq> ip \<or> fr_PortRange f \<noteq> portRange
          then bind (ignoring_not_found (on_lb (DeleteGlobalForwardingRule (l7_cloud e) name))) (\<lambda>_. ret None)
          else ret fw
      | None \<Rightarrow> ret None)"

definition create_missing_rule ::
  "'c L7_env \<Rightarrow> string \<Rightarrow> string \<Rightarrow> string \<Rightarrow> string \<Rightarrow> ForwardingRule option \<Rightarrow> ('c L7_state, ForwardingRule option) go" where
  "create_missing_rule e name proxyLink ip portRange fw =
     (case fw of
        Some f \<Rightarrow> ret (Some f)
      | None \<Rightarrow>
          bind (on_lb (CreateGlobalForwardingRule (l7_cloud e)
                  \<lparr>fr_Name = name, fr_SelfLink = [], fr_IPAddress = ip, fr_Target = proxyLink,
                   fr_PortRange = portRange, fr_IPProtocol = ''TCP''\<rparr>))
            (\<lambda>_. on_lb (GetGlobalForwardingRule (l7_cloud e) name)))"

definition retarget_rule :: "'c L7_env \<Rightarrow> string \<Rightarrow> ForwardingRule option \<Rightarrow> ('c L7_state, ForwardingRule) go" where
  "retarget_rule e proxyLink fw =
     (case fw of
        None \<Rightarrow> panic ''nil pointer dereference''
      | Some f \<Rightarrow>
          bind (if CompareLinks (fr_Target f) proxyLink then ret ()
                else on_lb (SetProxyForGlobalForwardingRule (l7_cloud e) (fr_Name f) proxyLink))
            (\<lambda>_. ret f))"

definition checkForwardingRule ::
  "'c L7_env \<Rightarrow> string \<Rightarrow> string \<Rightarrow> string \<Rightarrow> string \<Rightarrow> ('c L7_state, ForwardingRule) go" where
  "checkForwardingRule e name proxyLink ip portRange =
     bind (on_lb (found (GetGlobalForwardingRule (l7_cloud e) name)))
       (\<lambda>fw. bind (drop_stale_rule e name ip portRange fw)
          (\<lambda>fw. bind (create_missing_rule e name proxyLink ip portRange fw)
             (\<lambda>fw. retarget_rule e proxyLink fw)))"

text \<open>The address for the forwarding rules, and whether the controller manages it.\<close>

definition getEffectiveIP :: "'c L7_env \<Rightarrow> ('c L7_state, string \<times> bool) go" where
  "getEffectiveIP e =
     bind (l7_get (\<lambda>l. (ri_StaticIPName (l7_runtimeInfo l), l7_ip l)))
       (\<lambda>(staticIPName, own).
          let managed = (case own of Some a \<Rightarrow> (addr_Address a, True) | None \<Rightarrow> ([], True))
          in if staticIPName = [] then ret managed
             else bind (on_lb (found (GetGlobalAddress (l7_cloud e) staticIPName)))
               (\<lambda>ip. case ip of Some a \<Rightarrow> ret (addr_Address a, False) | None \<Rightarrow> ret managed))"

definition checkHttpForwardingRule :: "'c L7_env \<Rightarrow> ('c L7_state, unit) go" where
  "checkHttpForwardingRule e =
     bind (l7_get (\<lambda>l. (l7_tp l, l7_Name l)))
       (\<lambda>(proxy, name). case proxy of
          None \<Rightarrow> fail (Errorf ''cannot create forwarding rule without proxy'' [])
        | Some tp \<Rightarrow>
            bind (lift_outcome (ForwardingRule (l7_namer e) name HTTPProtocol))
              (\<lambda>fwName. bind (getEffectiveIP e)
                 (\<lambda>(address, _). bind (checkForwardingRule e fwName (tp_SelfLink tp) address httpDefaultPortRange)
                    (\<lambda>fw. l7_set (\<lambda>l. l\<lparr>l7_fw := Some fw\<rparr>)))))"

definition checkHttpsForwardingRule :: "'c L7_env \<Rightarrow> ('c L7_state, unit) go" where
  "checkHttpsForwardingRule e =
     bind (l7_get (\<lambda>l. (l7_tps l, l7_Name l)))
       (\<lambda>(proxy, name). case proxy of
          None \<Rightarrow> ret ()
        | Some tps \<Rightarrow>
            bind (lift_outcome (ForwardingRule (l7_namer e) name HTTPSProtocol))
              (\<lambda>fwName. bind (getEffectiveIP e)
                 (\<lambda>(address, _). bind (checkForwardingRule e fwName (tps_SelfLink tps) address httpsDefaultPortRange)
                    (\<lambda>fws. l7_set (\<lambda>l. l\<lparr>l7_fws := Some fws\<rparr>)))))"

section \<open>The static address\<close>

definition checkStaticIP :: "'c L7_env \<Rightarrow> ('c L7_state, unit) go" where
  "checkStaticIP e =
     bind (l7_get (\<lambda>l. (l7_fw l, l7_Name l)))
       (\<lambda>(rule, name).
          let ipAddress = (case rule of Some fw \<Rightarrow> fr_IPAddress fw | None \<Rightarrow> [])
          in if ipAddress = [] then fail (Errorf ''will not create static IP without a forwarding rule'' [])
             else bind (getEffectiveIP e)
               (\<lambda>(_, manageStaticIP).
                  if \<not> manageStaticIP then ret ()
                  else bind (lift_outcome (ForwardingRule (l7_namer e) name HTTPProtocol))
                    (\<lambda>staticIPName. bind (on_lb (found (GetGlobalAddress (l7_cloud e) staticIPName)))
                       (\<lambda>ip. case ip of
                          Some a \<Rightarrow> l7_set (\<lambda>l. l\<lparr>l7_ip := Some a\<rparr>)
                        | None \<Rightarrow>
                            bind_err (on_lb (ReserveGlobalAddress (l7_cloud e)
                                        \<lparr>addr_Name = staticIPName, addr_Address = ipAddress\<rparr>))
                              (\<lambda>r. case r of
                                 Inl err \<Rightarrow>
                                   if IsHTTPErrorCode (Some err) StatusConflict \<or>
                                      IsHTTPErrorCode (Some err) StatusBadRequest
                                   then ret () else fail err
                               | Inr _ \<Rightarrow>
                                   bind (on_lb (GetGlobalAddress (l7_cloud e) staticIPName))
                                     (\<lambda>a. l7_set (\<lambda>l. l\<lparr>l7_ip := a\<rparr>)))))))"

section \<open>The whole chain\<close>

definition edgeHopHttp :: "'c L7_env \<Rightarrow> ('c L7_state, unit) go" where
  "edgeHopHttp e = bind (checkProxy e) (\<lambda>_. checkHttpForwardingRule e)"

definition edgeHopHttps :: "'c L7_env \<Rightarrow> ('c L7_state, unit) go" where
  "edgeHopHttps e =
     bind (checkSSLCert e) (\<lambda>_. bind (checkHttpsProxy e)
       (\<lambda>_. bind (checkHttpsForwardingRule e) (\<lambda>_. deleteOldSSLCert e)))"

definition wants_https :: "L7 \<Rightarrow> bool" where
  "wants_https l \<longleftrightarrow> ri_TLS (l7_runtimeInfo l) \<noteq> None \<or> ri_TLSName (l7_runtimeInfo l) \<noteq> []"

definition edgeHop :: "'c L7_env \<Rightarrow> ('c L7_state, unit) go" where
  "edgeHop e =
     bind (checkUrlMap e)
       (\<lambda>_. bind (l7_get (\<lambda>l. (ri_AllowHTTP (l7_runtimeInfo l), wants_https l)))
          (\<lambda>(allowHTTP, https).
             bind (if allowHTTP then edgeHopHttp e else ret ())
               (\<lambda>_. bind (if allowHTTP \<and> https then checkStaticIP e else ret ())
                  (\<lambda>_. if https then edgeHopHttps e else ret ()))))"

definition GetIP :: "L7 \<Rightarrow> string" where
  "GetIP l =
     (case l7_fw l of
        Some fw \<Rightarrow> fr_IPAddress fw
      | None \<Rightarrow> (case l7_fws l of Some fws \<Rightarrow> fr_IPAddress fws | None \<Rightarrow> []))"

section \<open>Cleanup\<close>

text \<open>One resource: nothing when the load balancer has none, else a delete that may find it gone.\<close>

definition cleanup_one ::
  "'c L7_env \<Rightarrow> (L7 \<Rightarrow> 'a option) \<Rightarrow> ('a \<Rightarrow> string) \<Rightarrow> ('c LoadBalancers \<Rightarrow> string \<Rightarrow> ('c, unit) go) \<Rightarrow>
   (L7 \<Rightarrow> L7) \<Rightarrow> ('c L7_state, unit) go" where
  "cleanup_one e field name del clear =
     bind (l7_get field)
       (\<lambda>x. case x of
          None \<Rightarrow> ret ()
        | Some r \<Rightarrow> bind (ignoring_not_found (on_lb (del (l7_cloud e) (name r)))) (\<lambda>_. l7_set clear))"

text \<open>The certificate in use is only deleted when it is not a pre-shared one.\<close>

definition own_cert :: "L7 \<Rightarrow> SslCertificate option" where
  "own_cert l = (if ri_TLSName (l7_runtimeInfo l) = [] then l7_sslCert l else None)"

definition Cleanup :: "'c L7_env \<Rightarrow> ('c L7_state, unit) go" where
  "Cleanup e =
     bind (cleanup_one e l7_fw fr_Name DeleteGlobalForwardingRule (\<lambda>l. l\<lparr>l7_fw := None\<rparr>))
       (\<lambda>_. bind (cleanup_one e l7_fws fr_Name DeleteGlobalForwardingRule (\<lambda>l. l\<lparr>l7_fws := None\<rparr>))
         (\<lambda>_. bind (cleanup_one e l7_ip addr_Name DeleteGlobalAddress (\<lambda>l. l\<lparr>l7_ip := None\<rparr>))
           (\<lambda>_. bind (cleanup_one e l7_tps tps_Name DeleteTargetHttpsProxy (\<lambda>l. l\<lparr>l7_tps := None\<rparr>))
             (\<lambda>_. bind (cleanup_one e own_cert cert_Name DeleteSslCertificate (\<lambda>l. l\<lparr>l7_sslCert := None\<rparr>))
               (\<lambda>_. bind (cleanup_one e l7_tp tp_Name DeleteTargetHttpProxy (\<lambda>l. l\<lparr>l7_tp := None\<rparr>))
                 (\<lambda>_. cleanup_one e l7_um um_Name DeleteUrlMap (\<lambda>l. l\<lparr>l7_um := None\<rparr>)))))))"

section \<open>The fake cloud\<close>

text \<open>
  \<open>FakeLoadBalancers\<close> of \<open>fakes.go\<close> without its record of calls; \<open>flb_start\<close> is the counter of the global
  \<open>testIPManager\<close>. A url map gets a self link made from the fake's own name.
\<close>

record FakeLoadBalancers =
  flb_Fw :: "ForwardingRule list"
  flb_Um :: "UrlMap list"
  flb_Tp :: "TargetHttpProxy list"
  flb_Tps :: "TargetHttpsProxy list"
  flb_IP :: "Address list"
  flb_Certs :: "SslCertificate list"
  flb_name :: string
  flb_namer :: Namer
  flb_start :: int

definition NewFakeLoadBalancers :: "string \<Rightarrow> FakeLoadBalancers" where
  "NewFakeLoadBalancers name =
     \<lparr>flb_Fw = [], flb_Um = [], flb_Tp = [], flb_Tps = [], flb_IP = [], flb_Certs = [], flb_name = name,
      flb_namer = NewNamer ''fake-cluster'' ''fake-fw'', flb_start = 0\<rparr>"

text \<open>The loops that all resources share: the first object of a name, and the objects of other names.\<close>

definition named :: "('a \<Rightarrow> string) \<Rightarrow> string \<Rightarrow> 'a list \<Rightarrow> 'a option" where
  "named nm name xs = find (\<lambda>x. nm x = name) xs"

definition fake_get :: "('a \<Rightarrow> string) \<Rightarrow> (FakeLoadBalancers \<Rightarrow> 'a list) \<Rightarrow> string \<Rightarrow> (FakeLoadBalancers, 'a option) go" where
  "fake_get nm field name =
     bind (read_state (\<lambda>f. named nm name (field f)))
       (\<lambda>r. case r of Some x \<Rightarrow> ret (Some x) | None \<Rightarrow> fail FakeGoogleAPINotFoundErr)"

definition others :: "('a \<Rightarrow> string) \<Rightarrow> string \<Rightarrow> 'a list \<Rightarrow> 'a list" where
  "others nm name xs = filter (\<lambda>x. nm x \<noteq> name) xs"

definition set_all :: "('a \<Rightarrow> string) \<Rightarrow> string \<Rightarrow> ('a \<Rightarrow> 'a) \<Rightarrow> 'a list \<Rightarrow> 'a list" where
  "set_all nm name f xs = map (\<lambda>x. if nm x = name then f x else x) xs"

fun replace_first :: "('a \<Rightarrow> string) \<Rightarrow> 'a \<Rightarrow> 'a list \<Rightarrow> 'a list" where
  "replace_first nm y [] = []"
| "replace_first nm y (x # xs) = (if nm x = nm y then y # xs else x # replace_first nm y xs)"

definition flb_ip :: "FakeLoadBalancers \<Rightarrow> string" where
  "flb_ip f = ''0.0.0.'' @ Itoa (flb_start f + 1)"

definition flb_CreateForwardingRule :: "ForwardingRule \<Rightarrow> (FakeLoadBalancers, unit) go" where
  "flb_CreateForwardingRule rule =
     modify_state (\<lambda>f.
       if fr_IPAddress rule = []
       then f\<lparr>flb_start := flb_start f + 1,
              flb_Fw := flb_Fw f @ [rule\<lparr>fr_IPAddress := flb_ip f, fr_SelfLink := fr_Name rule\<rparr>]\<rparr>
       else f\<lparr>flb_Fw := flb_Fw f @ [rule\<lparr>fr_SelfLink := fr_Name rule\<rparr>]\<rparr>)"

definition flb_UpdateUrlMap :: "UrlMap \<Rightarrow> (FakeLoadBalancers, unit) go" where
  "flb_UpdateUrlMap um =
     bind (read_state (\<lambda>f. named um_Name (um_Name um) (flb_Um f)))
       (\<lambda>r. case r of
          None \<Rightarrow> fail FakeGoogleAPINotFoundErr
        | Some _ \<Rightarrow> modify_state (\<lambda>f. f\<lparr>flb_Um := replace_first um_Name um (flb_Um f)\<rparr>))"

definition flb_SetSslCertificate :: "TargetHttpsProxy \<Rightarrow> SslCertificate \<Rightarrow> (FakeLoadBalancers, unit) go" where
  "flb_SetSslCertificate proxy cert =
     bind (read_state (\<lambda>f. named tps_Name (tps_Name proxy) (flb_Tps f)))
       (\<lambda>r. case r of
          None \<Rightarrow> fail FakeGoogleAPINotFoundErr
        | Some _ \<Rightarrow> modify_state (\<lambda>f. f\<lparr>flb_Tps :=
            set_all tps_Name (tps_Name proxy) (\<lambda>p. p\<lparr>tps_SslCertificates := [cert_SelfLink cert]\<rparr>) (flb_Tps f)\<rparr>))"

definition flb_CreateSslCertificate :: "SslCertificate \<Rightarrow> (FakeLoadBalancers, SslCertificate option) go" where
  "flb_CreateSslCertificate cert =
     (let cert' = cert\<lparr>cert_SelfLink := cert_Name cert\<rparr>
      in bind (modify_state (\<lambda>f. f\<lparr>flb_Certs := flb_Certs f @ [cert']\<rparr>)) (\<lambda>_. ret (Some cert')))"

definition fakeLoadBalancers :: "FakeLoadBalancers LoadBalancers" where
  "fakeLoadBalancers =
     \<lparr>GetGlobalForwardingRule = fake_get fr_Name flb_Fw,
      CreateGlobalForwardingRule = flb_CreateForwardingRule,
      DeleteGlobalForwardingRule = (\<lambda>name. modify_state (\<lambda>f. f\<lparr>flb_Fw := others fr_Name name (flb_Fw f)\<rparr>)),
      SetProxyForGlobalForwardingRule = (\<lambda>name link. modify_state (\<lambda>f. f\<lparr>flb_Fw :=
        set_all fr_Name name (\<lambda>r. r\<lparr>fr_Target := link\<rparr>) (flb_Fw f)\<rparr>)),
      GetUrlMap = fake_get um_Name flb_Um,
      CreateUrlMap = (\<lambda>um. modify_state (\<lambda>f. f\<lparr>flb_Um :=
        flb_Um f @ [um\<lparr>um_SelfLink := UrlMap (flb_namer f) (flb_name f)\<rparr>]\<rparr>)),
      cloud_UpdateUrlMap = flb_UpdateUrlMap,
      DeleteUrlMap = (\<lambda>name. modify_state (\<lambda>f. f\<lparr>flb_Um := others um_Name name (flb_Um f)\<rparr>)),
      GetTargetHttpProxy = fake_get tp_Name flb_Tp,
      CreateTargetHttpProxy = (\<lambda>p. modify_state (\<lambda>f. f\<lparr>flb_Tp := flb_Tp f @ [p\<lparr>tp_SelfLink := tp_Name p\<rparr>]\<rparr>)),
      DeleteTargetHttpProxy = (\<lambda>name. modify_state (\<lambda>f. f\<lparr>flb_Tp := others tp_Name name (flb_Tp f)\<rparr>)),
      SetUrlMapForTargetHttpProxy = (\<lambda>p um. modify_state (\<lambda>f. f\<lparr>flb_Tp :=
        set_all tp_Name (tp_Name p) (\<lambda>q. q\<lparr>tp_UrlMap := um_SelfLink um\<rparr>) (flb_Tp f)\<rparr>)),
      GetTargetHttpsProxy = fake_get tps_Name flb_Tps,
      CreateTargetHttpsProxy = (\<lambda>p. modify_state (\<lambda>f. f\<lparr>flb_Tps := flb_Tps f @ [p\<lparr>tps_SelfLink := tps_Name p\<rparr>]\<rparr>)),
      DeleteTargetHttpsProxy = (\<lambda>name. modify_state (\<lambda>f. f\<lparr>flb_Tps := others tps_Name name (flb_Tps f)\<rparr>)),
      SetUrlMapForTargetHttpsProxy = (\<lambda>p um. modify_state (\<lambda>f. f\<lparr>flb_Tps :=
        set_all tps_Name (tps_Name p) (\<lambda>q. q\<lparr>tps_UrlMap := um_SelfLink um\<rparr>) (flb_Tps f)\<rparr>)),
      SetSslCertificateForTargetHttpsProxy = flb_SetSslCertificate,
      GetSslCertificate = fake_get cert_Name flb_Certs,
      CreateSslCertificate = flb_CreateSslCertificate,
      DeleteSslCertificate = (\<lambda>name. modify_state (\<lambda>f. f\<lparr>flb_Certs := others cert_Name name (flb_Certs f)\<rparr>)),
      ReserveGlobalAddress = (\<lambda>a. modify_state (\<lambda>f. f\<lparr>flb_IP := flb_IP f @ [a]\<rparr>)),
      GetGlobalAddress = fake_get addr_Name flb_IP,
      DeleteGlobalAddress = (\<lambda>name. modify_state (\<lambda>f. f\<lparr>flb_IP := others addr_Name name (flb_IP f)\<rparr>))\<rparr>"

lemmas flb_defs = fakeLoadBalancers_def fake_get_def flb_CreateForwardingRule_def flb_UpdateUrlMap_def
  flb_SetSslCertificate_def flb_CreateSslCertificate_def

section \<open>The contract of the cloud\<close>

text \<open>
  The resources by kind and name. A call changes at most one resource of one kind, the one it names;
  the code takes every failed lookup for a missing resource, so that lookups fail only then.
\<close>

record lb_view =
  v_fw :: "string \<Rightarrow> ForwardingRule option"
  v_um :: "string \<Rightarrow> UrlMap option"
  v_tp :: "string \<Rightarrow> TargetHttpProxy option"
  v_tps :: "string \<Rightarrow> TargetHttpsProxy option"
  v_cert :: "string \<Rightarrow> SslCertificate option"
  v_ip :: "string \<Rightarrow> Address option"

abbreviation put_fw :: "string \<Rightarrow> ForwardingRule option \<Rightarrow> lb_view \<Rightarrow> lb_view" where
  "put_fw n x v \<equiv> v\<lparr>v_fw := (v_fw v)(n := x)\<rparr>"

abbreviation put_um :: "string \<Rightarrow> UrlMap option \<Rightarrow> lb_view \<Rightarrow> lb_view" where
  "put_um n x v \<equiv> v\<lparr>v_um := (v_um v)(n := x)\<rparr>"

abbreviation put_tp :: "string \<Rightarrow> TargetHttpProxy option \<Rightarrow> lb_view \<Rightarrow> lb_view" where
  "put_tp n x v \<equiv> v\<lparr>v_tp := (v_tp v)(n := x)\<rparr>"

abbreviation put_tps :: "string \<Rightarrow> TargetHttpsProxy option \<Rightarrow> lb_view \<Rightarrow> lb_view" where
  "put_tps n x v \<equiv> v\<lparr>v_tps := (v_tps v)(n := x)\<rparr>"

abbreviation put_cert :: "string \<Rightarrow> SslCertificate option \<Rightarrow> lb_view \<Rightarrow> lb_view" where
  "put_cert n x v \<equiv> v\<lparr>v_cert := (v_cert v)(n := x)\<rparr>"

abbreviation put_ip :: "string \<Rightarrow> Address option \<Rightarrow> lb_view \<Rightarrow> lb_view" where
  "put_ip n x v \<equiv> v\<lparr>v_ip := (v_ip v)(n := x)\<rparr>"

text \<open>What a lookup answers.\<close>

fun answers :: "('a \<Rightarrow> string) \<Rightarrow> string \<Rightarrow> 'a option \<Rightarrow> 'a option outcome \<Rightarrow> bool" where
  "answers nm name x (Ok (Some y)) = (x = Some y \<and> nm y = name)"
| "answers nm name x (Ok None) = (x = None)"
| "answers nm name x (Err e) = (x = None)"
| "answers nm name x (Panics p) = False"

definition gone :: "unit outcome \<Rightarrow> bool" where
  "gone r \<longleftrightarrow> r = Ok () \<or> (\<exists>e. r = Err e \<and> IsNotFoundError (Some e))"

locale lb_cloud =
  fixes cloud :: "'c LoadBalancers" and view :: "'c \<Rightarrow> lb_view"
  assumes get_fw: "wp (GetGlobalForwardingRule cloud n) (\<lambda>r c'. view c' = view c \<and> answers fr_Name n (v_fw (view c) n) r) c"
    and get_um: "wp (GetUrlMap cloud n) (\<lambda>r c'. view c' = view c \<and> answers um_Name n (v_um (view c) n) r) c"
    and get_tp: "wp (GetTargetHttpProxy cloud n) (\<lambda>r c'. view c' = view c \<and> answers tp_Name n (v_tp (view c) n) r) c"
    and get_tps: "wp (GetTargetHttpsProxy cloud n) (\<lambda>r c'. view c' = view c \<and> answers tps_Name n (v_tps (view c) n) r) c"
    and get_cert: "wp (GetSslCertificate cloud n) (\<lambda>r c'. view c' = view c \<and> answers cert_Name n (v_cert (view c) n) r) c"
    and get_ip: "wp (GetGlobalAddress cloud n) (\<lambda>r c'. view c' = view c \<and> answers addr_Name n (v_ip (view c) n) r) c"
    and create_fw: "wp (CreateGlobalForwardingRule cloud f)
        (\<lambda>r c'. \<exists>x. view c' = put_fw (fr_Name f) x (view c) \<and>
           (r = Ok () \<and> v_fw (view c) (fr_Name f) = None \<longrightarrow>
              (\<exists>link ip. x = Some (f\<lparr>fr_SelfLink := link, fr_IPAddress := ip\<rparr>) \<and> ip \<noteq> [] \<and>
                 (fr_IPAddress f \<noteq> [] \<longrightarrow> ip = fr_IPAddress f)))) c"
    and create_um: "wp (CreateUrlMap cloud u)
        (\<lambda>r c'. \<exists>x. view c' = put_um (um_Name u) x (view c) \<and>
           (r = Ok () \<and> v_um (view c) (um_Name u) = None \<longrightarrow> (\<exists>link. x = Some (u\<lparr>um_SelfLink := link\<rparr>)))) c"
    and create_tp: "wp (CreateTargetHttpProxy cloud p)
        (\<lambda>r c'. \<exists>x. view c' = put_tp (tp_Name p) x (view c) \<and>
           (r = Ok () \<and> v_tp (view c) (tp_Name p) = None \<longrightarrow> (\<exists>link. x = Some (p\<lparr>tp_SelfLink := link\<rparr>)))) c"
    and create_tps: "wp (CreateTargetHttpsProxy cloud q)
        (\<lambda>r c'. \<exists>x. view c' = put_tps (tps_Name q) x (view c) \<and>
           (r = Ok () \<and> v_tps (view c) (tps_Name q) = None \<longrightarrow> (\<exists>link. x = Some (q\<lparr>tps_SelfLink := link\<rparr>)))) c"
    and create_cert: "wp (CreateSslCertificate cloud k)
        (\<lambda>r c'. \<exists>x. view c' = put_cert (cert_Name k) x (view c) \<and>
           (\<forall>y. r = Ok y \<and> v_cert (view c) (cert_Name k) = None \<longrightarrow>
              x = y \<and> (\<exists>link key. y = Some (k\<lparr>cert_SelfLink := link, cert_PrivateKey := key\<rparr>)))) c"
    and reserve_ip: "wp (ReserveGlobalAddress cloud a) (\<lambda>r c'. \<exists>x. view c' = put_ip (addr_Name a) x (view c)) c"
    and delete_fw: "wp (DeleteGlobalForwardingRule cloud n)
        (\<lambda>r c'. \<exists>x. (view c' = put_fw n x (view c) \<and> (x = None \<or> x = v_fw (view c) n)) \<and> (gone r \<longrightarrow> x = None)) c"
    and delete_um: "wp (DeleteUrlMap cloud n)
        (\<lambda>r c'. \<exists>x. (view c' = put_um n x (view c) \<and> (x = None \<or> x = v_um (view c) n)) \<and> (gone r \<longrightarrow> x = None)) c"
    and delete_tp: "wp (DeleteTargetHttpProxy cloud n)
        (\<lambda>r c'. \<exists>x. (view c' = put_tp n x (view c) \<and> (x = None \<or> x = v_tp (view c) n)) \<and> (gone r \<longrightarrow> x = None)) c"
    and delete_tps: "wp (DeleteTargetHttpsProxy cloud n)
        (\<lambda>r c'. \<exists>x. (view c' = put_tps n x (view c) \<and> (x = None \<or> x = v_tps (view c) n)) \<and> (gone r \<longrightarrow> x = None)) c"
    and delete_cert: "wp (DeleteSslCertificate cloud n)
        (\<lambda>r c'. \<exists>x. (view c' = put_cert n x (view c) \<and> (x = None \<or> x = v_cert (view c) n)) \<and> (gone r \<longrightarrow> x = None)) c"
    and delete_ip: "wp (DeleteGlobalAddress cloud n)
        (\<lambda>r c'. \<exists>x. (view c' = put_ip n x (view c) \<and> (x = None \<or> x = v_ip (view c) n)) \<and> (gone r \<longrightarrow> x = None)) c"
    and update_um: "wp (cloud_UpdateUrlMap cloud u)
        (\<lambda>r c'. \<exists>x. view c' = put_um (um_Name u) x (view c) \<and>
           (r = Ok () \<longrightarrow> (\<exists>link. x = Some (u\<lparr>um_SelfLink := link\<rparr>)))) c"
    and set_fw: "wp (SetProxyForGlobalForwardingRule cloud n link)
        (\<lambda>r c'. \<exists>x. view c' = put_fw n x (view c) \<and>
           (r = Ok () \<longrightarrow> x = map_option (\<lambda>f. f\<lparr>fr_Target := link\<rparr>) (v_fw (view c) n))) c"
    and set_tp: "wp (SetUrlMapForTargetHttpProxy cloud p u)
        (\<lambda>r c'. \<exists>x. view c' = put_tp (tp_Name p) x (view c) \<and>
           (r = Ok () \<longrightarrow> x = map_option (\<lambda>p. p\<lparr>tp_UrlMap := um_SelfLink u\<rparr>) (v_tp (view c) (tp_Name p)))) c"
    and set_tps: "wp (SetUrlMapForTargetHttpsProxy cloud q u)
        (\<lambda>r c'. \<exists>x. view c' = put_tps (tps_Name q) x (view c) \<and>
           (r = Ok () \<longrightarrow> x = map_option (\<lambda>q. q\<lparr>tps_UrlMap := um_SelfLink u\<rparr>) (v_tps (view c) (tps_Name q)))) c"
    and set_cert: "wp (SetSslCertificateForTargetHttpsProxy cloud q k)
        (\<lambda>r c'. \<exists>x. view c' = put_tps (tps_Name q) x (view c) \<and>
           (r = Ok () \<longrightarrow> x = map_option (\<lambda>q. q\<lparr>tps_SslCertificates := [cert_SelfLink k]\<rparr>) (v_tps (view c) (tps_Name q)))) c"

text \<open>The fake keeps the contract.\<close>

definition flb_view :: "FakeLoadBalancers \<Rightarrow> lb_view" where
  "flb_view f =
     \<lparr>v_fw = (\<lambda>n. named fr_Name n (flb_Fw f)), v_um = (\<lambda>n. named um_Name n (flb_Um f)),
      v_tp = (\<lambda>n. named tp_Name n (flb_Tp f)), v_tps = (\<lambda>n. named tps_Name n (flb_Tps f)),
      v_cert = (\<lambda>n. named cert_Name n (flb_Certs f)), v_ip = (\<lambda>n. named addr_Name n (flb_IP f))\<rparr>"

lemma named_SomeD: "named nm n xs = Some x \<Longrightarrow> nm x = n"
  by (auto simp: named_def dest: find_SomeD)

lemma named_snoc: "(\<lambda>n. named nm n (xs @ [y])) =
    (\<lambda>n. named nm n xs)(nm y := (case named nm (nm y) xs of None \<Rightarrow> Some y | Some x \<Rightarrow> Some x))"
proof
  fix n
  show "named nm n (xs @ [y]) =
      ((\<lambda>n. named nm n xs)(nm y := (case named nm (nm y) xs of None \<Rightarrow> Some y | Some x \<Rightarrow> Some x))) n"
    unfolding named_def by (induction xs) auto
qed

lemma named_others: "(\<lambda>n. named nm n (others nm m xs)) = (\<lambda>n. named nm n xs)(m := None)"
proof
  fix n
  show "named nm n (others nm m xs) = ((\<lambda>n. named nm n xs)(m := None)) n"
    unfolding named_def others_def by (induction xs) auto
qed

lemma named_set_all:
  assumes "\<And>x. nm (f x) = nm x"
  shows "(\<lambda>n. named nm n (set_all nm m f xs)) = (\<lambda>n. named nm n xs)(m := map_option f (named nm m xs))"
proof
  fix n
  show "named nm n (set_all nm m f xs) = ((\<lambda>n. named nm n xs)(m := map_option f (named nm m xs))) n"
    unfolding named_def set_all_def by (induction xs) (auto simp: assms)
qed

lemma named_replace_first:
  "named nm (nm y) xs \<noteq> None \<Longrightarrow> (\<lambda>n. named nm n (replace_first nm y xs)) = (\<lambda>n. named nm n xs)(nm y := Some y)"
proof
  fix n
  assume "named nm (nm y) xs \<noteq> None"
  then show "named nm n (replace_first nm y xs) = ((\<lambda>n. named nm n xs)(nm y := Some y)) n"
    unfolding named_def by (induction xs) auto
qed

lemma wp_fake_get:
  "wp (fake_get nm field n) (\<lambda>r f'. f' = f \<and> answers nm n (named nm n (field f)) r) f"
  by (auto simp: fake_get_def wp_simps dest: named_SomeD split: option.split)

lemma wp_fake_get_view:
  assumes "\<And>r. answers nm n (named nm n (field f)) r \<Longrightarrow> Q r f"
  shows "wp (fake_get nm field n) Q f"
  by (rule wp_mono [OF wp_fake_get]) (use assms in auto)

lemma fun_upd_same_eq [simp]: "f(x := a) = f(x := b) \<longleftrightarrow> a = b"
  by (auto dest: fun_upd_eqD)

lemmas flb_view_simps = flb_view_def fakeLoadBalancers_def wp_simps named_snoc named_others named_set_all

lemma flb_ip_nonempty: "flb_ip f \<noteq> []"
  by (simp add: flb_ip_def)

lemma rule_with_ip:
  "i \<noteq> [] \<Longrightarrow> \<exists>link ip. f\<lparr>fr_IPAddress := i, fr_SelfLink := l\<rparr> = f\<lparr>fr_SelfLink := link, fr_IPAddress := ip\<rparr> \<and> ip \<noteq> []"
  by (intro exI [of _ l] exI [of _ i]) simp

lemma cert_with_key: "\<exists>link key. k\<lparr>cert_SelfLink := l\<rparr> = k\<lparr>cert_SelfLink := link, cert_PrivateKey := key\<rparr>"
  by (intro exI [of _ l] exI [of _ "cert_PrivateKey k"]) simp

lemma same_upd: "\<exists>x. f = f(a := x)"
  by (rule exI [of _ "f a"]) simp

lemma same_link: "\<exists>link. u = u\<lparr>um_SelfLink := link\<rparr>"
  by (rule exI [of _ "um_SelfLink u"]) simp

interpretation fake_lb: lb_cloud fakeLoadBalancers flb_view
proof (unfold_locales, goal_cases)
  case (7 f c)
  then show ?case
    by (auto simp: flb_view_simps flb_CreateForwardingRule_def flb_ip_nonempty rule_with_ip
        split: option.split)
next
  case (11 k c)
  then show ?case
    by (auto simp: flb_view_simps flb_CreateSslCertificate_def Let_def cert_with_key split: option.split)
next
  case (19 u c)
  then show ?case
    by (auto simp: flb_view_simps flb_UpdateUrlMap_def named_replace_first same_upd same_link split: option.split)
next
  case (23 q k c)
  then show ?case
    by (auto simp: flb_view_simps flb_SetSslCertificate_def same_upd split: option.split)
qed (auto simp: flb_view_simps gone_def intro!: wp_fake_get_view split: option.split)

end
