(* ===== verification/Lb_Chain.thy ===== *)
theory Lb_Chain
  imports Load_Balancers
begin

text \<open>
  What the checks and the cleanup of a load balancer do to the cloud: proof rules for its calls, the frame
  of each check, the chains of forwarding rule, proxy, certificate and url map that a successful
  \<open>edgeHop\<close> completes, and the order in which \<open>Cleanup\<close> takes them down.
\<close>

section \<open>Reasoning about single calls\<close>

lemma wp_l7_set [wp_simps]: "wp (l7_set f) Q = (\<lambda>s. Q (Ok ()) (s\<lparr>lst_l7 := f (lst_l7 s)\<rparr>))"
  by (simp add: l7_set_def wp_modify_state)

lemma wp_on_lb: "wp (on_lb m) Q = (\<lambda>s. wp m (\<lambda>r c. Q r (s\<lparr>lst_cloud := c\<rparr>)) (lst_cloud s))"
  by (simp add: on_lb_def wp_on_part)

lemma wp_on_lb_found:
  assumes "wp m (\<lambda>r c'. view c' = view (lst_cloud s) \<and> answers nm n x r) (lst_cloud s)"
    and "\<And>c'. view c' = view (lst_cloud s) \<Longrightarrow> \<forall>y. x = Some y \<longrightarrow> nm y = n \<Longrightarrow> Q (Ok x) (s\<lparr>lst_cloud := c'\<rparr>)"
  shows "wp (on_lb (found m)) Q s"
  unfolding wp_on_lb found_def wp_bind_err wp_ret
proof (rule wp_mono [OF assms(1)], goal_cases)
  case (1 r c')
  then show ?case
    using assms(2) [of c'] by (cases "(nm, n, x, r)" rule: answers.cases) auto
qed

lemma wp_on_lb_get:
  assumes "wp m (\<lambda>r c'. view c' = view (lst_cloud s) \<and> answers nm n x r) (lst_cloud s)"
    and "\<And>c'. view c' = view (lst_cloud s) \<Longrightarrow> \<forall>y. x = Some y \<longrightarrow> nm y = n \<Longrightarrow> Q (Ok x) (s\<lparr>lst_cloud := c'\<rparr>)"
    and "\<And>e c'. view c' = view (lst_cloud s) \<Longrightarrow> x = None \<Longrightarrow> Q (Err e) (s\<lparr>lst_cloud := c'\<rparr>)"
  shows "wp (on_lb m) Q s"
  unfolding wp_on_lb
proof (rule wp_mono [OF assms(1)], goal_cases)
  case (1 r c')
  then show ?case
    using assms(2,3) [of c'] by (cases "(nm, n, x, r)" rule: answers.cases) auto
qed

lemma wp_ignoring_on_lb:
  assumes "wp m (\<lambda>r c'. \<exists>x. P x c' \<and> (gone r \<longrightarrow> x = None)) (lst_cloud s)"
    and "\<And>c'. P None c' \<Longrightarrow> Q (Ok ()) (s\<lparr>lst_cloud := c'\<rparr>)"
    and "\<And>e c' x. P x c' \<Longrightarrow> Q (Err e) (s\<lparr>lst_cloud := c'\<rparr>)"
    and "\<And>p c' x. P x c' \<Longrightarrow> Q (Panics p) (s\<lparr>lst_cloud := c'\<rparr>)"
  shows "wp (ignoring_not_found (on_lb m)) Q s"
  unfolding ignoring_not_found_def wp_bind_err wp_on_lb
proof (rule wp_mono [OF assms(1)], goal_cases)
  case (1 r c')
  then obtain x where "P x c'" "gone r \<longrightarrow> x = None" by blast
  then show ?case
    using assms(2) [of c'] assms(3,4) [of x c']
    by (cases r) (auto simp: wp_simps gone_def IgnoreHTTPNotFound_def IsNotFoundError_def)
qed

lemma wp_on_lb_ex:
  assumes "wp m (\<lambda>r c'. \<exists>x. P x r c') (lst_cloud s)"
    and "\<And>a c' x. P x (Ok a) c' \<Longrightarrow> Q (Ok a) (s\<lparr>lst_cloud := c'\<rparr>)"
    and "\<And>e c' x. P x (Err e) c' \<Longrightarrow> Q (Err e) (s\<lparr>lst_cloud := c'\<rparr>)"
    and "\<And>p c' x. P x (Panics p) c' \<Longrightarrow> Q (Panics p) (s\<lparr>lst_cloud := c'\<rparr>)"
  shows "wp (on_lb m) Q s"
  unfolding wp_on_lb
proof (rule wp_mono [OF assms(1)], goal_cases)
  case (1 r c')
  then show ?case using assms(2-4) by (cases r) blast+
qed

text \<open>The rule for a sequence of calls, by the outcomes of the first.\<close>

lemma wp_seq:
  assumes "wp m P s" "\<And>a s'. P (Ok a) s' \<Longrightarrow> wp (f a) Q s'"
    and "\<And>err s'. P (Err err) s' \<Longrightarrow> Q (Err err) s'" "\<And>p s'. P (Panics p) s' \<Longrightarrow> Q (Panics p) s'"
  shows "wp (bind m f) Q s"
  unfolding wp_bind
proof (rule wp_mono [OF assms(1)], goal_cases)
  case (1 r s')
  then show ?case using assms(2-4) by (cases r) auto
qed

text \<open>The same with an invariant of all outcomes.\<close>

lemma wp_seq_inv:
  assumes "wp m (\<lambda>r s'. I s' \<and> (\<forall>a. r = Ok a \<longrightarrow> P a s')) s"
    and "\<And>a s'. I s' \<Longrightarrow> P a s' \<Longrightarrow> wp (f a) (\<lambda>r s'. I s' \<and> (\<forall>b. r = Ok b \<longrightarrow> R b s')) s'"
  shows "wp (bind m f) (\<lambda>r s'. I s' \<and> (\<forall>b. r = Ok b \<longrightarrow> R b s')) s"
  by (rule wp_seq [OF assms(1)]) (use assms(2) in auto)

text \<open>The resources, by kind and name, that a call may change; every other one is as before.\<close>

datatype kind = FW | UM | TP | TPS | CERT | IP

definition frame :: "(kind \<times> string) set \<Rightarrow> lb_view \<Rightarrow> lb_view \<Rightarrow> bool" where
  "frame W v v' \<longleftrightarrow>
     (\<forall>n. (FW, n) \<notin> W \<longrightarrow> v_fw v' n = v_fw v n) \<and> (\<forall>n. (UM, n) \<notin> W \<longrightarrow> v_um v' n = v_um v n) \<and>
     (\<forall>n. (TP, n) \<notin> W \<longrightarrow> v_tp v' n = v_tp v n) \<and> (\<forall>n. (TPS, n) \<notin> W \<longrightarrow> v_tps v' n = v_tps v n) \<and>
     (\<forall>n. (CERT, n) \<notin> W \<longrightarrow> v_cert v' n = v_cert v n) \<and> (\<forall>n. (IP, n) \<notin> W \<longrightarrow> v_ip v' n = v_ip v n)"

lemma frame_refl [simp, intro]: "frame W v v"
  by (simp add: frame_def)

lemma frame_trans: "frame W v v' \<Longrightarrow> frame W v' v'' \<Longrightarrow> frame W v v''"
  by (simp add: frame_def)

lemma frame_mono: "frame W v v' \<Longrightarrow> W \<subseteq> W' \<Longrightarrow> frame W' v v'"
  unfolding frame_def by (meson subsetD)

lemma frame_put [simp]:
  "(FW, n) \<in> W \<Longrightarrow> frame W v (put_fw n a v') = frame W v v'"
  "(UM, n) \<in> W \<Longrightarrow> frame W v (put_um n b v') = frame W v v'"
  "(TP, n) \<in> W \<Longrightarrow> frame W v (put_tp n c v') = frame W v v'"
  "(TPS, n) \<in> W \<Longrightarrow> frame W v (put_tps n d v') = frame W v v'"
  "(CERT, n) \<in> W \<Longrightarrow> frame W v (put_cert n f v') = frame W v v'"
  "(IP, n) \<in> W \<Longrightarrow> frame W v (put_ip n g v') = frame W v v'"
  unfolding frame_def by (auto split: if_splits)

section \<open>What the checks establish\<close>

text \<open>The names of the resources of a load balancer.\<close>

definition tp_name :: "string \<Rightarrow> string" where "tp_name lb = Namer.truncate (targetHTTPProxyPrefix @ ''-'' @ lb)"
definition tps_name :: "string \<Rightarrow> string" where "tps_name lb = Namer.truncate (targetHTTPSProxyPrefix @ ''-'' @ lb)"
definition fw_name :: "string \<Rightarrow> string" where "fw_name lb = Namer.truncate (forwardingRulePrefix @ ''-'' @ lb)"
definition fws_name :: "string \<Rightarrow> string" where "fws_name lb = Namer.truncate (httpsForwardingRulePrefix @ ''-'' @ lb)"

lemma resource_names [simp]:
  "TargetProxy n lb HTTPProtocol = Ok (tp_name lb)" "TargetProxy n lb HTTPSProtocol = Ok (tps_name lb)"
  "ForwardingRule n lb HTTPProtocol = Ok (fw_name lb)" "ForwardingRule n lb HTTPSProtocol = Ok (fws_name lb)"
  by (simp_all add: tp_name_def tps_name_def fw_name_def fws_name_def)

declare TargetProxy.simps [simp del] ForwardingRule.simps [simp del]

lemma fw_neq_fws [simp]: "fw_name lb \<noteq> fws_name lb'" "fws_name lb \<noteq> fw_name lb'"
proof -
  have "take 7 (fw_name x) = ''k8s-fw-''" "take 7 (fws_name x) = ''k8s-fws''" for x
    by (simp_all add: fw_name_def fws_name_def take_truncate, simp_all add: namer_prefixes)
  then have "fw_name x \<noteq> fws_name y" for x y by (metis neq_fw_fws)
  then show "fw_name lb \<noteq> fws_name lb'" "fws_name lb \<noteq> fw_name lb'" by metis+
qed

lemma IsSSLCert_SSLCert [simp]: "IsSSLCert (SSLCert n lb primary)"
  by (simp add: IsSSLCert_def SSLCert_def HasPrefix_def take_truncate namer_prefixes)

lemma SSLCert_nonempty [simp]: "SSLCert n lb primary \<noteq> []"
  using IsSSLCert_SSLCert [of n lb primary] by (auto simp: IsSSLCert_def namer_prefixes)

lemma IsSSLCert_next [simp]: "IsSSLCert (nextCertificateName e l)"
  by (simp add: nextCertificateName_def Let_def split: option.split)

lemma next_nonempty [simp]: "nextCertificateName e l \<noteq> []"
  by (simp add: nextCertificateName_def Let_def split: option.split)

text \<open>The certificate that a load balancer remembers has a name.\<close>

definition named_cert :: "L7 \<Rightarrow> bool" where
  "named_cert l \<longleftrightarrow> (\<forall>c. l7_sslCert l = Some c \<longrightarrow> cert_Name c \<noteq> [])"

text \<open>Certificates that bear the controller's prefix.\<close>

definition own_certs :: "(kind \<times> string) set" where
  "own_certs = {(CERT, n) | n. IsSSLCert n}"

lemma in_own_certs [simp]: "(k, n) \<in> own_certs \<longleftrightarrow> k = CERT \<and> IsSSLCert n"
  by (auto simp: own_certs_def)

text \<open>The address for the forwarding rules, read off a view.\<close>

definition effective_ip :: "L7 \<Rightarrow> lb_view \<Rightarrow> string \<times> bool" where
  "effective_ip l v =
     (case (if ri_StaticIPName (l7_runtimeInfo l) = [] then None else v_ip v (ri_StaticIPName (l7_runtimeInfo l))) of
        Some a \<Rightarrow> (addr_Address a, False)
      | None \<Rightarrow> (case l7_ip l of Some a \<Rightarrow> (addr_Address a, True) | None \<Rightarrow> ([], True)))"

lemma effective_ip_cong:
  "l7_runtimeInfo l = l7_runtimeInfo l' \<Longrightarrow> l7_ip l = l7_ip l' \<Longrightarrow> v_ip v = v_ip v' \<Longrightarrow>
   effective_ip l v = effective_ip l' v'"
  by (simp only: effective_ip_def)

text \<open>The fields that no check changes, and the others that each update leaves alone.\<close>

definition keeps :: "L7 \<Rightarrow> L7 \<Rightarrow> bool" where
  "keeps l l' \<longleftrightarrow> l7_Name l' = l7_Name l \<and> l7_runtimeInfo l' = l7_runtimeInfo l \<and>
     l7_glbcDefaultBackend l' = l7_glbcDefaultBackend l"

lemma keeps_trans: "keeps l l' \<Longrightarrow> keeps l' l'' \<Longrightarrow> keeps l l''"
  by (simp add: keeps_def)

lemma l7_upd:
  "l' = l\<lparr>l7_um := a\<rparr> \<Longrightarrow> keeps l l' \<and> l7_ip l' = l7_ip l \<and> l7_sslCert l' = l7_sslCert l"
  "l' = l\<lparr>l7_tp := b\<rparr> \<Longrightarrow> keeps l l' \<and> l7_ip l' = l7_ip l \<and> l7_um l' = l7_um l \<and> l7_sslCert l' = l7_sslCert l"
  "l' = l\<lparr>l7_fw := c\<rparr> \<Longrightarrow> keeps l l' \<and> l7_ip l' = l7_ip l \<and> l7_um l' = l7_um l \<and> l7_sslCert l' = l7_sslCert l"
  "l' = l\<lparr>l7_ip := d\<rparr> \<Longrightarrow> keeps l l' \<and> l7_um l' = l7_um l \<and> l7_sslCert l' = l7_sslCert l"
  "l' = l\<lparr>l7_sslCert := f, l7_oldSSLCert := g\<rparr> \<Longrightarrow> keeps l l' \<and> l7_ip l' = l7_ip l \<and> l7_um l' = l7_um l"
  "l' = l\<lparr>l7_tps := h\<rparr> \<Longrightarrow> keeps l l' \<and> l7_ip l' = l7_ip l \<and> l7_um l' = l7_um l \<and> l7_sslCert l' = l7_sslCert l"
  "l' = l\<lparr>l7_fws := c\<rparr> \<Longrightarrow> keeps l l' \<and> l7_ip l' = l7_ip l \<and> l7_um l' = l7_um l \<and> l7_sslCert l' = l7_sslCert l"
  "l' = l\<lparr>l7_oldSSLCert := g\<rparr> \<Longrightarrow> keeps l l' \<and> l7_ip l' = l7_ip l \<and> l7_um l' = l7_um l \<and> l7_sslCert l' = l7_sslCert l"
  by (simp_all add: keeps_def)

text \<open>The two chains, from the forwarding rule over the proxy to the url map.\<close>

definition http_chain :: "lb_view \<Rightarrow> string \<Rightarrow> UrlMap \<Rightarrow> string \<Rightarrow> bool" where
  "http_chain v lb um ip \<longleftrightarrow> (\<exists>p f. v_tp v (tp_name lb) = Some p \<and> tp_UrlMap p = um_SelfLink um \<and>
     v_fw v (fw_name lb) = Some f \<and> fr_Target f = tp_SelfLink p \<and> fr_PortRange f = httpDefaultPortRange \<and>
     (ip \<noteq> [] \<longrightarrow> fr_IPAddress f = ip))"

definition https_chain :: "lb_view \<Rightarrow> string \<Rightarrow> UrlMap \<Rightarrow> SslCertificate \<Rightarrow> string \<Rightarrow> bool" where
  "https_chain v lb um cert ip \<longleftrightarrow> (\<exists>q f rest. v_tps v (tps_name lb) = Some q \<and> tps_UrlMap q = um_SelfLink um \<and>
     tps_SslCertificates q = cert_SelfLink cert # rest \<and> v_cert v (cert_Name cert) = Some cert \<and>
     v_fw v (fws_name lb) = Some f \<and> fr_Target f = tps_SelfLink q \<and> fr_PortRange f = httpsDefaultPortRange \<and>
     (ip \<noteq> [] \<longrightarrow> fr_IPAddress f = ip))"

definition cert_fits :: "L7RuntimeInfo \<Rightarrow> SslCertificate \<Rightarrow> bool" where
  "cert_fits ri c \<longleftrightarrow> (if ri_TLSName ri \<noteq> [] then cert_Name c = ri_TLSName ri
     else \<exists>tls. ri_TLS ri = Some tls \<and> cert_Certificate c = tls_Cert tls)"

text \<open>The resources of a load balancer, and the certificates that it may create.\<close>

definition own_names :: "Namer \<Rightarrow> L7 \<Rightarrow> (kind \<times> string) set" where
  "own_names n l = (let lb = l7_Name l in
     {(UM, UrlMap n lb), (TP, tp_name lb), (TPS, tps_name lb), (FW, fw_name lb), (FW, fws_name lb),
      (IP, fw_name lb)} \<union> own_certs)"

text \<open>The address that the user asked for; empty when the controller manages the address.\<close>

definition user_ip :: "L7 \<Rightarrow> lb_view \<Rightarrow> string" where
  "user_ip l v = (if snd (effective_ip l v) then [] else fst (effective_ip l v))"

locale l7_over = lb_cloud "l7_cloud e" view
  for e :: "'c L7_env" and view :: "'c \<Rightarrow> lb_view"
begin

abbreviation lv :: "'c L7_state \<Rightarrow> lb_view" where
  "lv s \<equiv> view (lst_cloud s)"

lemmas found_rules = wp_on_lb_found [OF get_fw] wp_on_lb_found [OF get_um] wp_on_lb_found [OF get_tp]
  wp_on_lb_found [OF get_tps] wp_on_lb_found [OF get_ip]

lemmas get_rules = wp_on_lb_get [OF get_fw] wp_on_lb_get [OF get_um] wp_on_lb_get [OF get_tp]
  wp_on_lb_get [OF get_tps] wp_on_lb_get [OF get_cert] wp_on_lb_get [OF get_ip]

lemmas delete_rules = wp_ignoring_on_lb [OF delete_fw] wp_ignoring_on_lb [OF delete_um] wp_ignoring_on_lb [OF delete_tp]
  wp_ignoring_on_lb [OF delete_tps] wp_ignoring_on_lb [OF delete_cert] wp_ignoring_on_lb [OF delete_ip]

lemmas write_rules = wp_on_lb_ex [OF create_fw] wp_on_lb_ex [OF create_um] wp_on_lb_ex [OF create_tp]
  wp_on_lb_ex [OF create_tps] wp_on_lb_ex [OF create_cert] wp_on_lb_ex [OF reserve_ip] wp_on_lb_ex [OF update_um]
  wp_on_lb_ex [OF set_fw] wp_on_lb_ex [OF set_tp] wp_on_lb_ex [OF set_tps] wp_on_lb_ex [OF set_cert]

lemmas lb_rules = found_rules get_rules delete_rules write_rules

text \<open>The url map is there afterwards, and nothing but the url map of this name has changed.\<close>

lemma wp_checkUrlMap:
  defines "n l \<equiv> UrlMap (l7_namer e) (l7_Name l)"
  shows "wp (checkUrlMap e) (\<lambda>r s'. lst_l7 s' = (lst_l7 s)\<lparr>l7_um := l7_um (lst_l7 s')\<rparr> \<and>
      frame {(UM, n (lst_l7 s))} (lv s) (lv s') \<and>
      (r = Ok () \<longrightarrow> l7_um (lst_l7 s') = v_um (lv s') (n (lst_l7 s)) \<and> l7_um (lst_l7 s') \<noteq> None)) s"
  by (cases "l7_glbcDefaultBackend (lst_l7 s)"; cases "v_um (lv s) (n (lst_l7 s))")
    (auto simp: checkUrlMap_def wp_simps n_def Let_def intro!: lb_rules)

lemma wp_checkProxy:
  assumes um: "l7_um (lst_l7 s) = Some um"
  defines "n \<equiv> tp_name (l7_Name (lst_l7 s))"
  shows "wp (checkProxy e) (\<lambda>r s'. lst_l7 s' = (lst_l7 s)\<lparr>l7_tp := l7_tp (lst_l7 s')\<rparr> \<and>
      frame {(TP, n)} (lv s) (lv s') \<and>
      (r = Ok () \<longrightarrow> (\<exists>tp p. l7_tp (lst_l7 s') = Some tp \<and> tp_Name tp = n \<and> v_tp (lv s') n = Some p \<and>
         tp_UrlMap p = um_SelfLink um \<and> tp_SelfLink p = tp_SelfLink tp))) s"
proof (cases "v_tp (lv s) n")
  case None
  then show ?thesis
    by (auto simp: checkProxy_def wp_simps um n_def intro!: lb_rules)
next
  case (Some p)
  then show ?thesis
    by (cases "CompareLinks (tp_UrlMap p) (um_SelfLink um)")
      (auto simp: checkProxy_def wp_simps um n_def CompareLinks_def intro!: lb_rules)
qed

lemma wp_getEffectiveIP:
  "wp (getEffectiveIP e) (\<lambda>r s'. lst_l7 s' = lst_l7 s \<and> lv s' = lv s \<and> r = Ok (effective_ip (lst_l7 s) (lv s))) s"
  by (auto simp: getEffectiveIP_def wp_simps Let_def effective_ip_def intro!: lb_rules split: option.split)

text \<open>The rule is returned as it was read, and its target is right in the cloud.\<close>

abbreviation rule_fits :: "string \<Rightarrow> string \<Rightarrow> string \<Rightarrow> ForwardingRule \<Rightarrow> bool" where
  "rule_fits n ip ports f \<equiv> fr_Name f = n \<and> (ip \<noteq> [] \<longrightarrow> fr_IPAddress f = ip) \<and> fr_PortRange f = ports"

lemma wp_drop_stale_rule:
  assumes "\<forall>f. v_fw (lv s) n = Some f \<longrightarrow> fr_Name f = n"
  shows "wp (drop_stale_rule e n ip ports (v_fw (lv s) n)) (\<lambda>r s'. lst_l7 s' = lst_l7 s \<and>
      frame {(FW, n)} (lv s) (lv s') \<and>
      (\<forall>x. r = Ok x \<longrightarrow> v_fw (lv s') n = x \<and> (\<forall>f. x = Some f \<longrightarrow> rule_fits n ip ports f))) s"
  using assms by (auto simp: drop_stale_rule_def wp_simps intro!: lb_rules split: option.split)

lemma wp_create_missing_rule:
  assumes "\<forall>f. v_fw (lv s) n = Some f \<longrightarrow> rule_fits n ip ports f"
  shows "wp (create_missing_rule e n link ip ports (v_fw (lv s) n)) (\<lambda>r s'. lst_l7 s' = lst_l7 s \<and>
      frame {(FW, n)} (lv s) (lv s') \<and>
      (\<forall>x. r = Ok x \<longrightarrow> v_fw (lv s') n = x \<and> (\<forall>f. x = Some f \<longrightarrow> rule_fits n ip ports f))) s"
proof (cases "v_fw (lv s) n")
  case None
  then show ?thesis by (auto simp: create_missing_rule_def wp_simps intro!: lb_rules)
next
  case (Some f)
  with assms show ?thesis by (simp add: create_missing_rule_def wp_simps)
qed

lemma wp_retarget_rule:
  assumes "\<forall>f. v_fw (lv s) n = Some f \<longrightarrow> rule_fits n ip ports f"
  shows "wp (retarget_rule e link (v_fw (lv s) n)) (\<lambda>r s'. lst_l7 s' = lst_l7 s \<and>
      frame {(FW, n)} (lv s) (lv s') \<and>
      (\<forall>f. r = Ok f \<longrightarrow> rule_fits n ip ports f \<and> v_fw (lv s') n = Some (f\<lparr>fr_Target := link\<rparr>))) s"
proof (cases "v_fw (lv s) n")
  case None
  then show ?thesis by (simp add: retarget_rule_def wp_simps)
next
  case (Some f)
  with assms show ?thesis
    by (auto simp: retarget_rule_def wp_simps CompareLinks_def intro!: lb_rules)
qed

lemma wp_checkForwardingRule:
  "wp (checkForwardingRule e n link ip ports) (\<lambda>r s'. lst_l7 s' = lst_l7 s \<and> frame {(FW, n)} (lv s) (lv s') \<and>
      (\<forall>f. r = Ok f \<longrightarrow> rule_fits n ip ports f \<and> v_fw (lv s') n = Some (f\<lparr>fr_Target := link\<rparr>))) s"
    (is "wp _ ?Q s")
  unfolding checkForwardingRule_def wp_bind [of "on_lb _"]
proof (rule wp_on_lb_found [OF get_fw], unfold on_ok_simps, goal_cases)
  case (1 c0)
  let ?s0 = "s\<lparr>lst_cloud := c0\<rparr>"
  have names: "\<forall>f. v_fw (lv ?s0) n = Some f \<longrightarrow> fr_Name f = n" using 1 by simp
  have "wp (bind (drop_stale_rule e n ip ports (v_fw (lv ?s0) n)) (\<lambda>fw. bind (create_missing_rule e n link ip ports fw)
      (\<lambda>fw. retarget_rule e link fw))) ?Q ?s0"
  proof (rule wp_seq [OF wp_drop_stale_rule [OF names]], goal_cases)
    case (1 x s1)
    then have x: "x = v_fw (lv s1) n" "\<forall>f. v_fw (lv s1) n = Some f \<longrightarrow> rule_fits n ip ports f" by simp_all
    show ?case
      unfolding x(1)
    proof (rule wp_seq [OF wp_create_missing_rule [OF x(2)]], goal_cases)
      case (1 y s2)
      then have y: "y = v_fw (lv s2) n" "\<forall>f. v_fw (lv s2) n = Some f \<longrightarrow> rule_fits n ip ports f" by simp_all
      show ?case
        unfolding y(1)
        by (rule wp_mono [OF wp_retarget_rule [OF y(2)]])
          (use 1 \<open>lst_l7 s1 = _ \<and> _\<close> \<open>view c0 = _\<close> in \<open>auto intro: frame_trans\<close>)
    qed (use 1 \<open>view c0 = _\<close> in \<open>auto intro: frame_trans\<close>)
  qed (use \<open>view c0 = _\<close> in \<open>auto intro: frame_trans\<close>)
  moreover have "v_fw (lv ?s0) n = v_fw (lv s) n" using 1 by simp
  ultimately show ?case by (simp only:)
qed

lemma wp_checkHttpForwardingRule:
  assumes tp: "l7_tp (lst_l7 s) = Some tp"
  defines "n \<equiv> fw_name (l7_Name (lst_l7 s))"
  shows "wp (checkHttpForwardingRule e) (\<lambda>r s'. lst_l7 s' = (lst_l7 s)\<lparr>l7_fw := l7_fw (lst_l7 s')\<rparr> \<and>
      frame {(FW, n)} (lv s) (lv s') \<and>
      (r = Ok () \<longrightarrow> (\<exists>f. l7_fw (lst_l7 s') = Some f \<and>
         rule_fits n (fst (effective_ip (lst_l7 s) (lv s))) httpDefaultPortRange f \<and>
         v_fw (lv s') n = Some (f\<lparr>fr_Target := tp_SelfLink tp\<rparr>)))) s" (is "wp _ ?Q s")
proof -
  have "wp (bind (getEffectiveIP e) (\<lambda>(address, _). bind (checkForwardingRule e n (tp_SelfLink tp) address httpDefaultPortRange)
                    (\<lambda>fw. l7_set (\<lambda>l. l\<lparr>l7_fw := Some fw\<rparr>)))) ?Q s"
  proof (rule wp_seq [OF wp_getEffectiveIP], goal_cases)
    case (1 a s1)
    then show ?case
      unfolding case_prod_unfold by (intro wp_seq [OF wp_checkForwardingRule]) (auto simp: wp_simps)
  qed auto
  then show ?thesis by (simp add: checkHttpForwardingRule_def wp_simps tp n_def)
qed

lemma wp_checkHttpsForwardingRule:
  assumes tps: "l7_tps (lst_l7 s) = Some tps"
  defines "n \<equiv> fws_name (l7_Name (lst_l7 s))"
  shows "wp (checkHttpsForwardingRule e) (\<lambda>r s'. lst_l7 s' = (lst_l7 s)\<lparr>l7_fws := l7_fws (lst_l7 s')\<rparr> \<and>
      frame {(FW, n)} (lv s) (lv s') \<and>
      (r = Ok () \<longrightarrow> (\<exists>f. l7_fws (lst_l7 s') = Some f \<and>
         rule_fits n (fst (effective_ip (lst_l7 s) (lv s))) httpsDefaultPortRange f \<and>
         v_fw (lv s') n = Some (f\<lparr>fr_Target := tps_SelfLink tps\<rparr>)))) s" (is "wp _ ?Q s")
proof -
  have "wp (bind (getEffectiveIP e) (\<lambda>(address, _). bind (checkForwardingRule e n (tps_SelfLink tps) address httpsDefaultPortRange)
                    (\<lambda>fw. l7_set (\<lambda>l. l\<lparr>l7_fws := Some fw\<rparr>)))) ?Q s"
  proof (rule wp_seq [OF wp_getEffectiveIP], goal_cases)
    case (1 a s1)
    then show ?case
      unfolding case_prod_unfold by (intro wp_seq [OF wp_checkForwardingRule]) (auto simp: wp_simps)
  qed auto
  then show ?thesis by (simp add: checkHttpsForwardingRule_def wp_simps tps n_def)
qed

text \<open>The address is only touched when the controller manages it.\<close>

lemma wp_checkStaticIP:
  fixes s :: "'c L7_state"
  defines "n \<equiv> fw_name (l7_Name (lst_l7 s))"
  shows "wp (checkStaticIP e) (\<lambda>r s'. lst_l7 s' = (lst_l7 s)\<lparr>l7_ip := l7_ip (lst_l7 s')\<rparr> \<and>
      frame {(IP, n)} (lv s) (lv s') \<and>
      (\<not> snd (effective_ip (lst_l7 s) (lv s)) \<longrightarrow> lv s' = lv s \<and> l7_ip (lst_l7 s') = l7_ip (lst_l7 s))) s" (is "wp _ ?Q s")
proof -
  let ?a = "case l7_fw (lst_l7 s) of Some fw \<Rightarrow> fr_IPAddress fw | None \<Rightarrow> []"
  let ?rest = "\<lambda>(_, manageStaticIP).
        if \<not> manageStaticIP then ret ()
        else bind (lift_outcome (ForwardingRule (l7_namer e) (l7_Name (lst_l7 s)) HTTPProtocol))
          (\<lambda>staticIPName. bind (on_lb (found (GetGlobalAddress (l7_cloud e) staticIPName)))
             (\<lambda>ip. case ip of
                Some a \<Rightarrow> l7_set (\<lambda>l. l\<lparr>l7_ip := Some a\<rparr>)
              | None \<Rightarrow>
                  bind_err (on_lb (ReserveGlobalAddress (l7_cloud e) \<lparr>addr_Name = staticIPName, addr_Address = ?a\<rparr>))
                    (\<lambda>r. case r of
                       Inl err \<Rightarrow>
                         if IsHTTPErrorCode (Some err) StatusConflict \<or> IsHTTPErrorCode (Some err) StatusBadRequest
                         then ret () else fail err
                     | Inr _ \<Rightarrow> bind (on_lb (GetGlobalAddress (l7_cloud e) staticIPName))
                           (\<lambda>a. l7_set (\<lambda>l. l\<lparr>l7_ip := a\<rparr>)))))"
  have "wp (bind (getEffectiveIP e) ?rest) ?Q s"
  proof (rule wp_seq [OF wp_getEffectiveIP], goal_cases)
    case (1 a s1)
    show ?case
    proof (cases "snd a")
      case False
      with 1 show ?thesis by (simp add: case_prod_unfold wp_simps)
    next
      case True
      with 1 show ?thesis
        by (cases "v_ip (lv s) n") (auto simp: case_prod_unfold wp_simps n_def intro!: lb_rules)
    qed
  qed auto
  then show ?thesis by (simp add: checkStaticIP_def wp_simps Let_def)
qed

text \<open>Certificates: the one in use is in the cloud, and no foreign certificate is touched.\<close>

definition cert_in_cloud :: "'c L7_state \<Rightarrow> bool" where
  "cert_in_cloud s \<longleftrightarrow> (\<forall>c. l7_sslCert (lst_l7 s) = Some c \<longrightarrow> cert_Name c \<noteq> [] \<and> v_cert (lv s) (cert_Name c) = Some c)"

lemma wp_usePreSharedCert:
  defines "tlsName l \<equiv> ri_TLSName (l7_runtimeInfo l)"
  shows "wp (usePreSharedCert e) (\<lambda>r s'. lst_l7 s' = (lst_l7 s)\<lparr>l7_sslCert := l7_sslCert (lst_l7 s')\<rparr> \<and> lv s' = lv s \<and>
     (\<forall>used. r = Ok used \<longrightarrow> (used \<longleftrightarrow> tlsName (lst_l7 s) \<noteq> []) \<and> (if used
        then cert_in_cloud s' \<and> (\<exists>c. l7_sslCert (lst_l7 s') = Some c \<and> cert_Name c = tlsName (lst_l7 s))
        else lst_l7 s' = lst_l7 s))) s"
  by (cases "v_cert (lv s) (tlsName (lst_l7 s))")
    (auto simp: usePreSharedCert_def tlsName_def cert_in_cloud_def wp_simps intro!: lb_rules)

lemma wp_getSslCertLinkInUse:
  "wp (getSslCertLinkInUse e) (\<lambda>r s'. lst_l7 s' = lst_l7 s \<and> lv s' = lv s \<and> (\<exists>link. r = Ok link)) s"
  by (auto simp: getSslCertLinkInUse_def wp_simps intro!: lb_rules)

lemma wp_populateSSLCert:
  assumes "named_cert (lst_l7 s)"
  shows "wp (populateSSLCert e) (\<lambda>r s'. lst_l7 s' = (lst_l7 s)\<lparr>l7_sslCert := l7_sslCert (lst_l7 s')\<rparr> \<and>
     lv s' = lv s \<and> named_cert (lst_l7 s') \<and> (r = Ok () \<longrightarrow> cert_in_cloud s')) s"
    (is "wp _ ?Q s")
proof -
  have look: "wp (if name = [] then ret ()
             else bind_err (on_lb (GetSslCertificate (l7_cloud e) name))
               (\<lambda>r. case r of
                  Inr cert \<Rightarrow> l7_set (\<lambda>l. l\<lparr>l7_sslCert := cert\<rparr>)
                | Inl err \<Rightarrow> bind (l7_set (\<lambda>l. l\<lparr>l7_sslCert := None\<rparr>)) (\<lambda>_. ignoring_not_found (fail err)))) ?Q s1"
    if s1: "lst_l7 s1 = lst_l7 s" "lv s1 = lv s" and name: "name = [] \<Longrightarrow> l7_sslCert (lst_l7 s) = None" for name s1
  proof (cases "name = []")
    case True
    with s1 name show ?thesis by (simp add: wp_simps named_cert_def cert_in_cloud_def)
  next
    case False
    with s1 show ?thesis
      by (auto simp: wp_simps named_cert_def cert_in_cloud_def ignoring_not_found_def intro!: lb_rules
          split: option.split)
  qed
  show ?thesis
  proof (cases "l7_sslCert (lst_l7 s)")
    case (Some c)
    have "wp (if cert_Name c = [] then ret ()
             else bind_err (on_lb (GetSslCertificate (l7_cloud e) (cert_Name c)))
               (\<lambda>r. case r of
                  Inr cert \<Rightarrow> l7_set (\<lambda>l. l\<lparr>l7_sslCert := cert\<rparr>)
                | Inl err \<Rightarrow> bind (l7_set (\<lambda>l. l\<lparr>l7_sslCert := None\<rparr>)) (\<lambda>_. ignoring_not_found (fail err)))) ?Q s"
      by (rule look) (use assms Some in \<open>auto simp: named_cert_def\<close>)
    then show ?thesis by (simp only: populateSSLCert_def wp_bind wp_read_state on_ok_simps Some option.case wp_ret)
  next
    case None
    show ?thesis
      unfolding populateSSLCert_def wp_bind wp_read_state on_ok_simps None option.case
      by (rule wp_mono [OF wp_getSslCertLinkInUse])
        (auto simp only: on_ok_simps wp_ret None intro!: look)
  qed
qed

lemma wp_replace_cert:
  assumes "named_cert (lst_l7 s)"
  shows "wp (replace_cert e tls) (\<lambda>r s'.
     lst_l7 s' = (lst_l7 s)\<lparr>l7_sslCert := l7_sslCert (lst_l7 s'), l7_oldSSLCert := l7_oldSSLCert (lst_l7 s')\<rparr> \<and>
     frame own_certs (lv s) (lv s') \<and> named_cert (lst_l7 s') \<and>
     (r = Ok () \<longrightarrow> cert_in_cloud s' \<and>
        (\<exists>c. l7_sslCert (lst_l7 s') = Some c \<and> cert_Certificate c = tls_Cert tls \<and>
           cert_Name c = nextCertificateName e (lst_l7 s)))) s"
  using assms
  by (auto simp: replace_cert_def wp_simps named_cert_def cert_in_cloud_def intro!: lb_rules)

lemma wp_checkSSLCert:
  assumes named: "named_cert (lst_l7 s)"
  defines "ri \<equiv> l7_runtimeInfo (lst_l7 s)"
  shows "wp (checkSSLCert e) (\<lambda>r s'.
     lst_l7 s' = (lst_l7 s)\<lparr>l7_sslCert := l7_sslCert (lst_l7 s'), l7_oldSSLCert := l7_oldSSLCert (lst_l7 s')\<rparr> \<and>
     frame own_certs (lv s) (lv s') \<and>
     (r = Ok () \<longrightarrow> cert_in_cloud s' \<and> (\<exists>c. l7_sslCert (lst_l7 s') = Some c \<and>
        (if ri_TLSName ri \<noteq> [] then cert_Name c = ri_TLSName ri
         else \<exists>tls. ri_TLS ri = Some tls \<and> cert_Certificate c = tls_Cert tls)))) s" (is "wp _ ?Q s")
  unfolding checkSSLCert_def
proof (rule wp_seq [OF wp_usePreSharedCert], goal_cases)
  case (1 used s1)
  show ?case
  proof (cases used)
    case True
    with 1 show ?thesis by (auto simp: wp_simps ri_def)
  next
    case False
    with 1 have s1: "lst_l7 s1 = lst_l7 s" "lv s1 = lv s" "ri_TLSName ri = []" by (auto simp: ri_def)
    have named1: "named_cert (lst_l7 s1)" using named s1 by simp
    have "wp (bind (populateSSLCert e)
            (\<lambda>_. bind (l7_get (\<lambda>l. (ri_TLS (l7_runtimeInfo l), l7_sslCert l)))
               (\<lambda>(TLS, cur). case TLS of
                  None \<Rightarrow> panic ''nil pointer dereference''
                | Some tls \<Rightarrow>
                    if (case cur of Some c \<Rightarrow> tls_Cert tls = cert_Certificate c | None \<Rightarrow> False) then ret ()
                    else replace_cert e tls))) ?Q s1"
    proof (rule wp_seq [OF wp_populateSSLCert [OF named1]], goal_cases)
      case (1 a s2)
      then have s2: "lst_l7 s2 = (lst_l7 s)\<lparr>l7_sslCert := l7_sslCert (lst_l7 s2)\<rparr>" "lv s2 = lv s"
        "named_cert (lst_l7 s2)" "cert_in_cloud s2" using s1 by simp_all
      have ri2: "l7_runtimeInfo (lst_l7 s2) = ri" by (subst s2(1)) (simp add: ri_def)
      show ?case
      proof (cases "ri_TLS ri")
        case None
        with s2(1,2) ri2 show ?thesis by (simp add: wp_simps)
      next
        case (Some tls)
        show ?thesis
        proof (cases "case l7_sslCert (lst_l7 s2) of Some c \<Rightarrow> tls_Cert tls = cert_Certificate c | None \<Rightarrow> False")
          case True
          with s2 ri2 Some s1(3) show ?thesis by (auto simp: wp_simps split: option.splits)
        next
          case False
          have "wp (replace_cert e tls) ?Q s2"
          proof (rule wp_mono [OF wp_replace_cert [OF s2(3)]], goal_cases)
            case (1 r s3)
            then have "lst_l7 s3 = (lst_l7 s2)\<lparr>l7_sslCert := l7_sslCert (lst_l7 s3), l7_oldSSLCert := l7_oldSSLCert (lst_l7 s3)\<rparr>"
              by blast
            also have "\<dots> = (lst_l7 s)\<lparr>l7_sslCert := l7_sslCert (lst_l7 s3), l7_oldSSLCert := l7_oldSSLCert (lst_l7 s3)\<rparr>"
              by (subst s2(1)) simp
            finally have "lst_l7 s3 = (lst_l7 s)\<lparr>l7_sslCert := l7_sslCert (lst_l7 s3), l7_oldSSLCert := l7_oldSSLCert (lst_l7 s3)\<rparr>" .
            with 1 s2(2) Some s1(3) show ?case by auto
          qed
          with False Some ri2 show ?thesis by (simp add: wp_simps)
        qed
      qed
    next
      case (2 err s2)
      with s1 show ?case by (simp)
    next
      case (3 p s2)
      with s1 show ?case by (simp)
    qed
    with False show ?thesis by simp
  qed
next
  case (2 err s1)
  then show ?case by simp
next
  case (3 p s1)
  then show ?case by simp
qed

lemma wp_checkHttpsProxy:
  assumes um: "l7_um (lst_l7 s) = Some um" and cert: "l7_sslCert (lst_l7 s) = Some cert"
  defines "n \<equiv> tps_name (l7_Name (lst_l7 s))"
  shows "wp (checkHttpsProxy e) (\<lambda>r s'. lst_l7 s' = (lst_l7 s)\<lparr>l7_tps := l7_tps (lst_l7 s')\<rparr> \<and>
      frame {(TPS, n)} (lv s) (lv s') \<and>
      (r = Ok () \<longrightarrow> (\<exists>tps q. l7_tps (lst_l7 s') = Some tps \<and> tps_Name tps = n \<and> v_tps (lv s') n = Some q \<and>
         tps_UrlMap q = um_SelfLink um \<and> tps_SelfLink q = tps_SelfLink tps \<and>
         (\<exists>rest. tps_SslCertificates q = cert_SelfLink cert # rest)))) s"
proof (cases "v_tps (lv s) n")
  case None
  then show ?thesis
    by (auto simp: checkHttpsProxy_def wp_simps um cert n_def intro!: lb_rules)
next
  case (Some q)
  show ?thesis
  proof (cases "tps_SslCertificates q")
    case Nil
    with Some show ?thesis
      by (cases "CompareLinks (tps_UrlMap q) (um_SelfLink um)")
        (auto simp: checkHttpsProxy_def wp_simps um cert n_def CompareLinks_def intro!: lb_rules)
  next
    case (Cons link rest)
    with Some show ?thesis
      by (cases "CompareLinks (tps_UrlMap q) (um_SelfLink um)"; cases "CompareLinks link (cert_SelfLink cert)")
        (auto simp: checkHttpsProxy_def wp_simps um cert n_def CompareLinks_def intro!: lb_rules)
  qed
qed

lemma wp_deleteOldSSLCert:
  assumes cert: "l7_sslCert (lst_l7 s) = Some cert"
  shows "wp (deleteOldSSLCert e) (\<lambda>r s'. lst_l7 s' = (lst_l7 s)\<lparr>l7_oldSSLCert := l7_oldSSLCert (lst_l7 s')\<rparr> \<and>
      frame own_certs (lv s) (lv s') \<and> v_cert (lv s') (cert_Name cert) = v_cert (lv s) (cert_Name cert)) s"
  using cert
  by (cases "l7_oldSSLCert (lst_l7 s)") (auto simp: deleteOldSSLCert_def wp_simps intro!: lb_rules)

lemma frame_ip: "frame W v v' \<Longrightarrow> \<forall>n. (IP, n) \<notin> W \<Longrightarrow> v_ip v' = v_ip v"
  by (auto simp: frame_def fun_eq_iff)

text \<open>
  What the steps of one run keep, seen from the state \<open>s0\<close> when the url map was there: the identity of
  the load balancer and its url map, the address to use, and all resources outside \<open>W\<close>.
\<close>

definition within :: "(kind \<times> string) set \<Rightarrow> 'c L7_state \<Rightarrow> UrlMap \<Rightarrow> 'c L7_state \<Rightarrow> bool" where
  "within W s0 um s \<longleftrightarrow> keeps (lst_l7 s0) (lst_l7 s) \<and> l7_um (lst_l7 s) = Some um \<and> frame W (lv s0) (lv s) \<and>
     effective_ip (lst_l7 s) (lv s) = effective_ip (lst_l7 s0) (lv s0)"

lemma within_step:
  assumes "within W s0 um s1" "frame V (lv s1) (lv s2)" "V \<subseteq> W" "\<And>n. (IP, n) \<notin> V"
    and "keeps (lst_l7 s1) (lst_l7 s2) \<and> l7_ip (lst_l7 s2) = l7_ip (lst_l7 s1) \<and> l7_um (lst_l7 s2) = l7_um (lst_l7 s1)"
  shows "within W s0 um s2"
proof -
  have "effective_ip (lst_l7 s2) (lv s2) = effective_ip (lst_l7 s1) (lv s1)"
    by (rule effective_ip_cong) (use assms(5) frame_ip [OF assms(2)] assms(4) in \<open>auto simp: keeps_def\<close>)
  moreover have "frame W (lv s0) (lv s2)"
    using assms(1) frame_mono [OF assms(2,3)] by (auto simp: within_def intro: frame_trans)
  ultimately show ?thesis using assms(1,5) by (auto simp: within_def intro: keeps_trans)
qed

lemma within_name: "within W s0 um s \<Longrightarrow> l7_Name (lst_l7 s) = l7_Name (lst_l7 s0)"
  by (simp add: within_def keeps_def)

lemma wp_edgeHopHttp:
  fixes s0 :: "'c L7_state"
  defines "lb \<equiv> l7_Name (lst_l7 s0)"
  assumes W: "within W s0 um s" and own: "{(TP, tp_name lb), (FW, fw_name lb)} \<subseteq> W"
  shows "wp (edgeHopHttp e) (\<lambda>r s'. (within W s0 um s' \<and> l7_sslCert (lst_l7 s') = l7_sslCert (lst_l7 s)) \<and>
      (\<forall>a. r = Ok a \<longrightarrow> http_chain (lv s') lb um (fst (effective_ip (lst_l7 s0) (lv s0))))) s"
  unfolding edgeHopHttp_def
proof (rule wp_seq_inv [where P = "\<lambda>_ s'. \<exists>tp p. l7_tp (lst_l7 s') = Some tp \<and> v_tp (lv s') (tp_name lb) = Some p \<and>
      tp_UrlMap p = um_SelfLink um \<and> tp_SelfLink p = tp_SelfLink tp"], goal_cases)
  case 1
  have um: "l7_um (lst_l7 s) = Some um" using W by (simp add: within_def)
  show ?case
  proof (rule wp_mono [OF wp_checkProxy [OF um]], unfold within_name [OF W] lb_def [symmetric], goal_cases)
    case (1 r s1)
    have "within W s0 um s1"
      by (rule within_step [OF W, where V = "{(TP, tp_name lb)}"]) (use 1 l7_upd(2) [OF conjunct1 [OF 1]] own in auto)
    with 1 l7_upd(2) [OF conjunct1 [OF 1]] show ?case by auto
  qed
next
  case (2 a s1)
  then obtain tp p where tp: "l7_tp (lst_l7 s1) = Some tp" "v_tp (lv s1) (tp_name lb) = Some p"
    "tp_UrlMap p = um_SelfLink um" "tp_SelfLink p = tp_SelfLink tp" by blast
  show ?case
  proof (rule wp_mono [OF wp_checkHttpForwardingRule [OF tp(1)]], unfold within_name [OF conjunct1 [OF 2(1)]] lb_def [symmetric], goal_cases)
    case (1 r s2)
    have "within W s0 um s2"
      by (rule within_step [OF conjunct1 [OF 2(1)], where V = "{(FW, fw_name lb)}"]) (use 1 l7_upd(3) [OF conjunct1 [OF 1]] own in auto)
    moreover have "v_tp (lv s2) = v_tp (lv s1)" using 1 by (auto simp: frame_def fun_eq_iff)
    moreover have "fst (effective_ip (lst_l7 s1) (lv s1)) = fst (effective_ip (lst_l7 s0) (lv s0))"
      using 2(1) by (simp add: within_def)
    ultimately show ?case using 1 tp 2(1) l7_upd(3) [OF conjunct1 [OF 1]] by (auto simp: http_chain_def)
  qed
qed

text \<open>The steps for HTTPS, one by one.\<close>

definition has_cert :: "'c L7_state \<Rightarrow> SslCertificate \<Rightarrow> 'c L7_state \<Rightarrow> bool" where
  "has_cert s0 cert s \<longleftrightarrow> l7_sslCert (lst_l7 s) = Some cert \<and> cert_fits (l7_runtimeInfo (lst_l7 s0)) cert \<and>
     v_cert (lv s) (cert_Name cert) = Some cert"

lemma has_cert_step:
  "has_cert s0 cert s1 \<Longrightarrow> l7_sslCert (lst_l7 s2) = l7_sslCert (lst_l7 s1) \<Longrightarrow> frame V (lv s1) (lv s2) \<Longrightarrow>
   (\<And>n. (CERT, n) \<notin> V) \<Longrightarrow> has_cert s0 cert s2"
  by (simp add: has_cert_def frame_def)

lemma wp_https_cert:
  assumes W: "within W s0 um s" "own_certs \<subseteq> W" and named: "named_cert (lst_l7 s)"
  shows "wp (checkSSLCert e) (\<lambda>r s'. within W s0 um s' \<and> (\<forall>a. r = Ok a \<longrightarrow> (\<exists>cert. has_cert s0 cert s'))) s"
proof (rule wp_mono [OF wp_checkSSLCert [OF named]], goal_cases)
  case (1 r s1)
  have "within W s0 um s1"
    by (rule within_step [OF W(1), where V = own_certs]) (use 1 l7_upd(5) [OF conjunct1 [OF 1]] W(2) in auto)
  moreover have "l7_runtimeInfo (lst_l7 s) = l7_runtimeInfo (lst_l7 s0)" using W(1) by (simp add: within_def keeps_def)
  ultimately show ?case using 1 by (auto simp: has_cert_def cert_fits_def cert_in_cloud_def)
qed

lemma wp_https_proxy:
  fixes s0 :: "'c L7_state"
  defines "lb \<equiv> l7_Name (lst_l7 s0)"
  assumes W: "within W s0 um s" "(TPS, tps_name lb) \<in> W" and cert: "has_cert s0 cert s"
  shows "wp (checkHttpsProxy e) (\<lambda>r s'. within W s0 um s' \<and> (\<forall>a. r = Ok a \<longrightarrow> has_cert s0 cert s' \<and>
     (\<exists>tps q rest. l7_tps (lst_l7 s') = Some tps \<and> v_tps (lv s') (tps_name lb) = Some q \<and>
        tps_UrlMap q = um_SelfLink um \<and> tps_SelfLink q = tps_SelfLink tps \<and>
        tps_SslCertificates q = cert_SelfLink cert # rest))) s"
proof -
  have um: "l7_um (lst_l7 s) = Some um" and c: "l7_sslCert (lst_l7 s) = Some cert"
    using W(1) cert by (simp_all add: within_def has_cert_def)
  show ?thesis
  proof (rule wp_mono [OF wp_checkHttpsProxy [OF um c]], unfold within_name [OF W(1)] lb_def [symmetric], goal_cases)
    case (1 r s1)
    note upd = l7_upd(6) [OF conjunct1 [OF 1]]
    have "within W s0 um s1"
      by (rule within_step [OF W(1), where V = "{(TPS, tps_name lb)}"]) (use 1 upd W(2) in auto)
    moreover have "has_cert s0 cert s1"
      by (rule has_cert_step [OF cert, where V = "{(TPS, tps_name lb)}"]) (use 1 upd in auto)
    ultimately show ?case using 1 by auto
  qed
qed

lemma wp_https_rule:
  fixes s0 :: "'c L7_state"
  defines "lb \<equiv> l7_Name (lst_l7 s0)"
  assumes W: "within W s0 um s" "(FW, fws_name lb) \<in> W" and cert: "has_cert s0 cert s"
    and tps: "l7_tps (lst_l7 s) = Some tps" "v_tps (lv s) (tps_name lb) = Some q"
      "tps_UrlMap q = um_SelfLink um" "tps_SelfLink q = tps_SelfLink tps" "tps_SslCertificates q = cert_SelfLink cert # rest"
  shows "wp (checkHttpsForwardingRule e) (\<lambda>r s'. within W s0 um s' \<and> (\<forall>a. r = Ok a \<longrightarrow> has_cert s0 cert s' \<and>
     https_chain (lv s') lb um cert (fst (effective_ip (lst_l7 s0) (lv s0))))) s"
proof (rule wp_mono [OF wp_checkHttpsForwardingRule [OF tps(1)]], unfold within_name [OF W(1)] lb_def [symmetric], goal_cases)
  case (1 r s1)
  note upd = l7_upd(7) [OF conjunct1 [OF 1]]
  have "within W s0 um s1"
    by (rule within_step [OF W(1), where V = "{(FW, fws_name lb)}"]) (use 1 upd W(2) in auto)
  moreover have has: "has_cert s0 cert s1"
    by (rule has_cert_step [OF cert, where V = "{(FW, fws_name lb)}"]) (use 1 upd in auto)
  moreover have "v_tps (lv s1) = v_tps (lv s)" using 1 by (auto simp: frame_def fun_eq_iff)
  moreover have "fst (effective_ip (lst_l7 s) (lv s)) = fst (effective_ip (lst_l7 s0) (lv s0))"
    using W(1) by (simp add: within_def)
  ultimately show ?case using 1 tps by (auto simp: https_chain_def has_cert_def lb_def)
qed

lemma wp_https_old_cert:
  assumes W: "within W s0 um s" "own_certs \<subseteq> W" and cert: "has_cert s0 cert s" and chain: "https_chain (lv s) lb um cert ip"
  shows "wp (deleteOldSSLCert e) (\<lambda>r s'. within W s0 um s' \<and>
     (\<forall>a. r = Ok a \<longrightarrow> has_cert s0 cert s' \<and> https_chain (lv s') lb um cert ip)) s"
proof -
  have c: "l7_sslCert (lst_l7 s) = Some cert" using cert by (simp add: has_cert_def)
  show ?thesis
  proof (rule wp_mono [OF wp_deleteOldSSLCert [OF c]], goal_cases)
    case (1 r s1)
    note upd = l7_upd(8) [OF conjunct1 [OF 1]]
    have "within W s0 um s1"
      by (rule within_step [OF W(1), where V = own_certs]) (use 1 upd W(2) in auto)
    moreover have "v_tps (lv s1) = v_tps (lv s)" "v_fw (lv s1) = v_fw (lv s)" using 1 by (auto simp: frame_def fun_eq_iff)
    ultimately show ?case using 1 upd cert chain by (auto simp: https_chain_def has_cert_def)
  qed
qed

lemma wp_edgeHopHttps:
  fixes s0 :: "'c L7_state"
  defines "lb \<equiv> l7_Name (lst_l7 s0)" and "ip \<equiv> fst (effective_ip (lst_l7 s0) (lv s0))"
  assumes W: "within W s0 um s" and named: "named_cert (lst_l7 s)"
    and own: "{(TPS, tps_name lb), (FW, fws_name lb)} \<subseteq> W" "own_certs \<subseteq> W"
  shows "wp (edgeHopHttps e) (\<lambda>r s'. within W s0 um s' \<and>
      (\<forall>a. r = Ok a \<longrightarrow> (\<exists>cert. has_cert s0 cert s' \<and> https_chain (lv s') lb um cert ip))) s"
  unfolding edgeHopHttps_def
proof (rule wp_seq_inv [OF wp_https_cert [OF W own(2) named]], elim exE)
  fix s1 cert assume s1: "within W s0 um s1" "has_cert s0 cert s1"
  show "wp (bind (checkHttpsProxy e) (\<lambda>_. bind (checkHttpsForwardingRule e) (\<lambda>_. deleteOldSSLCert e)))
     (\<lambda>r s'. within W s0 um s' \<and> (\<forall>a. r = Ok a \<longrightarrow> (\<exists>cert. has_cert s0 cert s' \<and> https_chain (lv s') lb um cert ip))) s1"
  proof (rule wp_seq_inv [OF wp_https_proxy [OF s1(1) _ s1(2)]], goal_cases)
    case (2 a s2)
    then obtain tps q rest where tps: "l7_tps (lst_l7 s2) = Some tps" "v_tps (lv s2) (tps_name lb) = Some q"
      "tps_UrlMap q = um_SelfLink um" "tps_SelfLink q = tps_SelfLink tps" "tps_SslCertificates q = cert_SelfLink cert # rest"
      by (auto simp: lb_def)
    have cert2: "has_cert s0 cert s2" using 2 by blast
    show ?case
    proof (rule wp_seq_inv [OF wp_https_rule [OF 2(1) _ cert2 tps [unfolded lb_def]]], goal_cases)
      case (2 b s3)
      then show ?case
        unfolding ip_def lb_def by (intro wp_mono [OF wp_https_old_cert [OF 2(1) own(2)]]) auto
    qed (use own in \<open>simp add: lb_def\<close>)
  qed (use own in \<open>simp add: lb_def\<close>)
qed

lemma http_chain_user: "http_chain v lb um (fst (effective_ip l v')) \<Longrightarrow> http_chain v lb um (user_ip l v')"
  by (auto simp: http_chain_def user_ip_def)

lemma http_chain_frame:
  "http_chain v lb um ip \<Longrightarrow> frame V v v' \<Longrightarrow> (TP, tp_name lb) \<notin> V \<Longrightarrow> (FW, fw_name lb) \<notin> V \<Longrightarrow> http_chain v' lb um ip"
  by (simp add: http_chain_def frame_def)

lemma https_chain_user:
  "https_chain v lb um cert ip \<Longrightarrow> (u \<noteq> [] \<Longrightarrow> ip = u) \<Longrightarrow> https_chain v lb um cert u"
  by (auto simp: https_chain_def)

text \<open>HTTP first, when it is allowed; then the address; then HTTPS, each step framed by the resources it owns.\<close>

definition http_part :: "'c L7_state \<Rightarrow> UrlMap \<Rightarrow> 'c L7_state \<Rightarrow> bool" where
  "http_part s0 um s \<longleftrightarrow> keeps (lst_l7 s0) (lst_l7 s) \<and> l7_um (lst_l7 s) = Some um \<and>
     frame (own_names (l7_namer e) (lst_l7 s0)) (lv s0) (lv s) \<and> v_um (lv s) = v_um (lv s0) \<and>
     l7_sslCert (lst_l7 s) = l7_sslCert (lst_l7 s0) \<and>
     (user_ip (lst_l7 s0) (lv s0) \<noteq> [] \<longrightarrow> effective_ip (lst_l7 s) (lv s) = effective_ip (lst_l7 s0) (lv s0))"

lemma wp_http_part:
  fixes s0 :: "'c L7_state"
  defines "lb \<equiv> l7_Name (lst_l7 s0)"
  assumes um: "l7_um (lst_l7 s0) = Some um"
  shows "wp (if allowed then edgeHopHttp e else ret ()) (\<lambda>r s'. http_part s0 um s' \<and>
     (\<forall>a. r = Ok a \<longrightarrow> allowed \<longrightarrow> http_chain (lv s') lb um (user_ip (lst_l7 s0) (lv s0)))) s0"
proof (cases allowed)
  case False
  with um show ?thesis by (simp add: wp_simps http_part_def keeps_def)
next
  case True
  let ?W = "{(TP, tp_name lb), (FW, fw_name lb)}"
  have "within ?W s0 um s0" using um by (simp add: within_def keeps_def)
  then show ?thesis
    unfolding if_P [OF True]
  proof (rule wp_mono [OF wp_edgeHopHttp], goal_cases)
    case (2 r s')
    then have s': "keeps (lst_l7 s0) (lst_l7 s')" "l7_um (lst_l7 s') = Some um" "frame ?W (lv s0) (lv s')"
      "effective_ip (lst_l7 s') (lv s') = effective_ip (lst_l7 s0) (lv s0)" by (simp_all add: within_def)
    have um': "v_um (lv s') = v_um (lv s0)" using s'(3) by (auto simp: frame_def fun_eq_iff)
    have "frame (own_names (l7_namer e) (lst_l7 s0)) (lv s0) (lv s')"
      by (rule frame_mono [OF s'(3)]) (auto simp: own_names_def Let_def lb_def)
    then show ?case using 2 s' um' http_chain_user by (auto simp: http_part_def lb_def)
  qed (simp add: lb_def)
qed

lemma wp_static_part:
  fixes s0 :: "'c L7_state"
  defines "lb \<equiv> l7_Name (lst_l7 s0)"
  assumes part: "http_part s0 um s" and chain: "allowed \<Longrightarrow> http_chain (lv s) lb um ip"
  shows "wp (if b then checkStaticIP e else ret ()) (\<lambda>r s'. http_part s0 um s' \<and>
     (\<forall>a. r = Ok a \<longrightarrow> allowed \<longrightarrow> http_chain (lv s') lb um ip)) s"
proof (cases b)
  case False
  with part chain show ?thesis by (simp add: wp_simps)
next
  case True
  have lb: "l7_Name (lst_l7 s) = lb" using part by (simp add: http_part_def keeps_def lb_def)
  show ?thesis
    unfolding if_P [OF True]
  proof (rule wp_mono [OF wp_checkStaticIP], unfold lb, goal_cases)
    case (1 r s')
    note upd = l7_upd(4) [OF conjunct1 [OF 1]]
    have f: "frame {(IP, fw_name lb)} (lv s) (lv s')" using 1 by blast
    have um: "v_um (lv s') = v_um (lv s)" using f by (auto simp: frame_def fun_eq_iff)
    have "frame (own_names (l7_namer e) (lst_l7 s0)) (lv s) (lv s')"
      by (rule frame_mono [OF f]) (auto simp: own_names_def Let_def lb_def)
    moreover have "effective_ip (lst_l7 s') (lv s') = effective_ip (lst_l7 s) (lv s)"
      if "user_ip (lst_l7 s0) (lv s0) \<noteq> []"
    proof -
      have "\<not> snd (effective_ip (lst_l7 s) (lv s))" using part that by (auto simp: http_part_def user_ip_def split: if_splits)
      then have "lv s' = lv s" "l7_ip (lst_l7 s') = l7_ip (lst_l7 s)" using 1 by simp_all
      then show ?thesis using upd by (intro effective_ip_cong) (simp_all add: keeps_def)
    qed
    ultimately have "http_part s0 um s'"
      using part upd um by (auto simp: http_part_def intro: keeps_trans frame_trans)
    moreover have "http_chain (lv s') lb um ip" if allowed
      by (rule http_chain_frame [OF chain [OF that] f]) auto
    ultimately show ?case by simp
  qed
qed

text \<open>The outcome of a run: no foreign resource changed, and on success the chains are complete.\<close>

definition complete :: "'c L7_state \<Rightarrow> UrlMap \<Rightarrow> 'c L7_state \<Rightarrow> bool" where
  "complete s0 um s \<longleftrightarrow> (let ri = l7_runtimeInfo (lst_l7 s0); lb = l7_Name (lst_l7 s0); ip = user_ip (lst_l7 s0) (lv s0) in
     l7_um (lst_l7 s) = Some um \<and> v_um (lv s) (UrlMap (l7_namer e) lb) = Some um \<and>
     (ri_AllowHTTP ri \<longrightarrow> http_chain (lv s) lb um ip) \<and>
     (wants_https (lst_l7 s0) \<longrightarrow> (\<exists>cert. l7_sslCert (lst_l7 s) = Some cert \<and> cert_fits ri cert \<and> https_chain (lv s) lb um cert ip)))"

lemma wp_https_part:
  fixes s0 :: "'c L7_state"
  defines "lb \<equiv> l7_Name (lst_l7 s0)" and "ip \<equiv> user_ip (lst_l7 s0) (lv s0)"
  assumes part: "http_part s0 um s" and chain: "allowed \<Longrightarrow> http_chain (lv s) lb um ip" and named: "named_cert (lst_l7 s0)"
  shows "wp (if https then edgeHopHttps e else ret ()) (\<lambda>r s'. (keeps (lst_l7 s0) (lst_l7 s') \<and>
      frame (own_names (l7_namer e) (lst_l7 s0)) (lv s0) (lv s')) \<and>
     (\<forall>a. r = Ok a \<longrightarrow> l7_um (lst_l7 s') = Some um \<and> v_um (lv s') = v_um (lv s0) \<and>
        (allowed \<longrightarrow> http_chain (lv s') lb um ip) \<and>
        (https \<longrightarrow> (\<exists>cert. l7_sslCert (lst_l7 s') = Some cert \<and> cert_fits (l7_runtimeInfo (lst_l7 s0)) cert \<and>
           https_chain (lv s') lb um cert ip)))) s"
proof (cases https)
  case False
  with part chain show ?thesis by (simp add: wp_simps http_part_def)
next
  case True
  let ?W = "{(TPS, tps_name lb), (FW, fws_name lb)} \<union> own_certs"
  have lb: "l7_Name (lst_l7 s) = lb" and ri: "l7_runtimeInfo (lst_l7 s) = l7_runtimeInfo (lst_l7 s0)"
    and cert: "named_cert (lst_l7 s)"
    using part named by (simp_all add: http_part_def keeps_def lb_def named_cert_def)
  have W: "within ?W s um s" using part by (simp add: within_def keeps_def http_part_def)
  have ip: "ip \<noteq> [] \<Longrightarrow> fst (effective_ip (lst_l7 s) (lv s)) = ip"
    using part by (auto simp: http_part_def ip_def user_ip_def)
  show ?thesis
    unfolding if_P [OF True]
  proof (rule wp_mono [OF wp_edgeHopHttps [OF W cert]], goal_cases)
    case (3 r s')
    then have s': "keeps (lst_l7 s) (lst_l7 s')" "l7_um (lst_l7 s') = Some um" and f: "frame ?W (lv s) (lv s')"
      by (simp_all add: within_def)
    have um: "v_um (lv s') = v_um (lv s)" using f by (auto simp: frame_def fun_eq_iff)
    have "frame (own_names (l7_namer e) (lst_l7 s0)) (lv s) (lv s')"
      by (rule frame_mono [OF f]) (auto simp: own_names_def Let_def lb_def)
    then have "keeps (lst_l7 s0) (lst_l7 s') \<and> frame (own_names (l7_namer e) (lst_l7 s0)) (lv s0) (lv s')"
      using part s'(1) by (auto simp: http_part_def intro: keeps_trans frame_trans)
    moreover have "http_chain (lv s') lb um ip" if allowed
      by (rule http_chain_frame [OF chain [OF that] f]) auto
    moreover have "\<exists>cert. l7_sslCert (lst_l7 s') = Some cert \<and> cert_fits (l7_runtimeInfo (lst_l7 s0)) cert \<and>
        https_chain (lv s') lb um cert ip" if r: "r = Ok ()"
      using 3 r https_chain_user [OF _ ip] by (auto simp: has_cert_def lb ri)
    ultimately show ?case using s' um part by (auto simp: http_part_def)
  qed (auto simp: lb)
qed

lemma user_ip_cong:
  "keeps l l' \<Longrightarrow> l7_ip l' = l7_ip l \<Longrightarrow> v_ip v' = v_ip v \<Longrightarrow> user_ip l' v' = user_ip l v"
  using effective_ip_cong [of l' l v' v] by (simp add: user_ip_def keeps_def)

lemma wp_edgeHop:
  assumes named: "named_cert (lst_l7 s)"
  shows "wp (edgeHop e) (\<lambda>r s'. (keeps (lst_l7 s) (lst_l7 s') \<and> frame (own_names (l7_namer e) (lst_l7 s)) (lv s) (lv s')) \<and>
     (\<forall>a. r = Ok a \<longrightarrow> (\<exists>um. complete s um s'))) s"
  unfolding edgeHop_def
proof (rule wp_seq [OF wp_checkUrlMap], goal_cases)
  case (1 a s1)
  note upd = l7_upd(1) [OF conjunct1 [OF 1]]
  let ?n = "UrlMap (l7_namer e) (l7_Name (lst_l7 s))"
  have own: "own_names (l7_namer e) (lst_l7 s1) = own_names (l7_namer e) (lst_l7 s)" and same: "l7_runtimeInfo (lst_l7 s1) = l7_runtimeInfo (lst_l7 s)"
    "l7_Name (lst_l7 s1) = l7_Name (lst_l7 s)" "wants_https (lst_l7 s1) = wants_https (lst_l7 s)"
    using upd by (simp_all add: keeps_def own_names_def wants_https_def)
  have f: "frame (own_names (l7_namer e) (lst_l7 s)) (lv s) (lv s1)"
    by (rule frame_mono [of "{(UM, ?n)}"]) (use 1 in \<open>auto simp: own_names_def Let_def\<close>)
  have "v_ip (lv s1) = v_ip (lv s)" using 1 by (auto simp: frame_def fun_eq_iff)
  then have ip: "user_ip (lst_l7 s1) (lv s1) = user_ip (lst_l7 s) (lv s)" using upd by (intro user_ip_cong) auto
  obtain um where um: "l7_um (lst_l7 s1) = Some um" "v_um (lv s1) ?n = Some um" using 1 by auto
  have cert: "named_cert (lst_l7 s1)" using named upd by (simp add: named_cert_def)
  let ?allowed = "ri_AllowHTTP (l7_runtimeInfo (lst_l7 s))" and ?https = "wants_https (lst_l7 s)"
  have "wp (bind (if ?allowed then edgeHopHttp e else ret ())
      (\<lambda>_. bind (if ?allowed \<and> ?https then checkStaticIP e else ret ()) (\<lambda>_. if ?https then edgeHopHttps e else ret ())))
     (\<lambda>r s'. (keeps (lst_l7 s1) (lst_l7 s') \<and> frame (own_names (l7_namer e) (lst_l7 s1)) (lv s1) (lv s')) \<and>
       (\<forall>a. r = Ok a \<longrightarrow> (\<exists>um. complete s um s'))) s1"
  proof (rule wp_seq [OF wp_http_part [OF um(1)]], goal_cases)
    case (1 b s2)
    show ?case
    proof (rule wp_seq [OF wp_static_part [OF conjunct1 [OF 1], of ?allowed "user_ip (lst_l7 s1) (lv s1)"]], goal_cases)
      case (2 c s3)
      show ?case
        by (rule wp_mono [OF wp_https_part [OF conjunct1 [OF 2] _ cert, of ?allowed]])
          (use 2 um in \<open>auto simp: complete_def Let_def same ip\<close>)
    qed (use 1 in \<open>auto simp: http_part_def\<close>)
  qed (auto simp: http_part_def)
  then show ?case
    unfolding own wp_bind [of "read_state _"] wp_read_state on_ok_simps case_prod_conv same
    by (rule wp_mono) (use upd f in \<open>auto intro: keeps_trans frame_trans\<close>)
next
  case (2 err s1)
  with l7_upd(1) [OF conjunct1 [OF 2]] show ?case by (auto simp: own_names_def Let_def intro: frame_mono)
next
  case (3 p s1)
  with l7_upd(1) [OF conjunct1 [OF 3]] show ?case by (auto simp: own_names_def Let_def intro: frame_mono)
qed

end

end
