(* ===== verification/Lb_Cleanup.thy ===== *)
theory Lb_Cleanup
  imports Lb_Chain
begin

text \<open>
  The cleanup of a load balancer: it goes from the forwarding rules over the proxies to the url map, and
  whatever call fails, each resource is either still remembered or gone. The properties of single load
  balancers follow, with the repository's fake as the cloud of the witnesses.
\<close>

section \<open>Remembered or gone\<close>

text \<open>A field before and after: as it was, or cleared after the resource was deleted.\<close>

definition left_or :: "('a \<Rightarrow> bool) \<Rightarrow> 'a option \<Rightarrow> 'a option \<Rightarrow> bool" where
  "left_or is_gone before after \<longleftrightarrow> after = before \<or> (after = None \<and> (\<forall>x. before = Some x \<longrightarrow> is_gone x))"

lemma left_or_refl [simp]: "left_or g x x"
  by (simp add: left_or_def)

lemma left_or_clear: "left_or g x (Some y) \<Longrightarrow> g' y \<Longrightarrow> left_or g' x None"
  by (auto simp: left_or_def)

lemma left_or_Some: "left_or g x (Some y) \<Longrightarrow> x = Some y"
  by (auto simp: left_or_def)

lemma left_or_mono: "left_or g x y \<Longrightarrow> (\<And>z. g z \<Longrightarrow> g' z) \<Longrightarrow> left_or g' x y"
  by (auto simp: left_or_def)

definition remembers :: "L7 \<Rightarrow> L7 \<Rightarrow> lb_view \<Rightarrow> bool" where
  "remembers l0 l v \<longleftrightarrow>
     left_or (\<lambda>f. v_fw v (fr_Name f) = None) (l7_fw l0) (l7_fw l) \<and>
     left_or (\<lambda>f. v_fw v (fr_Name f) = None) (l7_fws l0) (l7_fws l) \<and>
     left_or (\<lambda>a. v_ip v (addr_Name a) = None) (l7_ip l0) (l7_ip l) \<and>
     left_or (\<lambda>p. v_tps v (tps_Name p) = None) (l7_tps l0) (l7_tps l) \<and>
     left_or (\<lambda>c. v_cert v (cert_Name c) = None) (l7_sslCert l0) (l7_sslCert l) \<and>
     left_or (\<lambda>p. v_tp v (tp_Name p) = None) (l7_tp l0) (l7_tp l) \<and>
     left_or (\<lambda>u. v_um v (um_Name u) = None) (l7_um l0) (l7_um l)"

text \<open>A resource goes only after the ones that refer to it.\<close>

definition in_order :: "L7 \<Rightarrow> lb_view \<Rightarrow> lb_view \<Rightarrow> bool" where
  "in_order l v0 v \<longleftrightarrow>
     (v_tp v \<noteq> v_tp v0 \<or> v_tps v \<noteq> v_tps v0 \<longrightarrow> l7_fw l = None \<and> l7_fws l = None) \<and>
     (v_cert v \<noteq> v_cert v0 \<longrightarrow> l7_tps l = None \<and> ri_TLSName (l7_runtimeInfo l) = []) \<and>
     (v_um v \<noteq> v_um v0 \<longrightarrow> l7_fw l = None \<and> l7_fws l = None \<and> l7_tp l = None \<and> l7_tps l = None)"

definition held :: "L7 \<Rightarrow> (kind \<times> string) set" where
  "held l = Pair FW ` fr_Name ` (set_option (l7_fw l) \<union> set_option (l7_fws l)) \<union>
     Pair IP ` addr_Name ` set_option (l7_ip l) \<union> Pair TPS ` tps_Name ` set_option (l7_tps l) \<union>
     Pair CERT ` cert_Name ` set_option (own_cert l) \<union> Pair TP ` tp_Name ` set_option (l7_tp l) \<union>
     Pair UM ` um_Name ` set_option (l7_um l)"

text \<open>The resources that exist. What a load balancer held and still exists, it still holds.\<close>

definition live :: "lb_view \<Rightarrow> (kind \<times> string) set" where
  "live v = {(k, n). case k of FW \<Rightarrow> v_fw v n \<noteq> None | UM \<Rightarrow> v_um v n \<noteq> None | TP \<Rightarrow> v_tp v n \<noteq> None
     | TPS \<Rightarrow> v_tps v n \<noteq> None | CERT \<Rightarrow> v_cert v n \<noteq> None | IP \<Rightarrow> v_ip v n \<noteq> None}"

lemma in_live [simp]:
  "(FW, n) \<in> live v \<longleftrightarrow> v_fw v n \<noteq> None" "(UM, n) \<in> live v \<longleftrightarrow> v_um v n \<noteq> None"
  "(TP, n) \<in> live v \<longleftrightarrow> v_tp v n \<noteq> None" "(TPS, n) \<in> live v \<longleftrightarrow> v_tps v n \<noteq> None"
  "(CERT, n) \<in> live v \<longleftrightarrow> v_cert v n \<noteq> None" "(IP, n) \<in> live v \<longleftrightarrow> v_ip v n \<noteq> None"
  by (simp_all add: live_def)

lemma live_mono:
  assumes "\<And>n. v_fw v n = None \<Longrightarrow> v_fw v' n = None" "\<And>n. v_um v n = None \<Longrightarrow> v_um v' n = None"
    and "\<And>n. v_tp v n = None \<Longrightarrow> v_tp v' n = None" "\<And>n. v_tps v n = None \<Longrightarrow> v_tps v' n = None"
    and "\<And>n. v_cert v n = None \<Longrightarrow> v_cert v' n = None" "\<And>n. v_ip v n = None \<Longrightarrow> v_ip v' n = None"
  shows "live v' \<subseteq> live v"
proof
  fix x assume "x \<in> live v'"
  moreover obtain k n where "x = (k, n)" by fastforce
  ultimately show "x \<in> live v" using assms by (cases k) fastforce+
qed

lemma live_put:
  assumes "live v \<subseteq> L"
  shows "a = None \<or> a = v_fw v n \<Longrightarrow> live (put_fw n a v) \<subseteq> L" "b = None \<or> b = v_um v n \<Longrightarrow> live (put_um n b v) \<subseteq> L"
    "c = None \<or> c = v_tp v n \<Longrightarrow> live (put_tp n c v) \<subseteq> L" "d = None \<or> d = v_tps v n \<Longrightarrow> live (put_tps n d v) \<subseteq> L"
    "f = None \<or> f = v_cert v n \<Longrightarrow> live (put_cert n f v) \<subseteq> L" "g = None \<or> g = v_ip v n \<Longrightarrow> live (put_ip n g v) \<subseteq> L"
  by (rule subset_trans [OF live_mono assms]; auto)+

lemma in_held:
  "(FW, n) \<in> held l \<longleftrightarrow> (\<exists>f. (l7_fw l = Some f \<or> l7_fws l = Some f) \<and> fr_Name f = n)"
  "(UM, n) \<in> held l \<longleftrightarrow> (\<exists>u. l7_um l = Some u \<and> um_Name u = n)"
  "(TP, n) \<in> held l \<longleftrightarrow> (\<exists>p. l7_tp l = Some p \<and> tp_Name p = n)"
  "(TPS, n) \<in> held l \<longleftrightarrow> (\<exists>p. l7_tps l = Some p \<and> tps_Name p = n)"
  "(CERT, n) \<in> held l \<longleftrightarrow> (\<exists>c. own_cert l = Some c \<and> cert_Name c = n)"
  "(IP, n) \<in> held l \<longleftrightarrow> (\<exists>a. l7_ip l = Some a \<and> addr_Name a = n)"
  unfolding held_def by (auto simp: image_iff)

lemma left_or_live: "left_or (\<lambda>y. look (nm y) = None) before after \<Longrightarrow> before = Some x \<Longrightarrow> look (nm x) = Some z \<Longrightarrow> after = Some x"
  by (auto simp: left_or_def)

lemma remembers_live:
  assumes "remembers l0 l v" "l7_runtimeInfo l = l7_runtimeInfo l0"
  shows "held l0 \<inter> live v \<subseteq> held l"
proof
  fix x assume "x \<in> held l0 \<inter> live v"
  moreover obtain k n where "x = (k, n)" by fastforce
  ultimately have x: "(k, n) \<in> held l0" "(k, n) \<in> live v" "x = (k, n)" by simp_all
  note keep = assms(1) [unfolded remembers_def]
  show "x \<in> held l"
  proof (cases k)
    case FW
    with x keep show ?thesis by (auto simp: in_held dest: left_or_live)
  next
    case UM
    with x keep show ?thesis by (auto simp: in_held dest: left_or_live)
  next
    case TP
    with x keep show ?thesis by (auto simp: in_held dest: left_or_live)
  next
    case TPS
    with x keep show ?thesis by (auto simp: in_held dest: left_or_live)
  next
    case CERT
    with x keep assms(2) show ?thesis by (auto simp: in_held own_cert_def dest: left_or_live split: if_splits)
  next
    case IP
    with x keep show ?thesis by (auto simp: in_held dest: left_or_live)
  qed
qed

lemma remembers_mono:
  assumes "remembers l0 l v"
    and "\<And>n. v_fw v n = None \<Longrightarrow> v_fw v' n = None" "\<And>n. v_ip v n = None \<Longrightarrow> v_ip v' n = None"
    and "\<And>n. v_tps v n = None \<Longrightarrow> v_tps v' n = None" "\<And>n. v_cert v n = None \<Longrightarrow> v_cert v' n = None"
    and "\<And>n. v_tp v n = None \<Longrightarrow> v_tp v' n = None" "\<And>n. v_um v n = None \<Longrightarrow> v_um v' n = None"
  shows "remembers l0 l v'"
  using assms(1) unfolding remembers_def by - (elim conjE, (intro conjI; erule left_or_mono; simp add: assms(2-)))

lemma remembers_put:
  assumes "remembers l0 l v"
  shows
    "yfw = None \<or> yfw = v_fw v n \<Longrightarrow> remembers l0 l (put_fw n yfw v)"
    "yip = None \<or> yip = v_ip v n \<Longrightarrow> remembers l0 l (put_ip n yip v)"
    "ytps = None \<or> ytps = v_tps v n \<Longrightarrow> remembers l0 l (put_tps n ytps v)"
    "ycert = None \<or> ycert = v_cert v n \<Longrightarrow> remembers l0 l (put_cert n ycert v)"
    "ytp = None \<or> ytp = v_tp v n \<Longrightarrow> remembers l0 l (put_tp n ytp v)"
    "yum = None \<or> yum = v_um v n \<Longrightarrow> remembers l0 l (put_um n yum v)"
  by (rule remembers_mono [OF assms]; auto)+

lemma remembers_clear:
  assumes "remembers l0 l v"
  shows
    "l7_fw l = Some xfw \<Longrightarrow> v_fw v (fr_Name xfw) = None \<Longrightarrow> remembers l0 (l\<lparr>l7_fw := None\<rparr>) v"
    "l7_fws l = Some xfws \<Longrightarrow> v_fw v (fr_Name xfws) = None \<Longrightarrow> remembers l0 (l\<lparr>l7_fws := None\<rparr>) v"
    "l7_ip l = Some xip \<Longrightarrow> v_ip v (addr_Name xip) = None \<Longrightarrow> remembers l0 (l\<lparr>l7_ip := None\<rparr>) v"
    "l7_tps l = Some xtps \<Longrightarrow> v_tps v (tps_Name xtps) = None \<Longrightarrow> remembers l0 (l\<lparr>l7_tps := None\<rparr>) v"
    "l7_sslCert l = Some xsslCert \<Longrightarrow> v_cert v (cert_Name xsslCert) = None \<Longrightarrow> remembers l0 (l\<lparr>l7_sslCert := None\<rparr>) v"
    "l7_tp l = Some xtp \<Longrightarrow> v_tp v (tp_Name xtp) = None \<Longrightarrow> remembers l0 (l\<lparr>l7_tp := None\<rparr>) v"
    "l7_um l = Some xum \<Longrightarrow> v_um v (um_Name xum) = None \<Longrightarrow> remembers l0 (l\<lparr>l7_um := None\<rparr>) v"
  using assms by (simp_all add: remembers_def) (elim conjE, erule left_or_clear, assumption)+

lemma remembers_held:
  assumes "remembers l0 l v"
  shows
    "l7_fw l = Some xfw \<Longrightarrow> (FW, fr_Name xfw) \<in> held l0"
    "l7_fws l = Some xfws \<Longrightarrow> (FW, fr_Name xfws) \<in> held l0"
    "l7_ip l = Some xip \<Longrightarrow> (IP, addr_Name xip) \<in> held l0"
    "l7_tps l = Some xtps \<Longrightarrow> (TPS, tps_Name xtps) \<in> held l0"
    "own_cert l = Some xc \<Longrightarrow> l7_runtimeInfo l = l7_runtimeInfo l0 \<Longrightarrow> (CERT, cert_Name xc) \<in> held l0"
    "l7_tp l = Some xtp \<Longrightarrow> (TP, tp_Name xtp) \<in> held l0"
    "l7_um l = Some xum \<Longrightarrow> (UM, um_Name xum) \<in> held l0"
  using assms by (simp_all add: remembers_def own_cert_def split: if_splits)
    ((elim conjE)?, drule left_or_Some, simp add: held_def own_cert_def)+

lemma remembers_subset:
  assumes "remembers l0 l v" "l7_runtimeInfo l = l7_runtimeInfo l0"
  shows "held l \<subseteq> held l0"
proof
  fix x assume x: "x \<in> held l"
  obtain k n where "x = (k, n)" by fastforce
  with x remembers_held [OF assms(1)] assms(2) show "x \<in> held l0"
    by (cases k) (auto simp: in_held(2-) in_held(1) [of n l])
qed

lemma in_order_put:
  assumes "in_order l v0 v"
  shows "in_order l v0 (put_fw n a v)" "in_order l v0 (put_ip n b v)"
    "l7_fw l = None \<Longrightarrow> l7_fws l = None \<Longrightarrow> in_order l v0 (put_tps n c v)"
    "l7_fw l = None \<Longrightarrow> l7_fws l = None \<Longrightarrow> in_order l v0 (put_tp n d v)"
    "l7_tps l = None \<Longrightarrow> ri_TLSName (l7_runtimeInfo l) = [] \<Longrightarrow> in_order l v0 (put_cert n f v)"
    "l7_fw l = None \<Longrightarrow> l7_fws l = None \<Longrightarrow> l7_tp l = None \<Longrightarrow> l7_tps l = None \<Longrightarrow> in_order l v0 (put_um n g v)"
  using assms by (simp_all add: in_order_def)

lemma in_order_clear:
  assumes "in_order l v0 v"
  shows "in_order (l\<lparr>l7_fw := None\<rparr>) v0 v" "in_order (l\<lparr>l7_fws := None\<rparr>) v0 v" "in_order (l\<lparr>l7_ip := None\<rparr>) v0 v"
    "in_order (l\<lparr>l7_tps := None\<rparr>) v0 v" "in_order (l\<lparr>l7_sslCert := None\<rparr>) v0 v" "in_order (l\<lparr>l7_tp := None\<rparr>) v0 v"
    "in_order (l\<lparr>l7_um := None\<rparr>) v0 v"
  using assms by (simp_all add: in_order_def)

lemma own_cert_upd [simp]:
  "own_cert (l\<lparr>l7_tp := a\<rparr>) = own_cert l" "own_cert (l\<lparr>l7_um := b\<rparr>) = own_cert l"
  "own_cert (l\<lparr>l7_sslCert := None\<rparr>) = None"
  by (simp_all add: own_cert_def)

lemma own_cert_SomeD: "own_cert l = Some c \<Longrightarrow> l7_sslCert l = Some c \<and> ri_TLSName (l7_runtimeInfo l) = []"
  by (simp add: own_cert_def split: if_splits)

context l7_over
begin

definition cleaning :: "'c L7_state \<Rightarrow> 'c L7_state \<Rightarrow> bool" where
  "cleaning s0 s \<longleftrightarrow> keeps (lst_l7 s0) (lst_l7 s) \<and> remembers (lst_l7 s0) (lst_l7 s) (lv s) \<and>
     in_order (lst_l7 s) (lv s0) (lv s) \<and> frame (held (lst_l7 s0)) (lv s0) (lv s) \<and> live (lv s) \<subseteq> live (lv s0)"

text \<open>One step: nothing, or a delete of the resource that the field holds.\<close>

lemma wp_cleanup_one:
  assumes del: "\<And>c n. wp (del (l7_cloud e) n) (\<lambda>r c'. \<exists>x. (view c' = put n x (view c) \<and> (x = None \<or> x = look (view c) n)) \<and>
          (gone r \<longrightarrow> x = None)) c"
    and none: "field (lst_l7 s) = None \<Longrightarrow> P s"
    and ok: "\<And>x c'. field (lst_l7 s) = Some x \<Longrightarrow> view c' = put (name x) None (lv s) \<Longrightarrow>
        P (s\<lparr>lst_cloud := c', lst_l7 := clear (lst_l7 s)\<rparr>)"
    and inv: "\<And>x y c'. field (lst_l7 s) = Some x \<Longrightarrow> view c' = put (name x) y (lv s) \<Longrightarrow>
        y = None \<or> y = look (lv s) (name x) \<Longrightarrow> I (s\<lparr>lst_cloud := c'\<rparr>)"
    and weak: "\<And>s. P s \<Longrightarrow> I s"
  shows "wp (cleanup_one e field name del clear) (\<lambda>r s'. I s' \<and> (\<forall>a. r = Ok a \<longrightarrow> P s')) s"
proof (cases "field (lst_l7 s)")
  case None
  with none weak show ?thesis by (simp add: cleanup_one_def wp_simps)
next
  case (Some x)
  show ?thesis
    unfolding cleanup_one_def wp_bind wp_read_state on_ok_simps Some option.case
  proof (rule wp_ignoring_on_lb [OF del], goal_cases)
    case (1 c')
    with ok [OF Some, of c'] weak show ?case by (simp add: wp_simps)
  qed (use inv [OF Some] in simp_all)
qed

lemmas cleaning_rules = live_put remembers_put remembers_clear remembers_held in_order_put in_order_clear

abbreviation no_rules :: "'c L7_state \<Rightarrow> bool" where
  "no_rules s \<equiv> l7_fw (lst_l7 s) = None \<and> l7_fws (lst_l7 s) = None"

abbreviation no_https :: "'c L7_state \<Rightarrow> bool" where
  "no_https s \<equiv> no_rules s \<and> l7_ip (lst_l7 s) = None \<and> l7_tps (lst_l7 s) = None"

lemma wp_clean_fw:
  assumes "cleaning s0 s"
  shows "wp (cleanup_one e l7_fw fr_Name DeleteGlobalForwardingRule (\<lambda>l. l\<lparr>l7_fw := None\<rparr>))
     (\<lambda>r s'. cleaning s0 s' \<and> (\<forall>a. r = Ok a \<longrightarrow> cleaning s0 s' \<and> l7_fw (lst_l7 s') = None)) s"
  by (rule wp_cleanup_one [where put = "\<lambda>n x v. put_fw n x v" and look = v_fw], rule delete_fw) (use assms in \<open>auto simp: cleaning_def keeps_def cleaning_rules\<close>)

lemma wp_clean_fws:
  assumes "cleaning s0 s \<and> l7_fw (lst_l7 s) = None"
  shows "wp (cleanup_one e l7_fws fr_Name DeleteGlobalForwardingRule (\<lambda>l. l\<lparr>l7_fws := None\<rparr>))
     (\<lambda>r s'. cleaning s0 s' \<and> (\<forall>a. r = Ok a \<longrightarrow> cleaning s0 s' \<and> no_rules s')) s"
  by (rule wp_cleanup_one [where put = "\<lambda>n x v. put_fw n x v" and look = v_fw], rule delete_fw) (use assms in \<open>auto simp: cleaning_def keeps_def cleaning_rules\<close>)

lemma wp_clean_ip:
  assumes "cleaning s0 s \<and> no_rules s"
  shows "wp (cleanup_one e l7_ip addr_Name DeleteGlobalAddress (\<lambda>l. l\<lparr>l7_ip := None\<rparr>))
     (\<lambda>r s'. cleaning s0 s' \<and> (\<forall>a. r = Ok a \<longrightarrow> cleaning s0 s' \<and> no_rules s' \<and> l7_ip (lst_l7 s') = None)) s"
  by (rule wp_cleanup_one [where put = "\<lambda>n x v. put_ip n x v" and look = v_ip], rule delete_ip) (use assms in \<open>auto simp: cleaning_def keeps_def cleaning_rules\<close>)

lemma wp_clean_tps:
  assumes "cleaning s0 s \<and> no_rules s \<and> l7_ip (lst_l7 s) = None"
  shows "wp (cleanup_one e l7_tps tps_Name DeleteTargetHttpsProxy (\<lambda>l. l\<lparr>l7_tps := None\<rparr>))
     (\<lambda>r s'. cleaning s0 s' \<and> (\<forall>a. r = Ok a \<longrightarrow> cleaning s0 s' \<and> no_https s')) s"
  by (rule wp_cleanup_one [where put = "\<lambda>n x v. put_tps n x v" and look = v_tps], rule delete_tps) (use assms in \<open>auto simp: cleaning_def keeps_def cleaning_rules\<close>)

lemma wp_clean_cert:
  assumes "cleaning s0 s \<and> no_https s"
  shows "wp (cleanup_one e own_cert cert_Name DeleteSslCertificate (\<lambda>l. l\<lparr>l7_sslCert := None\<rparr>))
     (\<lambda>r s'. cleaning s0 s' \<and> (\<forall>a. r = Ok a \<longrightarrow> cleaning s0 s' \<and> no_https s' \<and> own_cert (lst_l7 s') = None)) s"
  by (rule wp_cleanup_one [where put = "\<lambda>n x v. put_cert n x v" and look = v_cert], rule delete_cert) (use assms in \<open>auto simp: cleaning_def keeps_def cleaning_rules dest: own_cert_SomeD\<close>)

lemma wp_clean_tp:
  assumes "cleaning s0 s \<and> no_https s \<and> own_cert (lst_l7 s) = None"
  shows "wp (cleanup_one e l7_tp tp_Name DeleteTargetHttpProxy (\<lambda>l. l\<lparr>l7_tp := None\<rparr>))
     (\<lambda>r s'. cleaning s0 s' \<and> (\<forall>a. r = Ok a \<longrightarrow> cleaning s0 s' \<and> no_https s' \<and> own_cert (lst_l7 s') = None \<and>
        l7_tp (lst_l7 s') = None)) s"
  by (rule wp_cleanup_one [where put = "\<lambda>n x v. put_tp n x v" and look = v_tp], rule delete_tp) (use assms in \<open>auto simp: cleaning_def keeps_def cleaning_rules\<close>)

lemma wp_clean_um:
  assumes "cleaning s0 s \<and> no_https s \<and> own_cert (lst_l7 s) = None \<and> l7_tp (lst_l7 s) = None"
  shows "wp (cleanup_one e l7_um um_Name DeleteUrlMap (\<lambda>l. l\<lparr>l7_um := None\<rparr>))
     (\<lambda>r s'. cleaning s0 s' \<and> (\<forall>a. r = Ok a \<longrightarrow> cleaning s0 s' \<and> no_https s' \<and> own_cert (lst_l7 s') = None \<and>
        l7_tp (lst_l7 s') = None \<and> l7_um (lst_l7 s') = None)) s"
  by (rule wp_cleanup_one [where put = "\<lambda>n x v. put_um n x v" and look = v_um], rule delete_um) (use assms in \<open>auto simp: cleaning_def keeps_def cleaning_rules\<close>)

lemma wp_Cleanup:
  "wp (Cleanup e) (\<lambda>r s'. cleaning s s' \<and> (\<forall>a. r = Ok a \<longrightarrow> cleaning s s' \<and> no_https s' \<and> own_cert (lst_l7 s') = None \<and>
      l7_tp (lst_l7 s') = None \<and> l7_um (lst_l7 s') = None)) s"
proof -
  have "cleaning s s" by (simp add: cleaning_def remembers_def in_order_def keeps_def)
  then show ?thesis
    unfolding Cleanup_def
    by (intro wp_seq_inv [OF wp_clean_fw] wp_seq_inv [OF wp_clean_fws] wp_seq_inv [OF wp_clean_ip]
        wp_seq_inv [OF wp_clean_tps] wp_seq_inv [OF wp_clean_cert] wp_seq_inv [OF wp_clean_tp] wp_clean_um)
qed

end

section \<open>Properties\<close>


definition example_env :: "FakeLoadBalancers L7_env" where
  "example_env = \<lparr>l7_cloud = fakeLoadBalancers, l7_namer = NewNamer ''uid1'' []\<rparr>"

interpretation example_lb: l7_over example_env flb_view
  unfolding l7_over_def example_env_def L7_env.select_convs by (rule fake_lb.lb_cloud_axioms)

definition example_l7 :: L7 where
  "example_l7 =
     \<lparr>l7_Name = ''ns-web'', l7_runtimeInfo = \<lparr>ri_Name = ''ns/web'', ri_IP = [],
        ri_TLS = Some \<lparr>tls_Key = ''key'', tls_Cert = ''cert'', tls_Chain = []\<rparr>, ri_TLSName = [], ri_AllowHTTP = True,
        ri_StaticIPName = []\<rparr>,
      l7_um = None, l7_tp = None, l7_tps = None, l7_fw = None, l7_fws = None, l7_ip = None, l7_sslCert = None,
      l7_oldSSLCert = None, l7_glbcDefaultBackend = Some \<lparr>be_Name = ''be'', be_SelfLink = ''be'', be_Description = [],
        be_Protocol = ''HTTP'', be_HealthChecks = [], be_Port = 80, be_PortName = [], be_Backends = []\<rparr>\<rparr>"

definition example_start :: "FakeLoadBalancers L7_state" where
  "example_start = \<lparr>lst_l7 = example_l7, lst_cloud = NewFakeLoadBalancers ''web''\<rparr>"



definition example_up :: "FakeLoadBalancers L7_state" where
  "example_up = snd (edgeHop example_env example_start)"


end
