(* ===== verification/Lb_Url_Map.thy ===== *)
theory Lb_Url_Map
  imports Lb_Cleanup
begin

text \<open>
  The url map of a load balancer (\<open>UpdateUrlMap\<close>, \<open>mapsEqual\<close> and \<open>getBackendNames\<close> of
  \<open>pkg/loadbalancers/loadbalancers.go\<close>): the hosts and paths of an Ingress become host rules, path matchers
  and path rules. The abstract routing of an Ingress is a function of host and path; the url map refines it.
  The orders in which Go ranges over the map of hosts and the maps of paths are parameters.
\<close>

section \<open>The comparison of url maps\<close>

text \<open>\<open>for i := range a\<close> over indices; the callers compare the lengths first.\<close>

definition all_indices :: "'a list \<Rightarrow> (nat \<Rightarrow> bool) \<Rightarrow> bool" where
  "all_indices xs P = list_all P [0..<length xs]"

definition same_strings :: "string list \<Rightarrow> string list \<Rightarrow> bool" where
  "same_strings a b \<longleftrightarrow> length a = length b \<and> all_indices a (\<lambda>i. a ! i = b ! i)"

definition same_host_rule :: "HostRule \<Rightarrow> HostRule \<Rightarrow> bool" where
  "same_host_rule a b \<longleftrightarrow> hr_Description a = hr_Description b \<and> same_strings (hr_Hosts a) (hr_Hosts b) \<and>
     hr_PathMatcher a = hr_PathMatcher b"

definition same_path_rule :: "PathRule \<Rightarrow> PathRule \<Rightarrow> bool" where
  "same_path_rule a b \<longleftrightarrow> same_strings (pr_Paths a) (pr_Paths b) \<and> pr_Service a = pr_Service b"

definition same_path_matcher :: "PathMatcher \<Rightarrow> PathMatcher \<Rightarrow> bool" where
  "same_path_matcher a b \<longleftrightarrow> pm_DefaultService a = pm_DefaultService b \<and> pm_Description a = pm_Description b \<and>
     pm_Name a = pm_Name b \<and> length (pm_PathRules a) = length (pm_PathRules b) \<and>
     all_indices (pm_PathRules a) (\<lambda>i. same_path_rule (pm_PathRules a ! i) (pm_PathRules b ! i))"

definition mapsEqual :: "UrlMap \<Rightarrow> UrlMap \<Rightarrow> bool" where
  "mapsEqual a b \<longleftrightarrow> um_DefaultService a = um_DefaultService b \<and>
     length (um_HostRules a) = length (um_HostRules b) \<and>
     all_indices (um_HostRules a) (\<lambda>i. same_host_rule (um_HostRules a ! i) (um_HostRules b ! i)) \<and>
     length (um_PathMatchers a) = length (um_PathMatchers b) \<and>
     all_indices (um_PathMatchers a) (\<lambda>i. same_path_matcher (um_PathMatchers a ! i) (um_PathMatchers b ! i))"

section \<open>Updating the url map\<close>

definition hostRulePrefix :: string where "hostRulePrefix = ''host''"

definition getNameForPathMatcher :: "string \<Rightarrow> string" where
  "getNameForPathMatcher hostRule = hostRulePrefix @ hex_of_bytes (md5_Sum hostRule)"

definition set_um :: "(UrlMap \<Rightarrow> UrlMap) \<Rightarrow> ('c L7_state, unit) go" where
  "set_um f = l7_set (\<lambda>l. l\<lparr>l7_um := map_option f (l7_um l)\<rparr>)"

text \<open>A nil backend of a path is dereferenced.\<close>

definition path_rule :: "(string, BackendService option) gomap \<Rightarrow> string \<Rightarrow> ('s, PathRule) go" where
  "path_rule urlToBackend expr =
     (case fmlookup urlToBackend expr of
        Some (Some be) \<Rightarrow> ret \<lparr>pr_Paths = [expr], pr_Service = be_SelfLink be\<rparr>
      | _ \<Rightarrow> panic ''nil pointer dereference'')"

definition add_host ::
  "(string set \<Rightarrow> string list) \<Rightarrow> GCEURLMap \<Rightarrow> string \<Rightarrow> string \<Rightarrow> ('c L7_state, unit) go" where
  "add_host rng ingressRules defaultService hostname =
     (let pmName = getNameForPathMatcher hostname;
          urlToBackend = (case fmlookup ingressRules hostname of Some m \<Rightarrow> m | None \<Rightarrow> fmempty)
      in bind (set_um (\<lambda>um. um\<lparr>um_HostRules := um_HostRules um @
                 [\<lparr>hr_Description = [], hr_Hosts = [hostname], hr_PathMatcher = pmName\<rparr>]\<rparr>))
           (\<lambda>_. bind (map_each (path_rule urlToBackend) (rng (keys urlToBackend)))
              (\<lambda>rules. set_um (\<lambda>um. um\<lparr>um_PathMatchers := um_PathMatchers um @
                 [\<lparr>pm_Name = pmName, pm_Description = [], pm_DefaultService = defaultService, pm_PathRules = rules\<rparr>]\<rparr>))))"

text \<open>The default of the Ingress, or else the controller's, whose backend must be there.\<close>

definition default_link :: "BackendService option \<Rightarrow> BackendService option \<Rightarrow> string outcome" where
  "default_link ingress glbc =
     (case ingress of
        Some be \<Rightarrow> Ok (be_SelfLink be)
      | None \<Rightarrow> (case glbc of Some be \<Rightarrow> Ok (be_SelfLink be) | None \<Rightarrow> Panics ''nil pointer dereference''))"

definition push_url_map :: "'c L7_env \<Rightarrow> ('c L7_state, unit) go" where
  "push_url_map e =
     bind (l7_get l7_um)
       (\<lambda>urlMap. case urlMap of
          None \<Rightarrow> panic ''nil pointer dereference''
        | Some um \<Rightarrow>
            bind (on_lb (found (GetUrlMap (l7_cloud e) (um_Name um))))
              (\<lambda>oldMap.
                 if (case oldMap of Some old \<Rightarrow> mapsEqual old um | None \<Rightarrow> False) then ret ()
                 else bind (on_lb (cloud_UpdateUrlMap (l7_cloud e) um))
                   (\<lambda>_. bind (on_lb (GetUrlMap (l7_cloud e) (um_Name um)))
                      (\<lambda>um. l7_set (\<lambda>l. l\<lparr>l7_um := um\<rparr>)))))"

definition UpdateUrlMap ::
  "'c L7_env \<Rightarrow> (string set \<Rightarrow> string list) \<Rightarrow> GCEURLMap \<Rightarrow> ('c L7_state, unit) go" where
  "UpdateUrlMap e rng ingressRules =
     bind (l7_get (\<lambda>l. (l7_um l, l7_glbcDefaultBackend l)))
       (\<lambda>(urlMap, glbc). case urlMap of
          None \<Rightarrow> fail (Errorf ''cannot add url without an urlmap'' [])
        | Some _ \<Rightarrow>
            let (defaultBackend, rules) = GetDefaultBackend ingressRules
            in bind (lift_outcome (default_link defaultBackend glbc))
              (\<lambda>defaultService.
                 bind (set_um (\<lambda>um. um\<lparr>um_DefaultService := defaultService, um_HostRules := [], um_PathMatchers := []\<rparr>))
                   (\<lambda>_. bind (for_each (add_host rng rules defaultService) (rng (keys rules)))
                      (\<lambda>_. push_url_map e))))"

section \<open>The backends of a url map\<close>

definition getBackendNames :: "L7 \<Rightarrow> string list" where
  "getBackendNames l =
     (case l7_um l of
        None \<Rightarrow> []
      | Some um \<Rightarrow>
          let link_name = (\<lambda>link. let parts = Split link ''/'' in parts ! (length parts - 1));
              names = map (\<lambda>r. link_name (pr_Service r)) (concat (map pm_PathRules (um_PathMatchers um)))
                      @ [link_name (um_DefaultService um)]
          in set_List (set (filter (\<lambda>n. n \<noteq> []) names)))"

section \<open>Equal url maps\<close>

lemma all_indices_eq:
  assumes "\<And>x y. same x y \<longleftrightarrow> x = y"
  shows "length a = length b \<and> all_indices a (\<lambda>i. same (a ! i) (b ! i)) \<longleftrightarrow> a = b"
  unfolding all_indices_def list_eq_iff_nth_eq assms list_all_iff by (simp add: Ball_def)

lemma same_strings_eq: "same_strings a b \<longleftrightarrow> a = b"
  unfolding same_strings_def by (rule all_indices_eq) simp

lemma same_host_rule_eq: "same_host_rule a b \<longleftrightarrow> a = b"
  by (cases a; cases b) (auto simp: same_host_rule_def same_strings_eq)

lemma same_path_rule_eq: "same_path_rule a b \<longleftrightarrow> a = b"
  by (cases a; cases b) (auto simp: same_path_rule_def same_strings_eq)

lemma same_path_matcher_eq: "same_path_matcher a b \<longleftrightarrow> a = b"
  using all_indices_eq [of same_path_rule "pm_PathRules a" "pm_PathRules b", OF same_path_rule_eq]
  by (cases a; cases b) (auto simp: same_path_matcher_def)

lemma mapsEqual_eq:
  "mapsEqual a b \<longleftrightarrow> um_DefaultService a = um_DefaultService b \<and> um_HostRules a = um_HostRules b \<and>
     um_PathMatchers a = um_PathMatchers b"
  unfolding mapsEqual_def
  using all_indices_eq [of same_host_rule "um_HostRules a" "um_HostRules b", OF same_host_rule_eq]
    all_indices_eq [of same_path_matcher "um_PathMatchers a" "um_PathMatchers b", OF same_path_matcher_eq]
  by blast

section \<open>Routing\<close>

text \<open>How the cloud routes a host and a path, and how the Ingress asks for it.\<close>

definition matcher_for :: "UrlMap \<Rightarrow> string \<Rightarrow> PathMatcher option" where
  "matcher_for um host =
     (case find (\<lambda>r. host \<in> set (hr_Hosts r)) (um_HostRules um) of
        None \<Rightarrow> None
      | Some r \<Rightarrow> find (\<lambda>m. pm_Name m = hr_PathMatcher r) (um_PathMatchers um))"

definition route :: "UrlMap \<Rightarrow> string \<Rightarrow> string \<Rightarrow> string" where
  "route um host path =
     (case matcher_for um host of
        None \<Rightarrow> um_DefaultService um
      | Some m \<Rightarrow>
          (case find (\<lambda>r. path \<in> set (pr_Paths r)) (pm_PathRules m) of
             None \<Rightarrow> pm_DefaultService m
           | Some r \<Rightarrow> pr_Service r))"

definition wanted_route :: "GCEURLMap \<Rightarrow> string \<Rightarrow> string \<Rightarrow> string \<Rightarrow> string" where
  "wanted_route rules dflt host path =
     (case fmlookup rules host of
        None \<Rightarrow> dflt
      | Some paths \<Rightarrow>
          (case fmlookup paths path of Some (Some be) \<Rightarrow> be_SelfLink be | _ \<Rightarrow> dflt))"


text \<open>The url map that the loops build, as a function of the hosts.\<close>

definition paths_of :: "GCEURLMap \<Rightarrow> string \<Rightarrow> (string, BackendService option) gomap" where
  "paths_of rules host = (case fmlookup rules host of Some m \<Rightarrow> m | None \<Rightarrow> fmempty)"

definition host_rule :: "string \<Rightarrow> HostRule" where
  "host_rule host = \<lparr>hr_Description = [], hr_Hosts = [host], hr_PathMatcher = getNameForPathMatcher host\<rparr>"

definition rule_to :: "GCEURLMap \<Rightarrow> string \<Rightarrow> string \<Rightarrow> PathRule" where
  "rule_to rules host path =
     \<lparr>pr_Paths = [path], pr_Service = be_SelfLink (the (the (fmlookup (paths_of rules host) path)))\<rparr>"

definition matcher :: "(string set \<Rightarrow> string list) \<Rightarrow> GCEURLMap \<Rightarrow> string \<Rightarrow> string \<Rightarrow> PathMatcher" where
  "matcher rng rules dflt host =
     \<lparr>pm_Name = getNameForPathMatcher host, pm_Description = [], pm_DefaultService = dflt,
      pm_PathRules = map (rule_to rules host) (rng (keys (paths_of rules host)))\<rparr>"

definition with_hosts :: "(string set \<Rightarrow> string list) \<Rightarrow> GCEURLMap \<Rightarrow> string \<Rightarrow> string list \<Rightarrow> UrlMap \<Rightarrow> UrlMap" where
  "with_hosts rng rules dflt hosts um =
     um\<lparr>um_HostRules := um_HostRules um @ map host_rule hosts,
        um_PathMatchers := um_PathMatchers um @ map (matcher rng rules dflt) hosts\<rparr>"

definition no_nil_backend :: "GCEURLMap \<Rightarrow> bool" where
  "no_nil_backend rules \<longleftrightarrow> (\<forall>host m. fmlookup rules host = Some m \<longrightarrow> (\<forall>path. fmlookup m path \<noteq> Some None))"

lemma no_nil_paths: "no_nil_backend rules \<Longrightarrow> fmlookup (paths_of rules host) path \<noteq> Some None"
  by (auto simp: no_nil_backend_def paths_of_def split: option.split)

lemma map_each_ret: "(\<And>x. x \<in> set xs \<Longrightarrow> f x = ret (g x)) \<Longrightarrow> map_each f xs = ret (map g xs)"
  by (induction xs) (simp_all add: bind_def ret_def fun_eq_iff)

lemma find_map: "find P (map f xs) = map_option f (find (P \<circ> f) xs)"
  by (induction xs) simp_all

lemma find_eq: "find (\<lambda>x. y = x) xs = (if y \<in> set xs then Some y else None)"
  by (induction xs) auto

context map_range
begin

lemma find_range: "find (\<lambda>x. y = x) (rng (keys m)) = (if y \<in> keys m then Some y else None)"
  by (simp add: find_eq)

end

lemma path_rules:
  assumes "string_range rng" "no_nil_backend rules"
  shows "map_each (path_rule (paths_of rules host)) (rng (keys (paths_of rules host))) =
     ret (map (rule_to rules host) (rng (keys (paths_of rules host))))"
proof (rule map_each_ret)
  fix path assume "path \<in> set (rng (keys (paths_of rules host)))"
  then have "path \<in> keys (paths_of rules host)" using assms(1) by (simp add: string_range_def map_range.set_rng_keys)
  then obtain b where "fmlookup (paths_of rules host) path = Some b" by (auto simp: in_keys_iff)
  moreover with no_nil_paths [OF assms(2)] obtain be where "b = Some be" by (metis option.exhaust)
  ultimately show "path_rule (paths_of rules host) path = ret (rule_to rules host path)"
    by (simp add: path_rule_def rule_to_def)
qed

lemma wp_add_hosts:
  assumes "string_range rng" "no_nil_backend rules"
  shows "wp (for_each (add_host rng rules dflt) hosts) (\<lambda>r s'. r = Ok () \<and>
     s' = s\<lparr>lst_l7 := (lst_l7 s)\<lparr>l7_um := map_option (with_hosts rng rules dflt hosts) (l7_um (lst_l7 s))\<rparr>\<rparr>) s"
proof (induction hosts arbitrary: s)
  case Nil
  have "with_hosts rng rules dflt [] um = um" for um by (simp add: with_hosts_def)
  then show ?case by (simp add: wp_simps option.map_ident)
next
  case (Cons host hosts)
  let ?one = "\<lambda>s. s\<lparr>lst_l7 := (lst_l7 s)\<lparr>l7_um := map_option (with_hosts rng rules dflt [host]) (l7_um (lst_l7 s))\<rparr>\<rparr>"
  have "wp (add_host rng rules dflt host) (\<lambda>r s'. r = Ok () \<and> s' = ?one s) s"
    by (cases "l7_um (lst_l7 s)")
      (simp_all add: add_host_def Let_def set_um_def wp_simps path_rules [OF assms] with_hosts_def
        host_rule_def matcher_def flip: paths_of_def)
  moreover have "with_hosts rng rules dflt hosts (with_hosts rng rules dflt [host] um) =
      with_hosts rng rules dflt (host # hosts) um" for um by (simp add: with_hosts_def)
  ultimately show ?case
    using Cons.IH [of "?one s"] by (auto simp: wp_simps option.map_comp comp_def elim!: wp_mono)
qed

text \<open>The built map routes as the Ingress asks, when no two hosts have the same digest.\<close>

lemma route_with_hosts:
  assumes rng: "string_range rng" and rules: "no_nil_backend rules"
    and inj: "inj_on getNameForPathMatcher (keys rules)"
    and um: "um_DefaultService um = dflt" "um_HostRules um = map host_rule (rng (keys rules))"
      "um_PathMatchers um = map (matcher rng rules dflt) (rng (keys rules))"
  shows "route um host path = wanted_route rules dflt host path"
proof -
  let ?hosts = "rng (keys rules)"
  have set: "set ?hosts = keys rules" and find: "find (\<lambda>x. y = x) (rng (keys m)) = (if y \<in> keys m then Some y else None)"
    for y and m :: "(string, 'v) gomap"
    using rng by (simp_all add: string_range_def map_range.set_rng_keys map_range.find_range)
  have matcher_of: "matcher_for um host = (if host \<in> keys rules then Some (matcher rng rules dflt host) else None)"
  proof (cases "host \<in> keys rules")
    case True
    have "find (\<lambda>h. getNameForPathMatcher h = getNameForPathMatcher host) ?hosts = find (\<lambda>h. host = h) ?hosts"
      by (rule find_cong) (use True inj in \<open>auto simp: set inj_on_def\<close>)
    with True show ?thesis
      by (simp add: matcher_for_def um find_map comp_def host_rule_def find matcher_def)
  qed (simp add: matcher_for_def um find_map comp_def host_rule_def find)
  have paths: "find (\<lambda>r. path \<in> set (pr_Paths r)) (pm_PathRules (matcher rng rules dflt host)) =
      (if path \<in> keys (paths_of rules host) then Some (rule_to rules host path) else None)"
    by (simp add: matcher_def find_map comp_def rule_to_def find)
  show ?thesis
  proof (cases "fmlookup rules host")
    case None
    then show ?thesis by (simp add: route_def matcher_of wanted_route_def um fmdom_notI)
  next
    case (Some m)
    then have host: "host \<in> keys rules" "paths_of rules host = m" by (auto simp: in_keys_iff paths_of_def)
    show ?thesis
    proof (cases "fmlookup m path")
      case None
      then show ?thesis
        using host paths by (simp add: route_def matcher_of wanted_route_def Some matcher_def fmdom_notI)
    next
      case path: (Some b)
      then obtain be where "b = Some be" using no_nil_paths [OF rules, of host path] host by (cases b) auto
      moreover have "path \<in> keys m" using path by (auto simp: in_keys_iff)
      ultimately show ?thesis
        using host paths path by (simp add: route_def matcher_of wanted_route_def Some rule_to_def)
    qed
  qed
qed

text \<open>What runs after the map has been built.\<close>

lemma wp_UpdateUrlMap_push:
  assumes um: "l7_um (lst_l7 s) = Some um" and rng: "string_range rng"
    and split: "GetDefaultBackend ingressRules = (d, rules)" and rules: "no_nil_backend rules"
    and dflt: "default_link d (l7_glbcDefaultBackend (lst_l7 s)) = Ok dflt"
    and push: "wp (push_url_map e) Q (s\<lparr>lst_l7 := (lst_l7 s)\<lparr>l7_um := Some (with_hosts rng rules dflt (rng (keys rules))
      (um\<lparr>um_DefaultService := dflt, um_HostRules := [], um_PathMatchers := []\<rparr>))\<rparr>\<rparr>)"
  shows "wp (UpdateUrlMap e rng ingressRules) Q s"
  using um push by (auto simp: UpdateUrlMap_def split wp_simps dflt lift_outcome_def set_um_def
    intro!: wp_mono [OF wp_add_hosts [OF rng rules]])

section \<open>What the update leaves in the cloud\<close>

context l7_over
begin

lemma wp_push_url_map:
  assumes um: "l7_um (lst_l7 s) = Some um" and n: "um_Name um = n"
  shows "wp (push_url_map e) (\<lambda>r s'. frame {(UM, n)} (lv s) (lv s') \<and>
      (\<forall>old. v_um (lv s) n = Some old \<and> mapsEqual old um \<longrightarrow> r = Ok () \<and> lv s' = lv s) \<and>
      (r = Ok () \<longrightarrow> (\<exists>um'. v_um (lv s') n = Some um' \<and> mapsEqual um' um))) s"
proof -
  let ?Q = "\<lambda>r s'. frame {(UM, n)} (lv s) (lv s') \<and> (r = Ok () \<longrightarrow> (\<exists>um'. v_um (lv s') n = Some um' \<and> mapsEqual um' um))"
  have "mapsEqual (um\<lparr>um_SelfLink := link\<rparr>) um" for link by (simp add: mapsEqual_eq)
  then have updated: "wp (bind (on_lb (cloud_UpdateUrlMap (l7_cloud e) um))
      (\<lambda>_. bind (on_lb (GetUrlMap (l7_cloud e) n)) (\<lambda>um. l7_set (\<lambda>l. l\<lparr>l7_um := um\<rparr>)))) ?Q s'"
    if "lv s' = lv s" for s'
    unfolding wp_bind
    by (intro wp_on_lb_ex [OF update_um]; clarsimp simp: n that; intro get_rules(2); simp add: wp_simps)
  show ?thesis
  proof (cases "\<exists>old. v_um (lv s) n = Some old \<and> mapsEqual old um")
    case True
    then show ?thesis by (auto simp: push_url_map_def wp_simps um n intro!: found_rules(2))
  next
    case False
    then have "\<not> (case v_um (lv s) n of Some old \<Rightarrow> mapsEqual old um | None \<Rightarrow> False)" by (simp split: option.split)
    then have "wp (push_url_map e) ?Q s"
      using updated by (simp add: push_url_map_def wp_bind wp_read_state um n cong: if_cong) (rule found_rules(2), simp add: wp_bind)
    with False show ?thesis by (auto elim!: wp_mono)
  qed
qed

lemma wp_UpdateUrlMap:
  assumes um: "l7_um (lst_l7 s) = Some um" and rng: "string_range rng"
    and split: "GetDefaultBackend ingressRules = (d, rules)" and rules: "no_nil_backend rules"
    and dflt: "default_link d (l7_glbcDefaultBackend (lst_l7 s)) = Ok dflt"
  defines "new \<equiv> with_hosts rng rules dflt (rng (keys rules))
    (um\<lparr>um_DefaultService := dflt, um_HostRules := [], um_PathMatchers := []\<rparr>)"
  shows "wp (UpdateUrlMap e rng ingressRules) (\<lambda>r s'. frame {(UM, um_Name um)} (lv s) (lv s') \<and>
      (\<forall>old. v_um (lv s) (um_Name um) = Some old \<and> mapsEqual old new \<longrightarrow> r = Ok () \<and> lv s' = lv s) \<and>
      (r = Ok () \<longrightarrow> (\<exists>um'. v_um (lv s') (um_Name um) = Some um' \<and> mapsEqual um' new))) s"
proof -
  let ?s = "s\<lparr>lst_l7 := (lst_l7 s)\<lparr>l7_um := Some new\<rparr>\<rparr>"
  have name: "um_Name new = um_Name um" by (simp add: new_def with_hosts_def)
  show ?thesis
    by (rule wp_UpdateUrlMap_push [OF um rng split rules dflt])
      (use wp_push_url_map [of ?s new, OF _ name] in \<open>simp add: new_def\<close>)
qed

end

lemma update_routes:
  assumes cloud: "lb_cloud (l7_cloud e) view" and rng: "string_range rng"
    and um: "l7_um l = Some um" and split: "GetDefaultBackend ingressRules = (d, rules)"
    and rules: "no_nil_backend rules" "inj_on getNameForPathMatcher (keys rules)"
    and dflt: "default_link d (l7_glbcDefaultBackend l) = Ok dflt"
    and run: "UpdateUrlMap e rng ingressRules \<lparr>lst_l7 = l, lst_cloud = c\<rparr> = (r, \<lparr>lst_l7 = l', lst_cloud = c'\<rparr>)"
  shows "frame {(UM, um_Name um)} (view c) (view c') \<and>
    (r = Ok () \<longrightarrow> (\<exists>um'. v_um (view c') (um_Name um) = Some um' \<and>
       (\<forall>host path. route um' host path = wanted_route rules dflt host path)))"
proof -
  have over: "l7_over e view" using cloud by (simp add: l7_over_def)
  let ?new = "with_hosts rng rules dflt (rng (keys rules)) (um\<lparr>um_DefaultService := dflt, um_HostRules := [], um_PathMatchers := []\<rparr>)"
  have "mapsEqual um' ?new \<Longrightarrow> route um' host path = wanted_route rules dflt host path" for um' host path
    by (rule route_with_hosts [OF rng rules]) (simp_all add: mapsEqual_eq with_hosts_def)
  moreover have "l7_um (lst_l7 \<lparr>lst_l7 = l, lst_cloud = c\<rparr>) = Some um"
    "default_link d (l7_glbcDefaultBackend (lst_l7 \<lparr>lst_l7 = l, lst_cloud = c\<rparr>)) = Ok dflt"
    using um dflt by simp_all
  note wpD [OF l7_over.wp_UpdateUrlMap [OF over this(1) rng split rules(1) this(2)] run]
  ultimately show ?thesis by auto
qed

section \<open>Properties\<close>


text \<open>
  C34: when the hosts of an Ingress have different digests, updating the url map refines the routing that the
  Ingress asks for: every host and path is routed to the service of its backend, and to the default service (the
  Ingress's own or else the controller's) when the Ingress does not name it. Whatever the outcome, only this
  url map changes.
\<close>

theorem update_url_map:
  assumes cloud: "lb_cloud (l7_cloud e) view" and rng: "string_range rng"
    and um: "l7_um l = Some um" and split: "GetDefaultBackend ingressRules = (d, rules)"
    and rules: "no_nil_backend rules" "inj_on getNameForPathMatcher (keys rules)"
    and dflt: "default_link d (l7_glbcDefaultBackend l) = Ok dflt"
    and run: "UpdateUrlMap e rng ingressRules \<lparr>lst_l7 = l, lst_cloud = c\<rparr> = (r, \<lparr>lst_l7 = l', lst_cloud = c'\<rparr>)"
  shows "frame {(UM, um_Name um)} (view c) (view c') \<and>
    (r = Ok () \<longrightarrow> (\<exists>um'. v_um (view c') (um_Name um) = Some um' \<and>
       (\<forall>host path. route um' host path = wanted_route rules dflt host path)))"
  using assms by (rule update_routes)

definition example_backend :: BackendService where
  "example_backend = \<lparr>be_Name = ''k8s-be-1--uid1'', be_SelfLink = ''links/k8s-be-1--uid1'', be_Description = [],
     be_Protocol = ''HTTP'', be_HealthChecks = [], be_Port = 1, be_PortName = [], be_Backends = []\<rparr>"

definition example_rules :: GCEURLMap where
  "example_rules = fmap_of_list [(''a.org'', fmap_of_list [(''/x'', Some example_backend)])]"

text \<open>Over the fake the update succeeds whenever the url map exists.\<close>

lemma fake_push_ok:
  assumes "l7_cloud e = fakeLoadBalancers" "l7_um (lst_l7 s) = Some um" "named um_Name (um_Name um) (flb_Um (lst_cloud s)) \<noteq> None"
  shows "wp (push_url_map e) (\<lambda>r s'. r = Ok ()) s"
  using assms by (auto simp: push_url_map_def wp_simps wp_on_lb found_def flb_defs
    fun_cong [OF named_replace_first] split: option.split)

theorem update_url_map_witness:
  "\<exists>l' c' um'. UpdateUrlMap example_env set_List example_rules
       \<lparr>lst_l7 = lst_l7 example_up, lst_cloud = lst_cloud example_up\<rparr> = (Ok (), \<lparr>lst_l7 = l', lst_cloud = c'\<rparr>) \<and>
     v_um (flb_view c') (um_Name (the (l7_um (lst_l7 example_up)))) = Some um' \<and>
     route um' ''a.org'' ''/x'' = ''links/k8s-be-1--uid1'' \<and> route um' ''a.org'' ''/y'' = ''be'' \<and>
     route um' ''b.org'' ''/x'' = ''be''"
proof -
  have um: "l7_um (lst_l7 example_up) = Some (the (l7_um (lst_l7 example_up)))" by code_simp
  have split: "GetDefaultBackend example_rules = (None, example_rules)" by code_simp
  have dflt: "default_link None (l7_glbcDefaultBackend (lst_l7 example_up)) = Ok ''be''" by code_simp
  have lookup: "fmlookup example_rules h = (if h = ''a.org'' then Some (fmap_of_list [(''/x'', Some example_backend)]) else None)" for h
    by (simp add: example_rules_def fmlookup_of_list)
  have rules: "no_nil_backend example_rules" "inj_on getNameForPathMatcher (keys example_rules)"
    by (auto simp: no_nil_backend_def lookup fmlookup_of_list example_rules_def inj_on_def split: if_splits)
  have there: "named um_Name (um_Name (the (l7_um (lst_l7 example_up)))) (flb_Um (lst_cloud example_up)) \<noteq> None" by code_simp
  have "wp (UpdateUrlMap example_env set_List example_rules) (\<lambda>r s'. r = Ok ()) example_up"
    by (intro wp_UpdateUrlMap_push [OF um sorted_strings.string_range_axioms split rules(1) dflt] fake_push_ok)
      (simp add: example_env_def, simp, use there in \<open>simp add: with_hosts_def\<close>)
  then have "fst (UpdateUrlMap example_env set_List example_rules example_up) = Ok ()"
    by (simp add: wp_def split: prod.splits)
  from run_outcome [OF this] obtain s' where up: "UpdateUrlMap example_env set_List example_rules example_up = (Ok (), s')" ..
  have eta: "\<lparr>lst_l7 = lst_l7 example_up, lst_cloud = lst_cloud example_up\<rparr> = example_up" by simp
  from up obtain l' c' where
    run: "UpdateUrlMap example_env set_List example_rules \<lparr>lst_l7 = lst_l7 example_up, lst_cloud = lst_cloud example_up\<rparr> =
      (Ok (), \<lparr>lst_l7 = l', lst_cloud = c'\<rparr>)"
    unfolding eta by (cases s') auto
  from run update_url_map [OF example_lb.lb_cloud_axioms sorted_strings.string_range_axioms um split rules dflt run]
  show ?thesis
    by (auto simp: wanted_route_def lookup fmlookup_of_list example_backend_def)
qed

end
