(* ===== verification/Lb_Pool.thy ===== *)
theory Lb_Pool
  imports Backends Lb_Url_Map
begin

text \<open>
  The pool of load balancers (\<open>L7s\<close> of \<open>pkg/loadbalancers/loadbalancers.go\<close>): it remembers one \<open>L7\<close> per
  Ingress, checks them on every sync and collects those that are no longer wanted. The pool reaches its
  backend pool through an interface (\<open>BackendPool\<close> of \<open>pkg/backends/interfaces.go\<close>), a record of calls
  over a state of its own; \<open>Backends\<close> is the implementation.

  The pool holds pointers: a method that runs on a pooled load balancer changes the pooled object, also
  when it fails. \<open>run_l7\<close> writes the object back under every key that leads to it.
\<close>

section \<open>The interface of backend pools\<close>

record 'b BackendPool =
  bp_Ensure :: "ServicePort list \<Rightarrow> InstanceGroup list option \<Rightarrow> ('b, unit) go"
  bp_Get :: "int \<Rightarrow> ('b, BackendService) go"
  bp_Delete :: "int \<Rightarrow> ('b, unit) go"
  bp_GC :: "ServicePort list \<Rightarrow> ('b, unit) go"
  bp_Shutdown :: "('b, unit) go"
  bp_Status :: "string \<Rightarrow> ('b, string) go"
  bp_List :: "('b, BackendService list) go"
  bp_Link :: "ServicePort \<Rightarrow> string list \<Rightarrow> ('b, unit) go"

definition Backends_pool :: "('c, 'n, 'h) Backends \<Rightarrow> ('c, 'n, 'h) Backends_state BackendPool" where
  "Backends_pool b =
     \<lparr>bp_Ensure = be_Ensure b, bp_Get = be_Get b, bp_Delete = be_Delete b, bp_GC = be_GC b, bp_Shutdown = be_Shutdown b,
      bp_Status = be_Status b, bp_List = be_List b, bp_Link = be_Link b\<rparr>"

section \<open>The pool\<close>

record ('c, 'b) L7s =
  l7s_cloud :: "'c LoadBalancers"
  l7s_defaultBackendPool :: "'b BackendPool"
  l7s_defaultBackendNodePort :: ServicePort
  l7s_namer :: Namer
  l7s_rng :: "string set \<Rightarrow> string list"

record ('c, 'b) L7s_state =
  l7s_snapshotter :: "L7 InMemoryPool"
  l7s_glbcDefaultBackend :: "BackendService option"
  l7s_cloud_st :: 'c
  l7s_be_st :: 'b

definition NewLoadBalancerPool :: "'c \<Rightarrow> 'b \<Rightarrow> ('c, 'b) L7s_state" where
  "NewLoadBalancerPool c b = \<lparr>l7s_snapshotter = NewInMemoryPool, l7s_glbcDefaultBackend = None, l7s_cloud_st = c,
     l7s_be_st = b\<rparr>"

definition l7s_env :: "('c, 'b) L7s \<Rightarrow> 'c L7_env" where
  "l7s_env p = \<lparr>l7_cloud = l7s_cloud p, l7_namer = l7s_namer p\<rparr>"

definition on_l7s_be :: "('b, 'a) go \<Rightarrow> (('c, 'b) L7s_state, 'a) go" where
  "on_l7s_be = on_part l7s_be_st (\<lambda>b s. s\<lparr>l7s_be_st := b\<rparr>)"

definition run_l7 :: "string list \<Rightarrow> L7 \<Rightarrow> ('c L7_state, 'a) go \<Rightarrow> (('c, 'b) L7s_state, 'a) go" where
  "run_l7 ks lb m s =
     (let (r, t) = m \<lparr>lst_l7 = lb, lst_cloud = l7s_cloud_st s\<rparr>
      in (r, s\<lparr>l7s_snapshotter := fold (\<lambda>k. pool_Add k (lst_l7 t)) ks (l7s_snapshotter s), l7s_cloud_st := lst_cloud t\<rparr>))"

definition l7s_create :: "('c, 'b) L7s \<Rightarrow> BackendService option \<Rightarrow> L7RuntimeInfo \<Rightarrow> L7" where
  "l7s_create p dflt ri =
     \<lparr>l7_Name = LoadBalancer (l7s_namer p) (ri_Name ri), l7_runtimeInfo = ri, l7_um = None, l7_tp = None, l7_tps = None,
      l7_fw = None, l7_fws = None, l7_ip = None, l7_sslCert = None, l7_oldSSLCert = None, l7_glbcDefaultBackend = dflt\<rparr>"

definition l7s_Get :: "('c, 'b) L7s \<Rightarrow> string \<Rightarrow> (('c, 'b) L7s_state, L7) go" where
  "l7s_Get p name =
     (let name = LoadBalancer (l7s_namer p) name in
      bind (read_state (\<lambda>s. pool_Get name (l7s_snapshotter s)))
        (\<lambda>r. case r of
           None \<Rightarrow> fail (Errorf (''loadbalancer '' @ name @ '' not in pool'') [])
         | Some lb \<Rightarrow> ret lb))"

text \<open>The runtime info is replaced when it is not equal. The load balancer is added however the check ends.\<close>

definition l7s_Add :: "('c, 'b) L7s \<Rightarrow> L7RuntimeInfo \<Rightarrow> (('c, 'b) L7s_state, unit) go" where
  "l7s_Add p ri =
     (let name = LoadBalancer (l7s_namer p) (ri_Name ri) in
      bind_err (l7s_Get p name)
        (\<lambda>r. case r of
           Inl _ \<Rightarrow> bind (read_state l7s_glbcDefaultBackend)
             (\<lambda>dflt. run_l7 [name] (l7s_create p dflt ri) (Load_Balancers.edgeHop (l7s_env p)))
         | Inr lb \<Rightarrow> run_l7 [LoadBalancer (l7s_namer p) name, name] (lb\<lparr>l7_runtimeInfo := ri\<rparr>)
             (Load_Balancers.edgeHop (l7s_env p))))"

definition l7s_Delete :: "('c, 'b) L7s \<Rightarrow> string \<Rightarrow> (('c, 'b) L7s_state, unit) go" where
  "l7s_Delete p name =
     (let name = LoadBalancer (l7s_namer p) name in
      bind (l7s_Get p name)
        (\<lambda>lb. bind (run_l7 [LoadBalancer (l7s_namer p) name] lb (Cleanup (l7s_env p)))
           (\<lambda>_. modify_state (\<lambda>s. s\<lparr>l7s_snapshotter := pool_Delete name (l7s_snapshotter s)\<rparr>))))"

definition l7s_Sync :: "('c, 'b) L7s \<Rightarrow> L7RuntimeInfo list \<Rightarrow> (('c, 'b) L7s_state, unit) go" where
  "l7s_Sync p lbs =
     bind (if lbs \<noteq> [] then
             bind (on_l7s_be (bp_Ensure (l7s_defaultBackendPool p) [l7s_defaultBackendNodePort p] None))
               (\<lambda>_. bind (on_l7s_be (bp_Get (l7s_defaultBackendPool p) (sp_Port (l7s_defaultBackendNodePort p))))
                  (\<lambda>be. modify_state (\<lambda>s. s\<lparr>l7s_glbcDefaultBackend := Some be\<rparr>)))
           else ret ())
       (\<lambda>_. for_each (l7s_Add p) lbs)"

definition gc_lb :: "('c, 'b) L7s \<Rightarrow> string set \<Rightarrow> string \<Rightarrow> (('c, 'b) L7s_state, unit) go" where
  "gc_lb p known name = (if name \<in> known then ret () else l7s_Delete p name)"

definition l7s_GC :: "('c, 'b) L7s \<Rightarrow> string list \<Rightarrow> (('c, 'b) L7s_state, unit) go" where
  "l7s_GC p names =
     (let known = LoadBalancer (l7s_namer p) ` set names in
      bind (read_state (\<lambda>s. l7s_rng p (keys (Snapshot (l7s_rng p) (l7s_snapshotter s)))))
        (\<lambda>pool. bind (for_each (gc_lb p known) pool)
           (\<lambda>_. if names = [] then
                  bind (on_l7s_be (bp_Delete (l7s_defaultBackendPool p) (sp_Port (l7s_defaultBackendNodePort p))))
                    (\<lambda>_. modify_state (\<lambda>s. s\<lparr>l7s_glbcDefaultBackend := None\<rparr>))
                else ret ())))"

definition l7s_Shutdown :: "('c, 'b) L7s \<Rightarrow> (('c, 'b) L7s_state, unit) go" where
  "l7s_Shutdown p =
     bind (l7s_GC p []) (\<lambda>_. on_l7s_be (bp_Shutdown (l7s_defaultBackendPool p)))"

section \<open>Collecting load balancers\<close>

lemma wp_on_l7s_be [wp_simps]:
  "wp (on_l7s_be m) Q = (\<lambda>s. wp m (\<lambda>r b. Q r (s\<lparr>l7s_be_st := b\<rparr>)) (l7s_be_st s))"
  by (simp add: on_l7s_be_def wp_on_part)

lemma wp_run_l7:
  "wp (run_l7 ks lb m) Q = (\<lambda>s. wp m (\<lambda>r t. Q r (s\<lparr>l7s_snapshotter := fold (\<lambda>k. pool_Add k (lst_l7 t)) ks (l7s_snapshotter s),
     l7s_cloud_st := lst_cloud t\<rparr>)) \<lparr>lst_l7 = lb, lst_cloud = l7s_cloud_st s\<rparr>)"
  by (simp add: fun_eq_iff wp_def run_l7_def split: prod.split)

text \<open>The resources that the pool holds, and what a collection may do to it.\<close>

definition pool_holds :: "L7 InMemoryPool \<Rightarrow> string set \<Rightarrow> (kind \<times> string) set" where
  "pool_holds pool A = {x. \<exists>k l. k \<in> A \<and> fmlookup pool k = Some l \<and> x \<in> held l}"

text \<open>What was held and still exists is still held.\<close>

definition tracked :: "lb_view \<Rightarrow> L7 \<Rightarrow> L7 option \<Rightarrow> bool" where
  "tracked v l0 x \<longleftrightarrow> (let now = (case x of Some l \<Rightarrow> held l | None \<Rightarrow> {}) in now \<subseteq> held l0 \<and> held l0 \<inter> live v \<subseteq> now)"

lemma tracked_mono: "tracked v l0 x \<Longrightarrow> live v' \<subseteq> live v \<Longrightarrow> tracked v' l0 x"
  unfolding tracked_def Let_def by blast

lemma tracked_refl [simp]: "tracked v l (Some l)"
  by (simp add: tracked_def)

lemma tracked_step: "tracked v l0 (Some l) \<Longrightarrow> live v' \<subseteq> live v \<Longrightarrow> tracked v' l x \<Longrightarrow> tracked v' l0 x"
  unfolding tracked_def Let_def by (auto split: option.splits)

definition collecting :: "string set \<Rightarrow> L7 InMemoryPool \<Rightarrow> lb_view \<Rightarrow> L7 InMemoryPool \<Rightarrow> lb_view \<Rightarrow> bool" where
  "collecting doomed pool0 v0 pool v \<longleftrightarrow>
     (\<forall>k. k \<notin> doomed \<or> k \<notin> keys pool0 \<longrightarrow> fmlookup pool k = fmlookup pool0 k) \<and>
     (\<forall>k l0. fmlookup pool0 k = Some l0 \<longrightarrow> tracked v l0 (fmlookup pool k)) \<and>
     frame (pool_holds pool0 doomed) v0 v \<and> live v \<subseteq> live v0"

lemma collecting_refl [simp]: "collecting doomed pool v pool v"
  by (simp add: collecting_def)

lemma collecting_step:
  assumes "collecting doomed pool0 v0 pool v" "k \<in> doomed" "fmlookup pool k = Some l"
    and "frame (held l) v v'" "live v' \<subseteq> live v" "tracked v' l x"
    and "\<And>k'. fmlookup pool' k' = (if k' = k then x else fmlookup pool k')"
  shows "collecting doomed pool0 v0 pool' v'"
proof -
  from assms(1) have c: "\<And>k. k \<notin> doomed \<or> k \<notin> keys pool0 \<Longrightarrow> fmlookup pool k = fmlookup pool0 k"
      "\<And>k l0. fmlookup pool0 k = Some l0 \<Longrightarrow> tracked v l0 (fmlookup pool k)"
      "frame (pool_holds pool0 doomed) v0 v" "live v \<subseteq> live v0"
    by (simp_all add: collecting_def)
  from c(1) [of k] assms(3) have "k \<in> keys pool0" by (metis in_keys_iff)
  then obtain l0 where l0: "fmlookup pool0 k = Some l0" by (auto simp: in_keys_iff)
  with c(2) [of k l0] assms(3) have t: "tracked v l0 (Some l)" by simp
  then have "held l \<subseteq> pool_holds pool0 doomed"
    using l0 assms(2) by (auto simp: tracked_def pool_holds_def Let_def)
  with assms(4) c(3) have "frame (pool_holds pool0 doomed) v0 v'" by (metis frame_mono frame_trans)
  moreover have "tracked v' l0' (fmlookup pool' k')" if "fmlookup pool0 k' = Some l0'" for k' l0'
    using that c(2) [OF that] l0 tracked_step [OF t assms(5,6)] tracked_mono [OF _ assms(5)] by (auto simp: assms(7))
  ultimately show ?thesis
    using c(1,4) assms(2,5) \<open>k \<in> keys pool0\<close> by (auto simp: collecting_def assms(7))
qed

lemma collecting_holds:
  assumes "collecting doomed pool v pool' v'"
  shows "pool_holds pool UNIV \<inter> live v' \<subseteq> pool_holds pool' UNIV"
proof -
  have "\<And>k l0. fmlookup pool k = Some l0 \<Longrightarrow> tracked v' l0 (fmlookup pool' k)" using assms by (simp add: collecting_def)
  then show ?thesis by (fastforce simp: pool_holds_def tracked_def Let_def split: option.splits)
qed

lemma collecting_gone:
  assumes "collecting doomed pool v pool' v'" "keys pool' = keys pool \<inter> known" "k \<notin> known"
  shows "pool_holds pool {k} \<inter> live v' = {}"
proof -
  have "fmlookup pool' k = None" using assms(2,3) by (metis Int_iff fmdom_notD)
  moreover have "\<And>l0. fmlookup pool k = Some l0 \<Longrightarrow> tracked v' l0 (fmlookup pool' k)" using assms(1) by (simp add: collecting_def)
  ultimately show ?thesis by (auto simp: pool_holds_def tracked_def)
qed

definition same_backend :: "('c, 'b) L7s_state \<Rightarrow> ('c, 'b) L7s_state \<Rightarrow> bool" where
  "same_backend s s' \<longleftrightarrow> l7s_glbcDefaultBackend s' = l7s_glbcDefaultBackend s \<and> l7s_be_st s' = l7s_be_st s"

lemma same_backend_trans: "same_backend s s' \<Longrightarrow> same_backend s' s'' \<Longrightarrow> same_backend s s''"
  by (simp add: same_backend_def)

lemma same_backend_upd [simp]:
  "same_backend s s" "same_backend s (s'\<lparr>l7s_snapshotter := pool\<rparr>) = same_backend s s'"
  "same_backend s (s'\<lparr>l7s_cloud_st := c\<rparr>) = same_backend s s'"
  by (simp_all add: same_backend_def)

locale l7s_over = l7_over "l7s_env p" view
  for p :: "('c, 'b) L7s" and view :: "'c \<Rightarrow> lb_view"
begin

abbreviation wv :: "('c, 'b) L7s_state \<Rightarrow> lb_view" where
  "wv s \<equiv> view (l7s_cloud_st s)"

lemma wp_Cleanup_tracked:
  "wp (Cleanup (l7s_env p)) (\<lambda>r t. frame (held (lst_l7 s)) (lv s) (lv t) \<and> live (lv t) \<subseteq> live (lv s) \<and>
      tracked (lv t) (lst_l7 s) (Some (lst_l7 t)) \<and> (r = Ok () \<longrightarrow> tracked (lv t) (lst_l7 s) None)) s"
proof (rule wp_mono [OF wp_Cleanup], goal_cases)
  case (1 r t)
  then have "keeps (lst_l7 s) (lst_l7 t)" and mem: "remembers (lst_l7 s) (lst_l7 t) (lv t)"
    by (simp_all add: cleaning_def)
  then have "l7_runtimeInfo (lst_l7 t) = l7_runtimeInfo (lst_l7 s)" by (simp add: keeps_def)
  with mem have "tracked (lv t) (lst_l7 s) (Some (lst_l7 t))"
    using remembers_live remembers_subset by (simp add: tracked_def Let_def)
  moreover have "r = Ok () \<Longrightarrow> held (lst_l7 t) = {}" using 1 by (auto simp: held_def)
  ultimately show ?case
    using 1 by (auto simp: cleaning_def tracked_def)
qed

lemma wp_l7s_Delete:
  assumes coll: "collecting doomed pool0 v0 (l7s_snapshotter s) (wv s)" and k: "k \<in> doomed" "LoadBalancer (l7s_namer p) k = k"
    and lb: "fmlookup (l7s_snapshotter s) k = Some lb"
  shows "wp (l7s_Delete p k) (\<lambda>r s'. collecting doomed pool0 v0 (l7s_snapshotter s') (wv s') \<and>
      same_backend s s' \<and>
      (r = Ok () \<longrightarrow> l7s_snapshotter s' = fmdrop k (l7s_snapshotter s))) s"
proof -
  let ?s = "\<lparr>lst_l7 = lb, lst_cloud = l7s_cloud_st s\<rparr>" and ?pool = "l7s_snapshotter s"
  have "wp (run_l7 [k] lb (Cleanup (l7s_env p)))
      (\<lambda>r s'. (\<exists>l'. l7s_snapshotter s' = fmupd k l' ?pool) \<and> same_backend s s' \<and>
         collecting doomed pool0 v0 (l7s_snapshotter s') (wv s') \<and>
         (r = Ok () \<longrightarrow> collecting doomed pool0 v0 (fmdrop k ?pool) (wv s'))) s"
    unfolding wp_run_l7
  proof (rule wp_mono [OF wp_Cleanup_tracked [of ?s]], goal_cases)
    case (1 r t)
    then have t: "frame (held lb) (wv s) (lv t)" "live (lv t) \<subseteq> live (wv s)" "tracked (lv t) lb (Some (lst_l7 t))"
        "r = Ok () \<Longrightarrow> tracked (lv t) lb None"
      by simp_all
    have "collecting doomed pool0 v0 (fmupd k (lst_l7 t) ?pool) (lv t)"
      by (rule collecting_step [OF coll k(1) lb t(1,2,3)]) simp
    moreover have "collecting doomed pool0 v0 (fmdrop k ?pool) (lv t)" if "r = Ok ()"
      by (rule collecting_step [OF coll k(1) lb t(1,2) t(4) [OF that]]) simp
    ultimately show ?case by (auto simp: pool_Add_def)
  qed
  moreover have "fmdrop k (fmupd k l' ?pool) = fmdrop k ?pool" for l' by (rule fmap_ext) simp
  ultimately show ?thesis
    by (auto simp: l7s_Delete_def l7s_Get_def wp_simps pool_defs lb k(2) on_ok_def
        elim!: wp_mono split: outcome.split)
qed

lemma wp_gc_loop:
  assumes rng: "string_range (l7s_rng p)" and keys: "\<forall>k\<in>keys (l7s_snapshotter s). LoadBalancer (l7s_namer p) k = k"
  shows "wp (for_each (gc_lb p known) (l7s_rng p (keys (l7s_snapshotter s))))
     (\<lambda>r s'. collecting (- known) (l7s_snapshotter s) (wv s) (l7s_snapshotter s') (wv s') \<and>
        same_backend s s' \<and>
        (r = Ok () \<longrightarrow> keys (l7s_snapshotter s') = keys (l7s_snapshotter s) \<inter> known)) s"
proof -
  let ?pool = "l7s_snapshotter s" let ?ks = "l7s_rng p (keys ?pool)"
  have ks: "set ?ks = keys ?pool" "distinct ?ks"
    using rng by (simp_all add: string_range_def map_range.set_rng map_range.distinct_rng)
  let ?C = "\<lambda>s'. collecting (- known) ?pool (wv s) (l7s_snapshotter s') (wv s') \<and>
     same_backend s s'"
  show ?thesis
  proof (rule wp_for_each [where I = "\<lambda>dn s'. ?C s' \<and> keys (l7s_snapshotter s') = keys ?pool - (set dn - known)"], goal_cases)
    case (2 dn k rest s')
    then have k: "k \<in> keys ?pool" "k \<notin> set dn" using ks by (metis in_set_conv_decomp, auto)
    show ?case
    proof (cases "k \<in> known")
      case True
      with 2 show ?thesis by (auto simp: gc_lb_def wp_simps)
    next
      case False
      with k 2 have "k \<in> keys (l7s_snapshotter s')" by simp
      then obtain lb where "fmlookup (l7s_snapshotter s') k = Some lb" by (auto simp: in_keys_iff)
      from wp_l7s_Delete [of "- known" ?pool "wv s" s' k lb] this False 2 keys k(1) show ?thesis
        by (simp add: gc_lb_def) (erule wp_mono, auto simp: on_ok_def intro: same_backend_trans split: outcome.split)
    qed
  qed (use ks in auto)
qed

text \<open>What the deletion of the default backend keeps, the collection keeps.\<close>

lemma wp_l7s_GC_backends:
  assumes rng: "string_range (l7s_rng p)" and keys: "\<forall>k\<in>keys (l7s_snapshotter s). LoadBalancer (l7s_namer p) k = k"
    and J: "J (l7s_be_st s)"
    and del: "\<And>b. J b \<Longrightarrow> wp (bp_Delete (l7s_defaultBackendPool p) (sp_Port (l7s_defaultBackendNodePort p))) (\<lambda>_. J) b"
  shows "wp (l7s_GC p names) (\<lambda>r s'. J (l7s_be_st s')) s"
proof -
  have *: "l7s_rng p (keys (Snapshot (l7s_rng p) pool)) = l7s_rng p (keys pool)" for pool :: "L7 InMemoryPool"
    by (simp add: string_range.Snapshot_id [OF rng])
  show ?thesis
    unfolding l7s_GC_def Let_def wp_bind wp_read_state on_ok_simps *
  proof (rule wp_mono [OF wp_gc_loop [OF rng keys]], goal_cases)
    case (1 r s')
    then have "J (l7s_be_st s')" using J by (simp add: same_backend_def)
    from this del [OF this] show ?case
      by (cases r; cases "names = []") (auto simp: wp_simps on_ok_def elim!: wp_mono split: outcome.split)
  qed
qed

lemma wp_l7s_GC:
  assumes rng: "string_range (l7s_rng p)" and keys: "\<forall>k\<in>keys (l7s_snapshotter s). LoadBalancer (l7s_namer p) k = k"
  defines "known names \<equiv> LoadBalancer (l7s_namer p) ` set names"
  shows "wp (l7s_GC p names) (\<lambda>r s'. collecting (- known names) (l7s_snapshotter s) (wv s) (l7s_snapshotter s') (wv s') \<and>
      (names \<noteq> [] \<or> keys (l7s_snapshotter s') \<noteq> {} \<longrightarrow> same_backend s s') \<and>
      (r = Ok () \<longrightarrow> keys (l7s_snapshotter s') = keys (l7s_snapshotter s) \<inter> known names \<and>
         (names = [] \<longrightarrow> l7s_glbcDefaultBackend s' = None))) s"
proof -
  have *: "l7s_rng p (keys (Snapshot (l7s_rng p) pool)) = l7s_rng p (keys pool)" for pool :: "L7 InMemoryPool"
    by (simp add: string_range.Snapshot_id [OF rng])
  show ?thesis
    unfolding l7s_GC_def Let_def wp_bind wp_read_state on_ok_simps *
  proof (rule wp_mono [OF wp_gc_loop [OF rng keys]], goal_cases)
    case (1 r s')
    then show ?case
      by (cases r; cases "names = []")
        (auto simp: wp_simps known_def on_ok_def intro!: wpI split: outcome.split)
  qed
qed

end

section \<open>Properties\<close>


definition example_l7s where
  "example_l7s = \<lparr>l7s_cloud = fakeLoadBalancers, l7s_defaultBackendPool = Backends_pool fake_backends,
     l7s_defaultBackendNodePort = example_port 80 False, l7s_namer = NewNamer ''uid1'' [], l7s_rng = set_List\<rparr>"

interpretation example_pool: l7s_over example_l7s flb_view
  unfolding l7s_over_def l7_over_def l7s_env_def example_l7s_def L7s.select_convs L7_env.select_convs
  by (rule fake_lb.lb_cloud_axioms)

definition example_um :: "string \<Rightarrow> UrlMap" where
  "example_um name = \<lparr>um_Name = name, um_SelfLink = name, um_DefaultService = ''be'', um_HostRules = [], um_PathMatchers = []\<rparr>"

definition two_lbs where
  "two_lbs = \<lparr>l7s_snapshotter = fmap_of_list [(''ns-a--uid1'', example_l7\<lparr>l7_um := Some (example_um ''um-a'')\<rparr>),
       (''ns-b--uid1'', example_l7\<lparr>l7_um := Some (example_um ''um-b'')\<rparr>)],
     l7s_glbcDefaultBackend = None,
     l7s_cloud_st = (NewFakeLoadBalancers ''web'')\<lparr>flb_Um := [example_um ''um-a'', example_um ''um-b'']\<rparr>, l7s_be_st = fake_backends_st\<rparr>"

lemma two_lbs_pool: "fmlookup (l7s_snapshotter two_lbs) k =
    (if k = ''ns-a--uid1'' then Some (example_l7\<lparr>l7_um := Some (example_um ''um-a'')\<rparr>)
     else if k = ''ns-b--uid1'' then Some (example_l7\<lparr>l7_um := Some (example_um ''um-b'')\<rparr>) else None)"
  by (simp add: two_lbs_def fmlookup_of_list)


end
