(* ===== verification/Translator.thy ===== *)
theory Translator
  imports Lb_Pool
begin

text \<open>
  From Kubernetes objects to the vocabulary of the cloud: the annotations (\<open>pkg/annotations/annotations.go\<close>),
  the loader of certificates (\<open>pkg/tls/tls.go\<close>), and the listers and the translator of
  \<open>pkg/controller/utils.go\<close> with the conversion of Ingresses to runtime infos (\<open>controller.go\<close>).

  The informer caches are lists of objects, in the order in which the store lists them. Events that are
  recorded for the user are output only, as log lines are, and are left out. The decoding of a JSON object
  of strings (\<open>json.Unmarshal\<close>) is a parameter.
\<close>

section \<open>Annotations\<close>

definition AllowHTTPKey :: string where "AllowHTTPKey = ''kubernetes.io/ingress.allow-http''"
definition StaticIPNameKey :: string where "StaticIPNameKey = ''kubernetes.io/ingress.global-static-ip-name''"
definition PreSharedCertKey :: string where "PreSharedCertKey = ''ingress.gcp.kubernetes.io/pre-shared-cert''"
definition ServiceApplicationProtocolKey :: string where
  "ServiceApplicationProtocolKey = ''service.alpha.kubernetes.io/app-protocols''"
definition IngressClassKey :: string where "IngressClassKey = ''kubernetes.io/ingress.class''"
definition GceIngressClass :: string where "GceIngressClass = ''gce''"
definition GceMultiIngressClass :: string where "GceMultiIngressClass = ''gce-multi-cluster''"
definition ZoneKey :: string where "ZoneKey = ''failure-domain.beta.kubernetes.io/zone''"
definition DefaultZone :: string where "DefaultZone = []"
definition InstanceGroupsAnnotationKey :: string where
  "InstanceGroupsAnnotationKey = ''ingress.gcp.kubernetes.io/instance-groups''"
definition NetworkEndpointGroupAlphaAnnotation :: string where
  "NetworkEndpointGroupAlphaAnnotation = ''alpha.cloud.google.com/load-balancer-neg''"

text \<open>The value of a key, empty when it is not there.\<close>

definition value_of :: "string_map \<Rightarrow> string \<Rightarrow> string" where
  "value_of m key = (case fmlookup m key of None \<Rightarrow> [] | Some val \<Rightarrow> val)"

definition AllowHTTP :: "string_map \<Rightarrow> bool" where
  "AllowHTTP ing =
     (case fmlookup ing AllowHTTPKey of
        None \<Rightarrow> True
      | Some val \<Rightarrow> (case ParseBool val of None \<Rightarrow> True | Some v \<Rightarrow> v))"

definition UseNamedTLS :: "string_map \<Rightarrow> string" where
  "UseNamedTLS ing = value_of ing PreSharedCertKey"

definition StaticIPName :: "string_map \<Rightarrow> string" where
  "StaticIPName ing = value_of ing StaticIPNameKey"

definition IngressClass :: "string_map \<Rightarrow> string" where
  "IngressClass ing = value_of ing IngressClassKey"

text \<open>
  \<open>unmarshal\<close> returns the decoded map, which may be partly filled, and the error. The first value in the
  order of the map that is not a protocol is reported.
\<close>

definition ApplicationProtocols ::
  "(string \<Rightarrow> string_map \<times> gerror option) \<Rightarrow> (string set \<Rightarrow> string list) \<Rightarrow> string_map \<Rightarrow> string_map outcome" where
  "ApplicationProtocols unmarshal rng svc =
     (case fmlookup svc ServiceApplicationProtocolKey of
        None \<Rightarrow> Ok fmempty
      | Some val \<Rightarrow>
          let (portToProtos, err) = unmarshal val;
              protos = map (value_of portToProtos) (rng (keys portToProtos))
          in (case find (\<lambda>proto. proto \<noteq> ProtocolHTTP \<and> proto \<noteq> ProtocolHTTPS) protos of
                Some proto \<Rightarrow> Err (Errorf (''invalid port application protocol: '' @ proto) [])
              | None \<Rightarrow> (case err of Some e \<Rightarrow> Err e | None \<Rightarrow> Ok portToProtos)))"

definition NEGEnabled :: "string_map \<Rightarrow> bool" where
  "NEGEnabled svc \<longleftrightarrow> fmlookup svc NetworkEndpointGroupAlphaAnnotation = Some ''true''"

section \<open>Ingress classes and listers\<close>

definition isGCEIngress :: "Ingress \<Rightarrow> bool" where
  "isGCEIngress ing = (let class = IngressClass (ing_Annotations ing) in class = [] \<or> class = GceIngressClass)"

definition isGCEMultiClusterIngress :: "Ingress \<Rightarrow> bool" where
  "isGCEMultiClusterIngress ing \<longleftrightarrow> IngressClass (ing_Annotations ing) = GceMultiIngressClass"

definition ing_ListAll :: "Ingress list \<Rightarrow> Ingress list" where
  "ing_ListAll store = filter (\<lambda>ing. isGCEIngress ing \<or> isGCEMultiClusterIngress ing) store"

definition ListGCEIngresses :: "Ingress list \<Rightarrow> Ingress list" where
  "ListGCEIngresses store = filter isGCEIngress store"

definition points_to :: "Service \<Rightarrow> Ingress \<Rightarrow> bool" where
  "points_to svc ing \<longleftrightarrow>
     ing_Namespace ing = svc_Namespace svc \<and>
     ((case ing_Backend ing of Some be \<Rightarrow> ib_ServiceName be = svc_Name svc | None \<Rightarrow> False) \<or>
      list_ex (\<lambda>rule. case rule_HTTP rule of
          None \<Rightarrow> False
        | Some paths \<Rightarrow> list_ex (\<lambda>p. ib_ServiceName (hp_Backend p) = svc_Name svc) paths) (ing_Rules ing))"

definition GetServiceIngress :: "Ingress list \<Rightarrow> Service \<Rightarrow> Ingress list outcome" where
  "GetServiceIngress store svc =
     (let ings = filter (points_to svc) store
      in if ings = [] then Err (Errorf (''no ingress for service '' @ svc_Name svc) []) else Ok ings)"

text \<open>\<open>labels.SelectorFromSet\<close>: every label of the selector is on the object.\<close>

definition selects :: "string_map \<Rightarrow> string_map \<Rightarrow> bool" where
  "selects selector lbls \<longleftrightarrow> fmpred (\<lambda>k v. fmlookup lbls k = Some v) selector"

definition pod_List :: "Pod list \<Rightarrow> string_map \<Rightarrow> Pod list" where
  "pod_List store selector = filter (\<lambda>pod. selects selector (pod_Labels pod)) store"

text \<open>\<open>cache.DeletionHandlingMetaNamespaceKeyFunc\<close> of an object in the cache.\<close>

definition meta_key :: "string \<Rightarrow> string \<Rightarrow> string" where
  "meta_key ns name = (if ns = [] then name else ns @ ''/'' @ name)"

definition find_endpoints :: "Endpoints list \<Rightarrow> string \<Rightarrow> string \<Rightarrow> Endpoints option" where
  "find_endpoints store ns name = find (\<lambda>ep. ep_Namespace ep = ns \<and> ep_Name ep = name) store"

definition ListEndpointTargetPorts :: "Endpoints list \<Rightarrow> string \<Rightarrow> string \<Rightarrow> string \<Rightarrow> int list" where
  "ListEndpointTargetPorts store ns name targetPort =
     (case Atoi targetPort of
        Some i \<Rightarrow> [i]
      | None \<Rightarrow>
          (case find_endpoints store ns name of
             None \<Rightarrow> []
           | Some ep \<Rightarrow>
               map epp_Port (filter (\<lambda>port. epp_Protocol port = ''TCP'' \<and> epp_Name port = targetPort)
                 (concat (map es_Ports (ep_Subsets ep))))))"

section \<open>The translator\<close>

record GCETranslator =
  tr_ingresses :: "Ingress list"
  tr_services :: "Service list"
  tr_endpoints :: "Endpoints list"
  tr_nodes :: "Node list"
  tr_pods :: "Pod list"
  tr_negEnabled :: bool
  tr_defaultBackendNodePort :: ServicePort
  tr_unmarshal :: "string \<Rightarrow> string_map \<times> gerror option"
  tr_rng :: "string set \<Rightarrow> string list"
  tr_rng_ports :: "int set \<Rightarrow> int list"

definition find_service :: "Service list \<Rightarrow> string \<Rightarrow> string \<Rightarrow> Service option" where
  "find_service store ns name = find (\<lambda>svc. svc_Namespace svc = ns \<and> svc_Name svc = name) store"

definition port_matches :: "IntOrString \<Rightarrow> ApiServicePort \<Rightarrow> bool" where
  "port_matches want p = (case want of IntVal i \<Rightarrow> asp_Port p = i | StrVal s \<Rightarrow> asp_Name p = s)"

definition no_node_port :: "IngressBackend \<Rightarrow> string \<Rightarrow> gerror" where
  "no_node_port be msg = ErrorNodePortNotFound (ib_ServiceName be) (IntOrString_String (ib_ServicePort be)) (Errorf msg [])"

definition getServiceNodePort :: "GCETranslator \<Rightarrow> IngressBackend \<Rightarrow> string \<Rightarrow> ServicePort outcome" where
  "getServiceNodePort t be ns =
     (case find_service (tr_services t) ns (ib_ServiceName be) of
        None \<Rightarrow> Err (no_node_port be (''service '' @ ns @ ''/'' @ ib_ServiceName be @ '' not found in store''))
      | Some svc \<Rightarrow>
          (case ApplicationProtocols (tr_unmarshal t) (tr_rng t) (svc_Annotations svc) of
             Err err \<Rightarrow> Err (ErrorSvcAppProtosParsing (svc_Namespace svc) (svc_Name svc) err)
           | Panics p \<Rightarrow> Panics p
           | Ok appProtocols \<Rightarrow>
               (case find (port_matches (ib_ServicePort be)) (svc_Ports svc) of
                  None \<Rightarrow> Err (no_node_port be ''could not find matching nodeport from service'')
                | Some port \<Rightarrow>
                    Ok \<lparr>sp_Port = asp_NodePort port,
                        sp_Protocol = (case fmlookup appProtocols (asp_Name port) of
                                         Some proto \<Rightarrow> proto | None \<Rightarrow> ProtocolHTTP),
                        sp_SvcName = \<lparr>nn_Namespace = ns, nn_Name = ib_ServiceName be\<rparr>,
                        sp_SvcPort = ib_ServicePort be,
                        sp_SvcTargetPort = IntOrString_String (asp_TargetPort port),
                        sp_NEGEnabled = (tr_negEnabled t \<and> NEGEnabled (svc_Annotations svc))\<rparr>)))"

definition toGCEBackend ::
  "GCETranslator \<Rightarrow> 'b BackendPool \<Rightarrow> IngressBackend option \<Rightarrow> string \<Rightarrow> ('b, BackendService option) go" where
  "toGCEBackend t pool be ns =
     (case be of
        None \<Rightarrow> ret None
      | Some be \<Rightarrow>
          bind (lift_outcome (getServiceNodePort t be ns))
            (\<lambda>port. bind (wrap_err (\<lambda>_. Errorf (''no GCE backend exists for port '' @ Itoa (sp_Port port) @
                             '', kube backend '' @ ib_ServiceName be) []) (bp_Get pool (sp_Port port)))
               (\<lambda>backend. ret (Some backend))))"

fun is_node_port_not_found :: "gerror \<Rightarrow> bool" where
  "is_node_port_not_found (ErrorNodePortNotFound _ _ _) = True"
| "is_node_port_not_found _ = False"

definition DefaultHost :: string where "DefaultHost = ''*''"
definition DefaultPath :: string where "DefaultPath = ''/*''"

text \<open>An empty path or host is the catch-all.\<close>

definition path_of :: "HTTPIngressPath \<Rightarrow> string" where
  "path_of p = (if hp_Path p = [] then DefaultPath else hp_Path p)"

definition host_of :: "IngressRule \<Rightarrow> string" where
  "host_of rule = (if rule_Host rule = [] then DefaultHost else rule_Host rule)"

text \<open>The paths of a rule, in order: one without a node port is skipped, another error ends the conversion.\<close>

fun path_backends ::
  "GCETranslator \<Rightarrow> 'b BackendPool \<Rightarrow> string \<Rightarrow> HTTPIngressPath list \<Rightarrow> (string, BackendService option) gomap \<Rightarrow>
   ('b, (string, BackendService option) gomap) go" where
  "path_backends t pool ns [] pathToBackend = ret pathToBackend"
| "path_backends t pool ns (p # ps) pathToBackend =
     bind_err (toGCEBackend t pool (Some (hp_Backend p)) ns)
       (\<lambda>r. case r of
          Inl err \<Rightarrow> if is_node_port_not_found err then path_backends t pool ns ps pathToBackend else fail err
        | Inr backend \<Rightarrow>
            path_backends t pool ns ps (fmupd (path_of p) backend pathToBackend))"

fun host_backends ::
  "GCETranslator \<Rightarrow> 'b BackendPool \<Rightarrow> string \<Rightarrow> IngressRule list \<Rightarrow> GCEURLMap \<Rightarrow> ('b, GCEURLMap) go" where
  "host_backends t pool ns [] hostPathBackend = ret hostPathBackend"
| "host_backends t pool ns (rule # rules) hostPathBackend =
     (case rule_HTTP rule of
        None \<Rightarrow> host_backends t pool ns rules hostPathBackend
      | Some paths \<Rightarrow>
          bind (path_backends t pool ns paths fmempty)
            (\<lambda>pathToBackend. host_backends t pool ns rules
               (fmupd (host_of rule) pathToBackend hostPathBackend)))"

definition toURLMap :: "GCETranslator \<Rightarrow> 'b BackendPool \<Rightarrow> Ingress \<Rightarrow> ('b, GCEURLMap) go" where
  "toURLMap t pool ing =
     bind (host_backends t pool (ing_Namespace ing) (ing_Rules ing) fmempty)
       (\<lambda>hostPathBackend.
          bind_err (toGCEBackend t pool (ing_Backend ing) (ing_Namespace ing))
            (\<lambda>r. ret (PutDefaultBackend hostPathBackend (case r of Inl _ \<Rightarrow> None | Inr d \<Rightarrow> d))))"

text \<open>Service ports of Ingresses; a backend without one is left out.\<close>

definition ports_of_backend :: "GCETranslator \<Rightarrow> string \<Rightarrow> IngressBackend \<Rightarrow> ServicePort list" where
  "ports_of_backend t ns be = (case getServiceNodePort t be ns of Ok port \<Rightarrow> [port] | _ \<Rightarrow> [])"

definition ingressToNodePorts :: "GCETranslator \<Rightarrow> Ingress \<Rightarrow> ServicePort list" where
  "ingressToNodePorts t ing =
     (case ing_Backend ing of None \<Rightarrow> [] | Some be \<Rightarrow> ports_of_backend t (ing_Namespace ing) be) @
     concat (map (\<lambda>rule. case rule_HTTP rule of
         None \<Rightarrow> []
       | Some paths \<Rightarrow> concat (map (\<lambda>p. ports_of_backend t (ing_Namespace ing) (hp_Backend p)) paths)) (ing_Rules ing))"

definition toNodePorts :: "GCETranslator \<Rightarrow> Ingress list \<Rightarrow> ServicePort list" where
  "toNodePorts t ings = concat (map (ingressToNodePorts t) ings)"

section \<open>Zones and nodes\<close>

definition getZone :: "Node \<Rightarrow> string" where
  "getZone n = (case fmlookup (node_Labels n) ZoneKey of None \<Rightarrow> DefaultZone | Some zone \<Rightarrow> zone)"

text \<open>The first condition of type \<open>Ready\<close> decides.\<close>

definition getNodeReadyPredicate :: "Node \<Rightarrow> bool" where
  "getNodeReadyPredicate node =
     (case find (\<lambda>c. fst c = ''Ready'') (node_Conditions node) of
        None \<Rightarrow> False
      | Some c \<Rightarrow> snd c = ''True'')"

definition ready_nodes :: "GCETranslator \<Rightarrow> Node list" where
  "ready_nodes t = filter getNodeReadyPredicate (tr_nodes t)"

definition tr_GetZoneForNode :: "GCETranslator \<Rightarrow> string \<Rightarrow> string outcome" where
  "tr_GetZoneForNode t name =
     (case find (\<lambda>n. node_Name n = name) (ready_nodes t) of
        Some n \<Rightarrow> Ok (getZone n)
      | None \<Rightarrow> Err (Errorf (''node not found '' @ name) []))"

definition tr_ListZones :: "GCETranslator \<Rightarrow> string list outcome" where
  "tr_ListZones t = Ok (set_List (set (map getZone (ready_nodes t))))"

definition getReadyNodeNames :: "GCETranslator \<Rightarrow> string list" where
  "getReadyNodeNames t = map node_Name (filter (\<lambda>n. \<not> node_Unschedulable n) (ready_nodes t))"

section \<open>Probes\<close>

definition isSimpleHTTPProbe :: "Probe option \<Rightarrow> bool" where
  "isSimpleHTTPProbe probe =
     (case probe of
        None \<Rightarrow> False
      | Some p \<Rightarrow>
          (case pb_HTTPGet p of
             None \<Rightarrow> False
           | Some get \<Rightarrow>
               hga_Host get = [] \<and>
               (hga_HTTPHeaders get = [] \<or>
                length (hga_HTTPHeaders get) = 1 \<and> fst (hga_HTTPHeaders get ! 0) = ''Host'')))"

definition is_port :: "IntOrString \<Rightarrow> ContainerPort \<Rightarrow> bool" where
  "is_port want p = (case want of IntVal i \<Rightarrow> i = cp_ContainerPort p | StrVal s \<Rightarrow> s = cp_Name p)"

text \<open>The probe of a container when it fits and probes the target port.\<close>

definition container_probe :: "IntOrString \<Rightarrow> AppProtocol \<Rightarrow> Container \<Rightarrow> Probe option" where
  "container_probe targetPort protocol c =
     (if \<not> isSimpleHTTPProbe (cn_ReadinessProbe c) then None
      else let probe = the (cn_ReadinessProbe c); get = the (pb_HTTPGet probe) in
        if protocol \<noteq> hga_Scheme get then None
        else if list_ex (\<lambda>p. is_port targetPort p \<and> is_port (hga_Port get) p) (cn_Ports c) then Some probe
        else None)"

fun first_some :: "('a \<Rightarrow> 'b option) \<Rightarrow> 'a list \<Rightarrow> 'b option" where
  "first_some f [] = None"
| "first_some f (x # xs) = (case f x of Some y \<Rightarrow> Some y | None \<Rightarrow> first_some f xs)"

text \<open>By creation time, then by name: a stable sort by time of the list sorted by name.\<close>

definition PodsByCreationTimestamp :: "Pod list \<Rightarrow> Pod list" where
  "PodsByCreationTimestamp pods = sort_key pod_CreationTimestamp (sort_key pod_Name pods)"

definition getHTTPProbe :: "GCETranslator \<Rightarrow> Service \<Rightarrow> IntOrString \<Rightarrow> AppProtocol \<Rightarrow> Probe option" where
  "getHTTPProbe t svc targetPort protocol =
     first_some
       (\<lambda>pod. if pod_Namespace pod \<noteq> svc_Namespace svc then None
              else first_some (container_probe targetPort protocol) (pod_Containers pod))
       (PodsByCreationTimestamp (pod_List (tr_pods t) (svc_Selector svc)))"

text \<open>\<open>int32(port)\<close> wraps around.\<close>

definition int32 :: "int \<Rightarrow> int" where
  "int32 x = (x + 2 ^ 31) mod 2 ^ 32 - 2 ^ 31"

definition GetProbe :: "GCETranslator \<Rightarrow> probeProvider" where
  "GetProbe t port =
     (case first_some (\<lambda>svc. map_option (\<lambda>sp. (svc, sp)) (find (\<lambda>sp. int32 (sp_Port port) = asp_NodePort sp) (svc_Ports svc)))
             (tr_services t) of
        None \<Rightarrow> Err (Errorf (''unable to find nodeport '' @ Itoa (sp_Port port) @ '' in any service'') [])
      | Some (svc, svcPort) \<Rightarrow> Ok (getHTTPProbe t svc (asp_TargetPort svcPort) (sp_Protocol port)))"

section \<open>Ports\<close>

definition firewall_ports_of :: "GCETranslator \<Rightarrow> ServicePort \<Rightarrow> int list" where
  "firewall_ports_of t p =
     (if sp_NEGEnabled p
      then ListEndpointTargetPorts (tr_endpoints t) (nn_Namespace (sp_SvcName p)) (nn_Name (sp_SvcName p)) (sp_SvcTargetPort p)
      else [sp_Port p])"

definition gatherFirewallPorts :: "GCETranslator \<Rightarrow> ServicePort list \<Rightarrow> bool \<Rightarrow> int list" where
  "gatherFirewallPorts t svcPorts includeDefaultBackend =
     (let svcPorts = (if includeDefaultBackend then svcPorts @ [tr_defaultBackendNodePort t] else svcPorts)
      in tr_rng_ports t (set (concat (map (firewall_ports_of t) svcPorts))))"

definition uniq :: "(int set \<Rightarrow> int list) \<Rightarrow> ServicePort list \<Rightarrow> ServicePort list" where
  "uniq rng nodePorts =
     (let portMap = fold (\<lambda>p. fmupd (sp_Port p) p) nodePorts fmempty
      in map (\<lambda>k. the (fmlookup portMap k)) (rng (keys portMap)))"

section \<open>Certificates and runtime infos\<close>

type_synonym TlsLoader = "Ingress \<Rightarrow> TLSCerts option outcome"

definition quoted :: "string \<Rightarrow> string" where
  "quoted s = [char_of (39 :: nat)] @ s @ [char_of (39 :: nat)]"

text \<open>The secrets of the API server: namespace and name to the data of the secret.\<close>

definition TLSCertsFromSecretsLoader_Load :: "(string \<Rightarrow> string \<Rightarrow> string_map outcome) \<Rightarrow> TlsLoader" where
  "TLSCertsFromSecretsLoader_Load secrets ing =
     (case ing_TLS ing of
        [] \<Rightarrow> Ok None
      | tls # _ \<Rightarrow>
          let secretName = tls_SecretName tls in
          (case secrets (ing_Namespace ing) secretName of
             Err err \<Rightarrow> Err err
           | Panics p \<Rightarrow> Panics p
           | Ok dat \<Rightarrow>
               (case fmlookup dat ''tls.crt'' of
                  None \<Rightarrow> Err (Errorf (''secret '' @ secretName @ '' has no '' @ quoted ''tls.crt'') [])
                | Some cert \<Rightarrow>
                    (case fmlookup dat ''tls.key'' of
                       None \<Rightarrow> Err (Errorf (''secret '' @ secretName @ '' has no '' @ quoted ''tls.key'') [])
                     | Some key \<Rightarrow> Ok (Some \<lparr>tls_Key = key, tls_Cert = cert, tls_Chain = []\<rparr>)))))"

definition FakeTLSSecretLoader_Load :: "(string, TLSCerts option) gomap \<Rightarrow> TlsLoader" where
  "FakeTLSSecretLoader_Load fakeCerts ing =
     (case ing_TLS ing of
        [] \<Rightarrow> Ok None
      | tls # _ \<Rightarrow>
          (case fmlookup fakeCerts (tls_SecretName tls) of
             Some cert \<Rightarrow> Ok cert
           | None \<Rightarrow> Err (Errorf (''couldn't find secret for ingress '' @ ing_Name ing) [])))"

definition to_runtime_info :: "TlsLoader \<Rightarrow> Ingress \<Rightarrow> L7RuntimeInfo outcome" where
  "to_runtime_info load ing =
     (let ann = ing_Annotations ing;
          info = (\<lambda>tls. \<lparr>ri_Name = meta_key (ing_Namespace ing) (ing_Name ing), ri_IP = [], ri_TLS = tls,
                   ri_TLSName = UseNamedTLS ann, ri_AllowHTTP = AllowHTTP ann, ri_StaticIPName = StaticIPName ann\<rparr>)
      in if UseNamedTLS ann = []
         then (case load ing of Ok tls \<Rightarrow> Ok (info tls) | Err _ \<Rightarrow> Ok (info None) | Panics p \<Rightarrow> Panics p)
         else Ok (info None))"

definition toRuntimeInfo :: "TlsLoader \<Rightarrow> Ingress list \<Rightarrow> ('s, L7RuntimeInfo list) go" where
  "toRuntimeInfo load ings = map_each (\<lambda>ing. lift_outcome (to_runtime_info load ing)) ings"

section \<open>What the translation computes\<close>

definition backend_port :: "GCETranslator \<Rightarrow> string \<Rightarrow> IngressBackend \<Rightarrow> int option" where
  "backend_port t ns be = (case getServiceNodePort t be ns of Ok port \<Rightarrow> Some (sp_Port port) | _ \<Rightarrow> None)"

text \<open>
  The routing that an Ingress asks for: host to path to the node port of the service.
  A later rule for a host replaces an earlier one, and so do paths within a rule; a path without node port
  is not there.
\<close>

definition wanted_path :: "GCETranslator \<Rightarrow> string \<Rightarrow> HTTPIngressPath \<Rightarrow> (string \<rightharpoonup> int) \<Rightarrow> string \<rightharpoonup> int" where
  "wanted_path t ns p m =
     (case backend_port t ns (hp_Backend p) of Some port \<Rightarrow> m(path_of p \<mapsto> port) | None \<Rightarrow> m)"

definition wanted_host :: "GCETranslator \<Rightarrow> string \<Rightarrow> IngressRule \<Rightarrow> (string \<rightharpoonup> string \<rightharpoonup> int) \<Rightarrow> string \<rightharpoonup> string \<rightharpoonup> int" where
  "wanted_host t ns rule m =
     (case rule_HTTP rule of
        None \<Rightarrow> m
      | Some paths \<Rightarrow> m(host_of rule \<mapsto> fold (wanted_path t ns) paths Map.empty))"

definition ingress_ports :: "GCETranslator \<Rightarrow> Ingress \<Rightarrow> string \<rightharpoonup> string \<rightharpoonup> int" where
  "ingress_ports t ing = fold (wanted_host t (ing_Namespace ing)) (ing_Rules ing) Map.empty"

text \<open>A concrete map has a backend for each port of the abstract one, and nothing else.\<close>

definition backs :: "(int \<Rightarrow> BackendService \<Rightarrow> bool) \<Rightarrow> (string, BackendService option) gomap \<Rightarrow> (string \<rightharpoonup> int) \<Rightarrow> bool" where
  "backs P m w \<longleftrightarrow> (\<forall>path. case fmlookup m path of
     None \<Rightarrow> w path = None | Some x \<Rightarrow> \<exists>be port. x = Some be \<and> w path = Some port \<and> P port be)"

definition backs_hosts :: "(int \<Rightarrow> BackendService \<Rightarrow> bool) \<Rightarrow> GCEURLMap \<Rightarrow> (string \<rightharpoonup> string \<rightharpoonup> int) \<Rightarrow> bool" where
  "backs_hosts P g w \<longleftrightarrow> (\<forall>host. case fmlookup g host of
     None \<Rightarrow> w host = None | Some m \<Rightarrow> \<exists>x. w host = Some x \<and> backs P m x)"

lemma backs_empty: "backs P fmempty Map.empty" and backs_hosts_empty: "backs_hosts P fmempty Map.empty"
  by (simp_all add: backs_def backs_hosts_def)

lemma backs_upd: "backs P m w \<Longrightarrow> P port be \<Longrightarrow> backs P (fmupd path (Some be) m) (w(path \<mapsto> port))"
  by (simp add: backs_def cong: option.case_cong)

lemma backs_hosts_upd: "backs_hosts P g ws \<Longrightarrow> backs P m w \<Longrightarrow> backs_hosts P (fmupd host m g) (ws(host \<mapsto> w))"
  by (simp add: backs_hosts_def cong: option.case_cong)

lemma backs_SomeD: "backs P m w \<Longrightarrow> fmlookup m path = Some x \<Longrightarrow> \<exists>be port. x = Some be \<and> w path = Some port \<and> P port be"
  unfolding backs_def by (drule spec [of _ path]) simp

lemma backs_NoneD: "backs P m w \<Longrightarrow> fmlookup m path = None \<Longrightarrow> w path = None"
  unfolding backs_def by (drule spec [of _ path]) simp

lemma backs_hosts_SomeD: "backs_hosts P g w \<Longrightarrow> fmlookup g host = Some m \<Longrightarrow> \<exists>x. w host = Some x \<and> backs P m x"
  unfolding backs_hosts_def by (drule spec [of _ host]) simp

lemma backs_hosts_NoneD: "backs_hosts P g w \<Longrightarrow> fmlookup g host = None \<Longrightarrow> w host = None"
  unfolding backs_hosts_def by (drule spec [of _ host]) simp

lemma backs_no_nil: "backs_hosts P g w \<Longrightarrow> no_nil_backend g"
  unfolding no_nil_backend_def by (metis option.distinct(1) option.inject backs_SomeD backs_hosts_SomeD)

lemma keys_backs: "backs P m w \<Longrightarrow> keys m = dom w"
  unfolding set_eq_iff by (metis in_keys_iff domIff not_None_eq backs_SomeD backs_NoneD)

lemma keys_backs_hosts: "backs_hosts P g w \<Longrightarrow> keys g = dom w"
  unfolding set_eq_iff by (metis in_keys_iff domIff not_None_eq backs_hosts_SomeD backs_hosts_NoneD)

lemma backs_route:
  assumes "backs_hosts P g w" "\<And>port be. P port be \<Longrightarrow> be_SelfLink be = link port"
  shows "wanted_route g dflt host path = (case w host of None \<Rightarrow> dflt
     | Some m \<Rightarrow> (case m path of None \<Rightarrow> dflt | Some port \<Rightarrow> link port))"
proof (cases "fmlookup g host")
  case None
  with backs_hosts_NoneD [OF assms(1) None] show ?thesis by (simp add: wanted_route_def)
next
  case (Some m)
  then obtain x where x: "w host = Some x" "backs P m x" using backs_hosts_SomeD [OF assms(1)] by blast
  show ?thesis
  proof (cases "fmlookup m path")
    case None
    with backs_NoneD [OF x(2) None] x(1) Some show ?thesis by (simp add: wanted_route_def)
  next
    case b: (Some b)
    with backs_SomeD [OF x(2) b] x(1) Some assms(2) show ?thesis by (auto simp: wanted_route_def)
  qed
qed

lemma wanted_path_simps:
  "backend_port t ns (hp_Backend p) = Some port \<Longrightarrow> wanted_path t ns p w = w(path_of p \<mapsto> port)"
  "backend_port t ns (hp_Backend p) = None \<Longrightarrow> wanted_path t ns p w = w"
  by (simp_all add: wanted_path_def)

lemma wanted_host_simps:
  "rule_HTTP r = None \<Longrightarrow> wanted_host t ns r ws = ws"
  "rule_HTTP r = Some ps \<Longrightarrow> wanted_host t ns r ws = ws(host_of r \<mapsto> fold (wanted_path t ns) ps Map.empty)"
  by (simp_all add: wanted_host_def)

text \<open>
  What the translator relies on: looking up a port keeps the state of the backend pool in \<open>I\<close>, and the backend
  service that it returns is one for the port.
\<close>

locale backend_getter =
  fixes pool :: "'b BackendPool" and I :: "'b \<Rightarrow> bool" and P :: "int \<Rightarrow> BackendService \<Rightarrow> bool"
  assumes get_backend: "I b \<Longrightarrow> wp (bp_Get pool port) (\<lambda>r b'. I b' \<and> (\<forall>be. r = Ok be \<longrightarrow> P port be)) b"
begin

lemma wp_toGCEBackend:
  assumes "I b"
  shows "wp (toGCEBackend t pool (Some be) ns) (\<lambda>r b'. I b' \<and>
      (\<forall>x. r = Ok x \<longrightarrow> (\<exists>s port. x = Some s \<and> backend_port t ns be = Some port \<and> P port s)) \<and>
      (\<forall>err. r = Err err \<and> is_node_port_not_found err \<longrightarrow> backend_port t ns be = None)) b"
proof (cases "getServiceNodePort t be ns")
  case (Ok port)
  show ?thesis
    unfolding toGCEBackend_def option.case Ok wp_bind wp_lift_outcome on_ok_simps wp_wrap_err
  proof (rule wp_mono [OF get_backend [OF assms]], goal_cases)
    case (1 r b')
    then show ?case by (cases r) (auto simp: backend_port_def Ok wp_simps)
  qed
qed (use assms in \<open>auto simp: toGCEBackend_def wp_simps backend_port_def\<close>)

text \<open>A path or a host more refines the abstract map with the path or host added.\<close>

lemma wp_path_backends:
  assumes "I b" "backs P m w"
  shows "wp (path_backends t pool ns ps m) (\<lambda>r b'. I b' \<and> (\<forall>m'. r = Ok m' \<longrightarrow> backs P m' (fold (wanted_path t ns) ps w))) b"
  using assms
proof (induction ps arbitrary: b m w)
  case (Cons p ps)
  show ?case
    unfolding path_backends.simps wp_bind_err
  proof (rule wp_mono [OF wp_toGCEBackend [OF Cons.prems(1)]], goal_cases)
    case (1 r b')
    note IH = Cons.IH [of b']
    show ?case
    proof (cases r)
      case (Ok x)
      with 1 obtain s port where x: "x = Some s" "backend_port t ns (hp_Backend p) = Some port" "P port s" "I b'" by auto
      from IH [OF x(4) backs_upd [OF Cons.prems(2) x(3)], of "path_of p"] show ?thesis
        by (simp add: Ok x wanted_path_simps(1) [OF x(2)] fun_upd_def)
    next
      case (Err err)
      with 1 Cons.prems IH [of m w] show ?thesis by (auto simp: wanted_path_simps wp_simps)
    qed (use 1 in simp)
  qed
qed (simp add: wp_simps)

lemma wp_host_backends:
  assumes "I b" "backs_hosts P g w"
  shows "wp (host_backends t pool ns rules g)
     (\<lambda>r b'. I b' \<and> (\<forall>g'. r = Ok g' \<longrightarrow> backs_hosts P g' (fold (wanted_host t ns) rules w))) b"
  using assms
proof (induction rules arbitrary: b g w)
  case (Cons rule rules)
  show ?case
  proof (cases "rule_HTTP rule")
    case None
    with Cons show ?thesis by (simp add: wanted_host_simps)
  next
    case (Some paths)
    show ?thesis
      unfolding host_backends.simps Some option.case wp_bind
    proof (rule wp_mono [OF wp_path_backends [OF Cons.prems(1) backs_empty]], goal_cases)
      case (1 r b')
      then show ?case
        using Cons.IH [OF _ backs_hosts_upd [OF Cons.prems(2)], of b'] by (cases r) (simp_all add: wanted_host_simps Some fun_upd_def)
    qed
  qed
qed (simp add: wp_simps)

lemma wp_toURLMap:
  assumes "I b"
  shows "wp (toURLMap t pool ing) (\<lambda>r b'. I b' \<and>
     (\<forall>g. r = Ok g \<longrightarrow> (\<exists>hosts d. g = PutDefaultBackend hosts d \<and> backs_hosts P hosts (ingress_ports t ing) \<and>
        (\<forall>s. d = Some s \<longrightarrow> (\<exists>be port. ing_Backend ing = Some be \<and> backend_port t (ing_Namespace ing) be = Some port \<and>
           P port s))))) b"
  unfolding toURLMap_def wp_bind
proof (rule wp_mono [OF wp_host_backends [OF assms backs_hosts_empty]], goal_cases)
  case (1 r b')
  show ?case
  proof (cases r)
    case (Ok hosts)
    with 1 have hosts: "I b'" "backs_hosts P hosts (ingress_ports t ing)" by (simp_all add: ingress_ports_def)
    show ?thesis
    proof (cases "ing_Backend ing")
      case None
      then show ?thesis using Ok hosts by (auto simp: toGCEBackend_def wp_simps)
    next
      case (Some be)
      show ?thesis
        unfolding Ok on_ok_simps wp_bind_err Some
        by (rule wp_mono [OF wp_toGCEBackend [OF hosts(1)]]) (use hosts(2) in \<open>auto simp: wp_simps split: outcome.split\<close>)
    qed
  qed (use 1 in simp_all)
qed

end

text \<open>Of an arbitrary pool nothing is known but that it returns backend services.\<close>

interpretation any_pool: backend_getter pool "\<lambda>_. True" "\<lambda>_ _. True" for pool
  by unfold_locales (rule wpI, simp)

text \<open>The backend pool itself returns the service of the port's name as it is in the cloud.\<close>

sublocale backends_over < getter: backend_getter "Backends_pool b"
  "\<lambda>s. inv (bes_cloud_st s) \<and> services (bes_cloud_st s) = S"
  "\<lambda>port be. S (Namer.Backend (bes_namer b) port) = Some be" for S
proof
  fix s :: "('c, 'n, 'h) Backends_state" and port assume s: "inv (bes_cloud_st s) \<and> services (bes_cloud_st s) = S"
  show "wp (bp_Get (Backends_pool b) port) (\<lambda>r s'. (inv (bes_cloud_st s') \<and> services (bes_cloud_st s') = S) \<and>
      (\<forall>be. r = Ok be \<longrightarrow> S (Namer.Backend (bes_namer b) port) = Some be)) s"
    unfolding Backends_pool_def BackendPool.select_convs be_Get_def wp_bind on_be_cloud_def wp_on_part
  proof (rule wp_mono [OF get_law], goal_cases)
    case (2 r c')
    with s show ?case by (cases r) (auto simp: wp_simps be_remember_def)
  qed (use s in simp)
qed

context backends_over
begin

lemmas wp_pool_toURLMap = getter.wp_toURLMap

end

lemma dom_wanted_paths: "dom (fold (wanted_path t ns) ps w) \<subseteq> dom w \<union> path_of ` set ps"
  by (induction ps arbitrary: w) (fastforce simp: wanted_path_def split: option.splits)+

lemma dom_wanted_hosts:
  "dom (fold (wanted_host t ns) rules w) = dom w \<union> host_of ` {r \<in> set rules. rule_HTTP r \<noteq> None}"
  by (induction rules arbitrary: w) (auto simp: wanted_host_def split: option.splits)

lemma wanted_hosts_paths:
  assumes "fold (wanted_host t ns) rules w host = Some x"
  shows "w host = Some x \<or> (\<exists>ps. x = fold (wanted_path t ns) ps Map.empty)"
  using assms
proof (induction rules arbitrary: w)
  case (Cons r rules)
  then have "wanted_host t ns r w host = Some x \<or> (\<exists>ps. x = fold (wanted_path t ns) ps Map.empty)" by simp
  then show ?case by (auto simp: wanted_host_def split: option.splits if_splits)
qed simp

lemma path_of_nonempty [simp]: "path_of p \<noteq> []" and host_of_nonempty [simp]: "host_of r \<noteq> []"
  by (simp_all add: path_of_def host_of_def DefaultPath_def DefaultHost_def)

section \<open>Properties\<close>

text \<open>
  C37: the url map of an Ingress is well formed, whatever the pool of backends answers: apart from the reserved
  entry for the default backend it has exactly the hosts of the HTTP rules, an empty host or path is replaced by
  the catch-all, and no backend is a nil pointer, which \<open>UpdateUrlMap\<close> would dereference.
\<close>

theorem url_map_well_formed:
  assumes run: "toURLMap t pool ing b = (Ok g, b')" and split: "GetDefaultBackend g = (d, rules)"
  shows "no_nil_backend rules \<and>
    keys rules = host_of ` {r \<in> set (ing_Rules ing). rule_HTTP r \<noteq> None} - {DefaultBackendKey} \<and>
    (\<forall>host m. fmlookup rules host = Some m \<longrightarrow> host \<noteq> [] \<and> [] \<notin> keys m)"
proof -
  from wpD [OF any_pool.wp_toURLMap run] obtain hosts d' where
    g: "g = PutDefaultBackend hosts d'" and hosts: "backs_hosts (\<lambda>_ _. True) hosts (ingress_ports t ing)" by auto
  from split have rules: "rules = fmdrop DefaultBackendKey hosts" by (simp add: g GetDefaultBackend_Put)
  have dom: "keys hosts = host_of ` {r \<in> set (ing_Rules ing). rule_HTTP r \<noteq> None}"
    by (simp add: keys_backs_hosts [OF hosts] ingress_ports_def dom_wanted_hosts)
  have "host \<noteq> [] \<and> [] \<notin> keys m" if m: "fmlookup hosts host = Some m" for host m
  proof -
    obtain x where "ingress_ports t ing host = Some x" "backs (\<lambda>_ _. True) m x" using backs_hosts_SomeD [OF hosts m] by blast
    moreover then obtain ps where "x = fold (wanted_path t (ing_Namespace ing)) ps Map.empty"
      using wanted_hosts_paths [of t "ing_Namespace ing" "ing_Rules ing" Map.empty host x] by (auto simp: ingress_ports_def)
    ultimately have "keys m \<subseteq> path_of ` set ps" using dom_wanted_paths [of t _ ps Map.empty] by (simp add: keys_backs)
    moreover have "host \<in> keys hosts" using m by (auto simp: in_keys_iff)
    moreover have "[] \<notin> path_of ` set ps" by (metis image_iff path_of_nonempty)
    ultimately show ?thesis unfolding dom by auto
  qed
  moreover have "no_nil_backend rules"
    using backs_no_nil [OF hosts] by (simp add: rules no_nil_backend_def)
  ultimately show ?thesis by (auto simp: rules dom split: if_splits)
qed

definition example_service :: Service where
  "example_service = \<lparr>svc_Name = ''web'', svc_Namespace = ''ns'', svc_Annotations = fmempty,
     svc_Ports = [\<lparr>asp_Name = ''http'', asp_Port = 80, asp_TargetPort = IntVal 8080, asp_NodePort = 30080\<rparr>], svc_Selector = fmempty\<rparr>"

definition example_translator :: GCETranslator where
  "example_translator = \<lparr>tr_ingresses = [], tr_services = [example_service], tr_endpoints = [], tr_nodes = [], tr_pods = [],
     tr_negEnabled = False, tr_defaultBackendNodePort = example_port 80 False, tr_unmarshal = (\<lambda>_. (fmempty, None)),
     tr_rng = set_List, tr_rng_ports = set_List\<rparr>"

definition example_ingress :: Ingress where
  "example_ingress = \<lparr>ing_Name = ''web'', ing_Namespace = ''ns'', ing_Annotations = fmempty, ing_Backend = None, ing_TLS = [],
     ing_Rules = [\<lparr>rule_Host = ''a.org'', rule_HTTP = Some
        [\<lparr>hp_Path = ''/x'', hp_Backend = \<lparr>ib_ServiceName = ''web'', ib_ServicePort = IntVal 80\<rparr>\<rparr>,
         \<lparr>hp_Path = ''/y'', hp_Backend = \<lparr>ib_ServiceName = ''gone'', ib_ServicePort = IntVal 80\<rparr>\<rparr>]\<rparr>], ing_StatusIPs = []\<rparr>"

text \<open>The backend pool after the node port of the service has been ensured.\<close>

definition example_backends_st where
  "example_backends_st = snd (ensureBackendService fake_backends (example_port 30080 False) [example_group] fake_backends_st)"

theorem url_map_well_formed_witness:
  "\<exists>g b' d rules. toURLMap example_translator (Backends_pool fake_backends) example_ingress example_backends_st = (Ok g, b') \<and>
     GetDefaultBackend g = (d, rules) \<and> no_nil_backend rules \<and> keys rules = {''a.org''}"
proof -
  let ?run = "toURLMap example_translator (Backends_pool fake_backends) example_ingress example_backends_st"
  have "is_ok (fst ?run)" by code_simp
  then obtain g b' where run: "?run = (Ok g, b')" by (cases ?run) (auto simp: is_ok_iff)
  obtain d rules where split: "GetDefaultBackend g = (d, rules)" by fastforce
  from url_map_well_formed [OF run split] run split show ?thesis
    by (auto simp: example_ingress_def host_of_def DefaultBackendKey_def)
qed

end
