(* ===== verification/Firewalls.thy ===== *)
theory Firewalls
  imports Namer
begin

text \<open>
  Package \<open>firewalls\<close> (\<open>pkg/firewalls\<close>): the one firewall rule that lets the load balancer's
  health checks and traffic reach the node ports. The cloud is a record of calls over an abstract
  state; the locale \<open>fw_cloud\<close> states what the API documents, and the fake provider of the package
  interprets it.
\<close>

section \<open>The cloud interface\<close>

record 'c Firewall_api =
  CreateFirewall :: "Firewall \<Rightarrow> ('c, unit) go"
  GetFirewall :: "string \<Rightarrow> ('c, Firewall) go"
  DeleteFirewall :: "string \<Rightarrow> ('c, unit) go"
  UpdateFirewall :: "Firewall \<Rightarrow> ('c, unit) go"
  GetNodeTags :: "string list \<Rightarrow> ('c, string list) go"
  NetworkProjectID :: "'c \<Rightarrow> string"
  NetworkURL :: "'c \<Rightarrow> string"
  OnXPN :: "'c \<Rightarrow> bool"

section \<open>The commands shown to a network administrator\<close>

text \<open>The \<open>gcloud\<close> command lines of the cloud provider (\<open>gce_util.go\<close> in \<open>vendor\<close>).\<close>

definition quoted :: "string \<Rightarrow> string" where
  "quoted s = [char_of (34 :: nat)] @ s @ [char_of (34 :: nat)]"

fun strings_Join :: "string list \<Rightarrow> string \<Rightarrow> string" where
  "strings_Join [] sep = []"
| "strings_Join [x] sep = x"
| "strings_Join (x # y # ys) sep = x @ sep @ strings_Join (y # ys) sep"

definition getNameFromLink :: "string \<Rightarrow> string" where
  "getNameFromLink link = last (Split link ''/'')"

definition firewallToGcloudArgs :: "Firewall \<Rightarrow> string \<Rightarrow> string" where
  "firewallToGcloudArgs fw projectID =
     ''--description '' @ quoted (fw_Description fw) @
     '' --allow '' @ strings_Join [fa_IPProtocol a @ '':'' @ p. a \<leftarrow> fw_Allowed fw, p \<leftarrow> fa_Ports a] '','' @
     '' --source-ranges '' @ strings_Join (fw_SourceRanges fw) '','' @
     '' --target-tags '' @ strings_Join (fw_TargetTags fw) '','' @
     '' --project '' @ projectID"

definition FirewallToGCloudCreateCmd :: "Firewall \<Rightarrow> string \<Rightarrow> string" where
  "FirewallToGCloudCreateCmd fw projectID =
     ''gcloud compute firewall-rules create '' @ fw_Name fw @ '' --network '' @
     getNameFromLink (fw_Network fw) @ '' '' @ firewallToGcloudArgs fw projectID"

definition FirewallToGCloudUpdateCmd :: "Firewall \<Rightarrow> string \<Rightarrow> string" where
  "FirewallToGCloudUpdateCmd fw projectID =
     ''gcloud compute firewall-rules update '' @ fw_Name fw @ '' '' @ firewallToGcloudArgs fw projectID"

definition FirewallToGCloudDeleteCmd :: "string \<Rightarrow> string \<Rightarrow> string" where
  "FirewallToGCloudDeleteCmd fwName projectID =
     ''gcloud compute firewall-rules delete '' @ fwName @ '' --project '' @ projectID"

section \<open>The firewall pool\<close>

definition l7SrcRanges :: "string list" where
  "l7SrcRanges = [''130.211.0.0/22'', ''35.191.0.0/16'']"

record 'c FirewallRules =
  frs_cloud :: "'c Firewall_api"
  frs_namer :: Namer
  frs_srcRanges :: "string list"

text \<open>The constant ranges parse as networks, so the fatal branch of the constructor is never taken.\<close>

definition NewFirewallPool :: "'c Firewall_api \<Rightarrow> Namer \<Rightarrow> 'c FirewallRules" where
  "NewFirewallPool cloud namer = \<lparr>frs_cloud = cloud, frs_namer = namer, frs_srcRanges = l7SrcRanges\<rparr>"

definition newFirewallXPNError :: "gerror \<Rightarrow> string \<Rightarrow> gerror" where
  "newFirewallXPNError internal cmd =
     FirewallSyncError internal (''Firewall change required by network admin: `'' @ cmd @ ''`'')"

definition createFirewallObject ::
  "'c FirewallRules \<Rightarrow> string \<Rightarrow> string \<Rightarrow> int list \<Rightarrow> string list \<Rightarrow> ('c, Firewall) go" where
  "createFirewallObject fr name description nodePorts nodeNames =
     bind (GetNodeTags (frs_cloud fr) nodeNames)
       (\<lambda>targetTags. read_state (\<lambda>c.
          \<lparr>fw_Name = name, fw_Description = description, fw_SourceRanges = frs_srcRanges fr,
           fw_Network = NetworkURL (frs_cloud fr) c,
           fw_Allowed = [\<lparr>fa_IPProtocol = ''tcp'', fa_Ports = sort (map Itoa nodePorts)\<rparr>],
           fw_TargetTags = sort targetTags\<rparr>))"

text \<open>
  The error handling that the three calls share: on a cross-project network a refused call is
  turned into an error that tells the administrator which command \<open>cmd\<close> to run.
\<close>

definition raising_xpn :: "'c FirewallRules \<Rightarrow> (string \<Rightarrow> string) \<Rightarrow> gerror \<Rightarrow> ('c, 'a) go" where
  "raising_xpn fr cmd e =
     bind (read_state (\<lambda>c. (OnXPN (frs_cloud fr) c, NetworkProjectID (frs_cloud fr) c)))
       (\<lambda>(xpn, project).
          if IsForbiddenError (Some e) \<and> xpn then fail (newFirewallXPNError e (cmd project)) else fail e)"

definition createFirewall :: "'c FirewallRules \<Rightarrow> Firewall \<Rightarrow> ('c, unit) go" where
  "createFirewall fr f =
     bind_err (CreateFirewall (frs_cloud fr) f)
       (\<lambda>r. case r of Inr u \<Rightarrow> ret () | Inl e \<Rightarrow> raising_xpn fr (FirewallToGCloudCreateCmd f) e)"

definition updateFirewall :: "'c FirewallRules \<Rightarrow> Firewall \<Rightarrow> ('c, unit) go" where
  "updateFirewall fr f =
     bind_err (UpdateFirewall (frs_cloud fr) f)
       (\<lambda>r. case r of Inr u \<Rightarrow> ret () | Inl e \<Rightarrow> raising_xpn fr (FirewallToGCloudUpdateCmd f) e)"

definition deleteFirewall :: "'c FirewallRules \<Rightarrow> string \<Rightarrow> ('c, unit) go" where
  "deleteFirewall fr name =
     bind_err (DeleteFirewall (frs_cloud fr) name)
       (\<lambda>r. case r of
          Inr u \<Rightarrow> ret ()
        | Inl e \<Rightarrow> if IsNotFoundError (Some e) then ret ()
                   else raising_xpn fr (FirewallToGCloudDeleteCmd name) e)"

definition fw_Shutdown :: "'c FirewallRules \<Rightarrow> ('c, unit) go" where
  "fw_Shutdown fr = deleteFirewall fr (FirewallRule (frs_namer fr))"

definition fw_GetFirewall :: "'c FirewallRules \<Rightarrow> string \<Rightarrow> ('c, Firewall) go" where
  "fw_GetFirewall fr name = GetFirewall (frs_cloud fr) name"

definition existing_ports :: "Firewall \<Rightarrow> string set" where
  "existing_ports rule = (\<Union>a \<in> set (fw_Allowed rule). set (fa_Ports a))"

definition fw_Sync :: "'c FirewallRules \<Rightarrow> int list \<Rightarrow> string list \<Rightarrow> ('c, unit) go" where
  "fw_Sync fr nodePorts nodeNames =
     (if nodePorts = [] then fw_Shutdown fr
      else let name = FirewallRule (frs_namer fr) in
        bind_err (GetFirewall (frs_cloud fr) name)
          (\<lambda>rule. bind (createFirewallObject fr name ''GCE L7 firewall rule'' nodePorts nodeNames)
             (\<lambda>firewall. case rule of
                Inl _ \<Rightarrow> createFirewall fr firewall
              | Inr rule \<Rightarrow>
                  if set (map Itoa nodePorts) = existing_ports rule \<and>
                     set l7SrcRanges = set (fw_SourceRanges rule)
                  then ret ()
                  else updateFirewall fr firewall)))"

section \<open>The fake provider\<close>

record fakeFirewallsProvider =
  ff_fw :: "(string, Firewall) gomap"
  ff_networkProjectID :: string
  ff_networkURL :: string
  ff_onXPN :: bool
  ff_fwReadOnly :: bool

definition NewFakeFirewallsProvider :: "bool \<Rightarrow> bool \<Rightarrow> fakeFirewallsProvider" where
  "NewFakeFirewallsProvider onXPN fwReadOnly =
     \<lparr>ff_fw = fmempty, ff_networkProjectID = ''test-network-project'',
      ff_networkURL = ''/path/to/my-network'', ff_onXPN = onXPN, ff_fwReadOnly = fwReadOnly\<rparr>"

definition ff_GetFirewall :: "string \<Rightarrow> (fakeFirewallsProvider, Firewall) go" where
  "ff_GetFirewall name =
     bind (read_state (\<lambda>ff. fmlookup (ff_fw ff) name))
       (\<lambda>r. case r of Some rule \<Rightarrow> ret rule | None \<Rightarrow> fail FakeGoogleAPINotFoundErr)"

definition doCreateFirewall :: "Firewall \<Rightarrow> (fakeFirewallsProvider, unit) go" where
  "doCreateFirewall f =
     bind (read_state (\<lambda>ff. fmlookup (ff_fw ff) (fw_Name f)))
       (\<lambda>r. case r of
          Some _ \<Rightarrow> fail (Errorf (''firewall rule '' @ fw_Name f @ '' already exists'') [])
        | None \<Rightarrow> modify_state (\<lambda>ff. ff\<lparr>ff_fw := fmupd (fw_Name f) f (ff_fw ff)\<rparr>))"

definition doDeleteFirewall :: "string \<Rightarrow> (fakeFirewallsProvider, unit) go" where
  "doDeleteFirewall name =
     bind (read_state (\<lambda>ff. fmlookup (ff_fw ff) name))
       (\<lambda>r. case r of
          None \<Rightarrow> fail FakeGoogleAPINotFoundErr
        | Some _ \<Rightarrow> modify_state (\<lambda>ff. ff\<lparr>ff_fw := fmdrop name (ff_fw ff)\<rparr>))"

definition doUpdateFirewall :: "Firewall \<Rightarrow> (fakeFirewallsProvider, unit) go" where
  "doUpdateFirewall f =
     bind (read_state (\<lambda>ff. fmlookup (ff_fw ff) (fw_Name f)))
       (\<lambda>r. case r of
          None \<Rightarrow> fail (Errorf (''update failed for rule '' @ fw_Name f @ '', rule not found'') [])
        | Some _ \<Rightarrow> modify_state (\<lambda>ff. ff\<lparr>ff_fw := fmupd (fw_Name f) f (ff_fw ff)\<rparr>))"

text \<open>A provider without write access refuses every change.\<close>

definition unless_read_only :: "(fakeFirewallsProvider, unit) go \<Rightarrow> (fakeFirewallsProvider, unit) go" where
  "unless_read_only m =
     bind (read_state ff_fwReadOnly)
       (\<lambda>ro. if ro then fail FakeGoogleAPIForbiddenErr else m)"

definition fakeFirewalls :: "fakeFirewallsProvider Firewall_api" where
  "fakeFirewalls =
     \<lparr>CreateFirewall = (\<lambda>f. unless_read_only (doCreateFirewall f)),
      GetFirewall = ff_GetFirewall,
      DeleteFirewall = (\<lambda>name. unless_read_only (doDeleteFirewall name)),
      UpdateFirewall = (\<lambda>f. unless_read_only (doUpdateFirewall f)),
      GetNodeTags = (\<lambda>nodeNames. ret nodeNames),
      NetworkProjectID = ff_networkProjectID, NetworkURL = ff_networkURL, OnXPN = ff_onXPN\<rparr>"

lemmas fake_fw_defs = fakeFirewalls_def unless_read_only_def doCreateFirewall_def doDeleteFirewall_def
  doUpdateFirewall_def ff_GetFirewall_def

section \<open>The contract of the cloud\<close>

text \<open>
  \<open>rules\<close> is the view of the cloud as a map from names to rules. A change either succeeds or
  returns an error and then leaves every rule as it was; whether the network belongs to another project
  does not change.
\<close>

type_synonym rule_view = "string \<Rightarrow> Firewall option"

locale fw_cloud =
  fixes cloud :: "'c Firewall_api" and rules :: "'c \<Rightarrow> rule_view"
  assumes get_law: "wp (GetFirewall cloud name) (\<lambda>r c'. rules c' = rules c \<and> OnXPN cloud c' = OnXPN cloud c \<and>
            (\<forall>f. r = Ok f \<longrightarrow> rules c name = Some f)) c"
    and tags_law: "wp (GetNodeTags cloud nodes) (\<lambda>_ c'. rules c' = rules c \<and> OnXPN cloud c' = OnXPN cloud c) c"
    and create_law: "wp (CreateFirewall cloud f) (\<lambda>r c'. OnXPN cloud c' = OnXPN cloud c \<and>
            rules c' = (if r = Ok () then (rules c)(fw_Name f \<mapsto> f) else rules c)) c"
    and update_law: "wp (UpdateFirewall cloud f) (\<lambda>r c'. OnXPN cloud c' = OnXPN cloud c \<and>
            rules c' = (if r = Ok () then (rules c)(fw_Name f \<mapsto> f) else rules c)) c"
    and delete_law: "wp (DeleteFirewall cloud name) (\<lambda>r c'. OnXPN cloud c' = OnXPN cloud c \<and>
            rules c' = (if r = Ok () then (rules c)(name := None) else rules c) \<and>
            (\<forall>e. r = Err e \<and> IsNotFoundError (Some e) \<longrightarrow> rules c name = None)) c"

interpretation fake_fw: fw_cloud fakeFirewalls "\<lambda>ff. fmlookup (ff_fw ff)"
  by unfold_locales
    (auto simp: fake_fw_defs wp_simps fun_eq_iff FakeGoogleAPINotFoundErr_def FakeGoogleAPIForbiddenErr_def
      IsNotFoundError_def split: option.splits)

text \<open>The rule that the load balancer needs, and the error that a refused call may not become.\<close>

definition lets_through :: "int list \<Rightarrow> Firewall option \<Rightarrow> bool" where
  "lets_through nodePorts rule =
     (case rule of
        None \<Rightarrow> nodePorts = []
      | Some f \<Rightarrow> nodePorts \<noteq> [] \<and> existing_ports f = Itoa ` set nodePorts \<and>
                  set (fw_SourceRanges f) = set l7SrcRanges)"

locale firewalls_over = fw_cloud "frs_cloud fr" rules
  for fr :: "'c FirewallRules" and rules :: "'c \<Rightarrow> rule_view" +
  assumes own_ranges: "frs_srcRanges fr = l7SrcRanges"
begin

abbreviation rule_name :: string where
  "rule_name \<equiv> FirewallRule (frs_namer fr)"

text \<open>
  What each write establishes: the frame; the wanted view on success; on failure the old view, and
  no bare refusal on a cross-project network.
\<close>

definition writes :: "rule_view \<Rightarrow> 'c \<Rightarrow> unit outcome \<Rightarrow> 'c \<Rightarrow> bool" where
  "writes wanted c r c' \<longleftrightarrow> OnXPN (frs_cloud fr) c' = OnXPN (frs_cloud fr) c \<and>
     rules c' = (if r = Ok () then wanted else rules c) \<and>
     (\<forall>e. r = Err e \<and> OnXPN (frs_cloud fr) c \<longrightarrow> \<not> IsForbiddenError (Some e))"

lemma not_forbidden_xpn [simp]: "\<not> IsForbiddenError (Some (newFirewallXPNError e cmd))"
  by (simp add: IsForbiddenError_def IsHTTPErrorCode_def newFirewallXPNError_def)

lemma wp_raising_xpn:
  assumes "OnXPN (frs_cloud fr) c' = OnXPN (frs_cloud fr) c" "rules c' = rules c"
  shows "wp (raising_xpn fr cmd e) (writes wanted c) c'"
  using assms by (auto simp: raising_xpn_def wp_simps writes_def)

lemma wp_create: "wp (createFirewall fr f) (writes ((rules c)(fw_Name f \<mapsto> f)) c) c"
  unfolding createFirewall_def wp_simps
proof (rule wp_mono [OF create_law], goal_cases)
  case (1 r c')
  then show ?case by (cases r) (auto simp: wp_simps writes_def intro: wp_raising_xpn)
qed

lemma wp_update: "wp (updateFirewall fr f) (writes ((rules c)(fw_Name f \<mapsto> f)) c) c"
  unfolding updateFirewall_def wp_simps
proof (rule wp_mono [OF update_law], goal_cases)
  case (1 r c')
  then show ?case by (cases r) (auto simp: wp_simps writes_def intro: wp_raising_xpn)
qed

lemma wp_delete: "wp (deleteFirewall fr name) (writes ((rules c)(name := None)) c) c"
  unfolding deleteFirewall_def wp_simps
proof (rule wp_mono [OF delete_law], goal_cases)
  case (1 r c')
  then show ?case
    by (cases r) (auto simp: wp_simps writes_def fun_upd_idem intro: wp_raising_xpn)
qed

lemma wp_object:
  "wp (createFirewallObject fr name d ports nodes)
     (\<lambda>r c'. rules c' = rules c \<and> OnXPN (frs_cloud fr) c' = OnXPN (frs_cloud fr) c \<and>
        (\<forall>f. r = Ok f \<longrightarrow> fw_Name f = name \<and> (ports \<noteq> [] \<longrightarrow> lets_through ports (Some f)))) c"
  unfolding createFirewallObject_def wp_simps
proof (rule wp_mono [OF tags_law], goal_cases)
  case (1 r c')
  then show ?case
    by (cases r) (auto simp: wp_simps lets_through_def existing_ports_def own_ranges)
qed

text \<open>
  The rule after synchronising: the wanted one on success, else untouched. A refusal that is not
  turned into the administrator's command can only come from looking up the node tags.
\<close>

lemma wp_Sync:
  "wp (fw_Sync fr ports nodes)
     (\<lambda>r c'. (\<forall>n. n \<noteq> rule_name \<longrightarrow> rules c' n = rules c n) \<and>
        (case r of
           Ok _ \<Rightarrow> lets_through ports (rules c' rule_name)
         | _ \<Rightarrow> rules c' rule_name = rules c rule_name)) c"
  (is "wp _ ?Q c")
proof (cases "ports = []")
  case True
  have "wp (deleteFirewall fr rule_name) ?Q c"
    by (rule wp_mono [OF wp_delete]) (auto simp: writes_def lets_through_def True split: outcome.splits)
  with True show ?thesis by (simp add: fw_Sync_def fw_Shutdown_def)
next
  case False
  have done_write: "?Q r c2" if "writes ((rules c1)(rule_name \<mapsto> f)) c1 r c2" "rules c1 = rules c"
    "lets_through ports (Some f)" for r f c1 c2
    using that by (auto simp: writes_def split: outcome.splits)
  have cont: "wp (bind (createFirewallObject fr rule_name d ports nodes)
      (\<lambda>f. case rule of Inl _ \<Rightarrow> createFirewall fr f
         | Inr rule \<Rightarrow> if set (map Itoa ports) = existing_ports rule \<and>
                         set l7SrcRanges = set (fw_SourceRanges rule)
                      then ret () else updateFirewall fr f)) ?Q c1"
    if c1: "rules c1 = rules c" and rule: "\<forall>f. rule = Inr f \<longrightarrow> rules c rule_name = Some f" for c1 rule d
    unfolding wp_bind
  proof (rule wp_mono [OF wp_object], goal_cases)
    case (1 r c2)
    show ?case
    proof (cases r)
      case (Ok f)
      with 1 False c1 have f: "rules c2 = rules c" "lets_through ports (Some f)" "fw_Name f = rule_name"
        by auto
      have upd: "wp (updateFirewall fr f) ?Q c2"
        by (rule wp_mono [OF wp_update], rule done_write [of c2 f]) (use f in simp_all)
      have "wp (createFirewall fr f) ?Q c2"
        by (rule wp_mono [OF wp_create], rule done_write [of c2 f]) (use f in simp_all)
      with upd Ok rule f(1) show ?thesis
        by (cases rule) (auto simp: wp_simps lets_through_def False)
    qed (use 1 c1 in auto)
  qed
  show ?thesis
    unfolding fw_Sync_def Let_def if_not_P [OF False] wp_bind_err
  proof (rule wp_mono [OF get_law], goal_cases)
    case (1 r c1)
    show ?case
    proof (cases r)
      case (Ok f)
      with 1 cont [of c1 "Inr f"] show ?thesis by simp
    next
      case (Err e)
      with 1 cont [of c1 "Inl e"] show ?thesis by simp
    qed (use 1 in simp)
  qed
qed

lemma wp_object_explained:
  assumes "\<And>c1. OnXPN (frs_cloud fr) c1 \<Longrightarrow> \<exists>ts. fst (GetNodeTags (frs_cloud fr) nodes c1) = Ok ts"
    and "OnXPN (frs_cloud fr) c"
  shows "wp (createFirewallObject fr name d ports nodes)
     (\<lambda>r c'. OnXPN (frs_cloud fr) c' \<and> (\<forall>e. r \<noteq> Err e)) c"
proof -
  from assms obtain ts c' where "GetNodeTags (frs_cloud fr) nodes c = (Ok ts, c')"
    by (metis prod.collapse)
  moreover from wpD [OF tags_law this] assms(2) have "OnXPN (frs_cloud fr) c'" by simp
  ultimately show ?thesis
    by (simp add: createFirewallObject_def wp_simps) (simp add: wp_def)
qed

lemma wp_Sync_explained:
  assumes tags: "\<And>c1. OnXPN (frs_cloud fr) c1 \<Longrightarrow> \<exists>ts. fst (GetNodeTags (frs_cloud fr) nodes c1) = Ok ts"
    and xpn: "OnXPN (frs_cloud fr) c"
  shows "wp (fw_Sync fr ports nodes) (\<lambda>r _. \<forall>e. r = Err e \<longrightarrow> \<not> IsForbiddenError (Some e)) c"
    (is "wp _ ?Q c")
proof (cases "ports = []")
  case True
  have "wp (deleteFirewall fr rule_name) ?Q c"
    by (rule wp_mono [OF wp_delete]) (use xpn in \<open>auto simp: writes_def\<close>)
  with True show ?thesis by (simp add: fw_Sync_def fw_Shutdown_def)
next
  case False
  have ops: "wp (createFirewall fr f) ?Q c1" "wp (updateFirewall fr f) ?Q c1"
    if "OnXPN (frs_cloud fr) c1" for f c1
    using that by (auto intro: wp_mono [OF wp_create] wp_mono [OF wp_update] simp: writes_def)
  have cont: "wp (bind (createFirewallObject fr rule_name d ports nodes)
      (\<lambda>f. case rule of Inl _ \<Rightarrow> createFirewall fr f
         | Inr rule \<Rightarrow> if set (map Itoa ports) = existing_ports rule \<and>
                         set l7SrcRanges = set (fw_SourceRanges rule)
                      then ret () else updateFirewall fr f)) ?Q c1"
    if "OnXPN (frs_cloud fr) c1" for d rule c1
    unfolding wp_bind
  proof (rule wp_mono [OF wp_object_explained [OF tags that]], assumption, goal_cases)
    case (1 r c2)
    then show ?case by (cases r; cases rule) (simp_all add: ops wp_simps)
  qed
  show ?thesis
    unfolding fw_Sync_def Let_def if_not_P [OF False] wp_bind_err
  proof (rule wp_mono [OF get_law], goal_cases)
    case (1 r c1)
    show ?case
    proof (cases r)
      case (Ok f)
      with 1 xpn cont [of c1 _ "Inr f"] show ?thesis by simp
    next
      case (Err e)
      with 1 xpn cont [of c1 _ "Inl e"] show ?thesis by simp
    qed simp
  qed
qed

end

section \<open>Properties\<close>

lemma NewFirewallPool_sel [simp]:
  "frs_cloud (NewFirewallPool cloud namer) = cloud" "frs_namer (NewFirewallPool cloud namer) = namer"
  "frs_srcRanges (NewFirewallPool cloud namer) = l7SrcRanges"
  by (simp_all add: NewFirewallPool_def)

lemma firewalls_over_New: "fw_cloud cloud rules \<Longrightarrow> firewalls_over (NewFirewallPool cloud namer) rules"
  by (simp add: firewalls_over_def firewalls_over_axioms_def)

text \<open>
  C20: after a successful synchronisation the firewall lets exactly the given node ports
  through from exactly the source ranges of the load balancer, and without node ports there is no rule;
  after a failure the rule is as before. No other rule of the project is ever changed.
\<close>

theorem firewall_sync:
  assumes "fw_cloud cloud rules"
    and "fw_Sync (NewFirewallPool cloud namer) ports nodes c = (r, c')"
  shows "(\<forall>n. n \<noteq> FirewallRule namer \<longrightarrow> rules c' n = rules c n) \<and>
     (case r of
        Ok _ \<Rightarrow> lets_through ports (rules c' (FirewallRule namer))
      | _ \<Rightarrow> rules c' (FirewallRule namer) = rules c (FirewallRule namer))"
  using wpD [OF firewalls_over.wp_Sync [OF firewalls_over_New [OF assms(1)]] assms(2)]
  by (simp split: outcome.splits)

definition fake_firewall_pool :: "fakeFirewallsProvider FirewallRules" where
  "fake_firewall_pool = NewFirewallPool fakeFirewalls (NewNamer ''uid1'' ''fw1'')"

interpretation fake_rules: firewalls_over fake_firewall_pool "\<lambda>ff. fmlookup (ff_fw ff)"
  unfolding fake_firewall_pool_def by (rule firewalls_over_New [OF fake_fw.fw_cloud_axioms])

theorem firewall_sync_witness:
  "\<exists>c'. fw_Sync fake_firewall_pool [80, 30301] [''node-a''] (NewFakeFirewallsProvider False False) = (Ok (), c') \<and>
     lets_through [80, 30301] (fmlookup (ff_fw c') (FirewallRule (NewNamer ''uid1'' ''fw1'')))"
proof -
  have "fst (fw_Sync fake_firewall_pool [80, 30301] [''node-a''] (NewFakeFirewallsProvider False False)) = Ok ()"
    by code_simp
  from run_outcome [OF this] obtain c' where
    "fw_Sync fake_firewall_pool [80, 30301] [''node-a''] (NewFakeFirewallsProvider False False) = (Ok (), c')" ..
  with firewall_sync [OF fake_fw.fw_cloud_axioms, of "NewNamer ''uid1'' ''fw1''"] show ?thesis
    by (fastforce simp: fake_firewall_pool_def)
qed



end
