(* ===== verification/Cluster_Manager.thy ===== *)
theory Cluster_Manager
  imports Translator Firewalls
begin

text \<open>
  The cluster manager (\<open>pkg/controller/cluster_manager.go\<close>): it drives the pools of instance groups,
  backends, load balancers and firewall rules through their interfaces. The manager is written over records of
  calls on one state; \<open>NewClusterManager\<close> assembles them from the pools of the other packages. The two
  backend pools share the cloud, the health checks and the node pool, and each has its own snapshot.
\<close>

section \<open>Interfaces\<close>

record 'w LoadBalancerPool =
  lp_Get :: "string \<Rightarrow> ('w, L7) go"
  lp_Add :: "L7RuntimeInfo \<Rightarrow> ('w, unit) go"
  lp_Delete :: "string \<Rightarrow> ('w, unit) go"
  lp_Sync :: "L7RuntimeInfo list \<Rightarrow> ('w, unit) go"
  lp_GC :: "string list \<Rightarrow> ('w, unit) go"
  lp_Shutdown :: "('w, unit) go"

record 'w SingleFirewallPool =
  fp_Sync :: "int list \<Rightarrow> string list \<Rightarrow> ('w, unit) go"
  fp_Shutdown :: "('w, unit) go"

section \<open>The cluster manager\<close>

record 'w ClusterManager =
  cm_ClusterNamer :: Namer
  cm_defaultBackendNodePort :: ServicePort
  cm_instancePool :: "'w NodePool"
  cm_backendPool :: "'w BackendPool"
  cm_l7Pool :: "'w LoadBalancerPool"
  cm_firewallPool :: "'w SingleFirewallPool"
  cm_rng_ports :: "int set \<Rightarrow> int list"

definition cm_IsHealthy :: "'w ClusterManager \<Rightarrow> ('w, unit) go" where
  "cm_IsHealthy c =
     bind_err (bp_List (cm_backendPool c))
       (\<lambda>r. case r of
          Inr _ \<Rightarrow> ret ()
        | Inl err \<Rightarrow> if IsHTTPErrorCode (Some err) StatusForbidden then ret () else fail err)"

fun is_firewall_sync_error :: "gerror \<Rightarrow> bool" where
  "is_firewall_sync_error (FirewallSyncError _ _) = True"
| "is_firewall_sync_error _ = False"

definition cm_shutdown :: "'w ClusterManager \<Rightarrow> ('w, unit) go" where
  "cm_shutdown c =
     bind (lp_Shutdown (cm_l7Pool c))
       (\<lambda>_. bind_err (fp_Shutdown (cm_firewallPool c))
          (\<lambda>r. case r of
             Inl err \<Rightarrow> if is_firewall_sync_error err then ret () else fail err
           | Inr _ \<Rightarrow> bp_Shutdown (cm_backendPool c)))"

definition cm_EnsureInstanceGroupsAndPorts :: "'w ClusterManager \<Rightarrow> ServicePort list \<Rightarrow> ('w, InstanceGroup list) go" where
  "cm_EnsureInstanceGroupsAndPorts c servicePorts =
     ensure_groups_for (cm_instancePool c) (cm_ClusterNamer c) (map sp_Port servicePorts)"

text \<open>The instance groups are returned together with an error; there are none when ensuring them failed.\<close>

definition cm_Checkpoint ::
  "'w ClusterManager \<Rightarrow> L7RuntimeInfo list \<Rightarrow> string list \<Rightarrow> ServicePort list \<Rightarrow> ServicePort list \<Rightarrow> int list \<Rightarrow>
   ('w, InstanceGroup list \<times> gerror option) go" where
  "cm_Checkpoint c lbs nodeNames backendServicePorts namedPorts firewallPorts =
     (let namedPorts = uniq (cm_rng_ports c)
            (if namedPorts \<noteq> [] then namedPorts @ [cm_defaultBackendNodePort c] else namedPorts);
          backendServicePorts = uniq (cm_rng_ports c) backendServicePorts
      in bind_err (cm_EnsureInstanceGroupsAndPorts c namedPorts)
           (\<lambda>r. case r of
              Inl err \<Rightarrow> ret ([], Some err)
            | Inr igs \<Rightarrow>
                bind_err
                  (bind (bp_Ensure (cm_backendPool c) backendServicePorts (Some igs))
                     (\<lambda>_. bind (np_Sync (cm_instancePool c) nodeNames)
                        (\<lambda>_. bind (lp_Sync (cm_l7Pool c) lbs)
                           (\<lambda>_. fp_Sync (cm_firewallPool c) firewallPorts nodeNames))))
                  (\<lambda>r. ret (igs, case r of Inl err \<Rightarrow> Some err | Inr _ \<Rightarrow> None))))"

definition cm_GC :: "'w ClusterManager \<Rightarrow> string list \<Rightarrow> ServicePort list \<Rightarrow> ('w, unit) go" where
  "cm_GC c lbNames nodePorts =
     bind_err (lp_GC (cm_l7Pool c) lbNames)
       (\<lambda>lbErr. bind_err (bp_GC (cm_backendPool c) nodePorts)
          (\<lambda>beErr. case lbErr of
             Inl err \<Rightarrow> fail err
           | Inr _ \<Rightarrow>
               (case beErr of
                  Inl err \<Rightarrow> fail err
                | Inr _ \<Rightarrow>
                    if lbNames = [] then np_DeleteInstanceGroup (cm_instancePool c) (InstanceGroup (cm_ClusterNamer c))
                    else ret ())))"

section \<open>The pools over one state\<close>

record ('i, 's, 'h, 'l, 'f) Cluster =
  w_instances :: "'i Instances_state"
  w_services :: 's
  w_checks :: 'h
  w_backends :: "BackendService option InMemoryPool"
  w_defaultBackends :: "BackendService option InMemoryPool"
  w_l7s :: "L7 InMemoryPool"
  w_glbcDefaultBackend :: "BackendService option"
  w_lbs :: 'l
  w_firewalls :: 'f

definition be_part :: "('i, 's, 'h, 'l, 'f) Cluster \<Rightarrow> ('s, 'i Instances_state, 'h) Backends_state" where
  "be_part w = \<lparr>bes_cloud_st = w_services w, bes_np_st = w_instances w, bes_hc_st = w_checks w, bes_snapshotter = w_backends w\<rparr>"

definition put_be :: "('s, 'i Instances_state, 'h) Backends_state \<Rightarrow> ('i, 's, 'h, 'l, 'f) Cluster \<Rightarrow> ('i, 's, 'h, 'l, 'f) Cluster" where
  "put_be b w = w\<lparr>w_services := bes_cloud_st b, w_instances := bes_np_st b, w_checks := bes_hc_st b, w_backends := bes_snapshotter b\<rparr>"

definition default_part :: "('i, 's, 'h, 'l, 'f) Cluster \<Rightarrow> ('s, 'i Instances_state, 'h) Backends_state" where
  "default_part w =
     \<lparr>bes_cloud_st = w_services w, bes_np_st = w_instances w, bes_hc_st = w_checks w, bes_snapshotter = w_defaultBackends w\<rparr>"

definition l7_part ::
  "('i, 's, 'h, 'l, 'f) Cluster \<Rightarrow> ('l, ('s, 'i Instances_state, 'h) Backends_state) L7s_state" where
  "l7_part w = \<lparr>l7s_snapshotter = w_l7s w, l7s_glbcDefaultBackend = w_glbcDefaultBackend w, l7s_cloud_st = w_lbs w,
     l7s_be_st = default_part w\<rparr>"

definition put_l7 ::
  "('l, ('s, 'i Instances_state, 'h) Backends_state) L7s_state \<Rightarrow> ('i, 's, 'h, 'l, 'f) Cluster \<Rightarrow> ('i, 's, 'h, 'l, 'f) Cluster" where
  "put_l7 l w = (let b = l7s_be_st l in
     w\<lparr>w_l7s := l7s_snapshotter l, w_glbcDefaultBackend := l7s_glbcDefaultBackend l, w_lbs := l7s_cloud_st l,
       w_services := bes_cloud_st b, w_instances := bes_np_st b, w_checks := bes_hc_st b, w_defaultBackends := bes_snapshotter b\<rparr>)"

definition on_be_part where "on_be_part = on_part be_part put_be"
definition on_l7_part where "on_l7_part = on_part l7_part put_l7"
definition on_ins_part where "on_ins_part = on_part w_instances (\<lambda>i w. w\<lparr>w_instances := i\<rparr>)"
definition on_fw_part where "on_fw_part = on_part w_firewalls (\<lambda>f w. w\<lparr>w_firewalls := f\<rparr>)"

text \<open>The interfaces of the manager, over the pools.\<close>

definition cluster_manager ::
  "Namer \<Rightarrow> ServicePort \<Rightarrow> (int set \<Rightarrow> int list) \<Rightarrow> 'i Instances \<Rightarrow> ('s, 'i Instances_state, 'h) Backends \<Rightarrow>
   ('l, ('s, 'i Instances_state, 'h) Backends_state) L7s \<Rightarrow> 'f FirewallRules \<Rightarrow> ('i, 's, 'h, 'l, 'f) Cluster ClusterManager" where
  "cluster_manager namer port rng i b l f =
     \<lparr>cm_ClusterNamer = namer, cm_defaultBackendNodePort = port,
      cm_instancePool =
        \<lparr>np_EnsureInstanceGroupsAndPorts = (\<lambda>n ps. on_ins_part (EnsureInstanceGroupsAndPorts i n ps)),
         np_DeleteInstanceGroup = (\<lambda>n. on_ins_part (DeleteInstanceGroup i n)),
         np_Add = (\<lambda>n xs. on_ins_part (ins_Add i n xs)), np_Remove = (\<lambda>n xs. on_ins_part (ins_Remove i n xs)),
         np_Sync = (\<lambda>xs. on_ins_part (ins_Sync i xs)), np_Get = (\<lambda>n z. on_ins_part (ins_Get i n z))\<rparr>,
      cm_backendPool =
        \<lparr>bp_Ensure = (\<lambda>ps igs. on_be_part (be_Ensure b ps igs)), bp_Get = (\<lambda>p. on_be_part (be_Get b p)),
         bp_Delete = (\<lambda>p. on_be_part (be_Delete b p)), bp_GC = (\<lambda>ps. on_be_part (be_GC b ps)),
         bp_Shutdown = on_be_part (be_Shutdown b), bp_Status = (\<lambda>n. on_be_part (be_Status b n)),
         bp_List = on_be_part (be_List b), bp_Link = (\<lambda>p zs. on_be_part (be_Link b p zs))\<rparr>,
      cm_l7Pool =
        \<lparr>lp_Get = (\<lambda>n. on_l7_part (l7s_Get l n)), lp_Add = (\<lambda>ri. on_l7_part (l7s_Add l ri)),
         lp_Delete = (\<lambda>n. on_l7_part (l7s_Delete l n)), lp_Sync = (\<lambda>ris. on_l7_part (l7s_Sync l ris)),
         lp_GC = (\<lambda>ns. on_l7_part (l7s_GC l ns)), lp_Shutdown = on_l7_part (l7s_Shutdown l)\<rparr>,
      cm_firewallPool =
        \<lparr>fp_Sync = (\<lambda>ps ns. on_fw_part (fw_Sync f ps ns)), fp_Shutdown = on_fw_part (fw_Shutdown f)\<rparr>,
      cm_rng_ports = rng\<rparr>"

text \<open>
  The constructor, with the parts of the cloud that each pool uses and the translator that \<open>Init\<close> hands to the
  node pool and the main backend pool. Only the main pool spares the port of the default backend.
\<close>

record ('i, 's, 'h, 'l, 'f) GCECloud =
  gce_instances :: "'i InstanceGroups"
  gce_services :: "'s BackendServices"
  gce_negs :: NEGGetter
  gce_checks :: "'h HealthCheckProvider"
  gce_lbs :: "'l LoadBalancers"
  gce_firewalls :: "'f Firewall_api"

definition tr_zoneLister :: "GCETranslator \<Rightarrow> zoneLister" where
  "tr_zoneLister t = \<lparr>ListZones = tr_ListZones t, GetZoneForNode = tr_GetZoneForNode t\<rparr>"

definition NewClusterManager ::
  "('i, 's, 'h, 'l, 'f) GCECloud \<Rightarrow> Namer \<Rightarrow> ServicePort \<Rightarrow> string \<Rightarrow> (string set \<Rightarrow> string list) \<Rightarrow>
   (int set \<Rightarrow> int list) \<Rightarrow> GCETranslator \<Rightarrow> ('i, 's, 'h, 'l, 'f) Cluster ClusterManager" where
  "NewClusterManager cloud namer defaultBackendNodePort defaultHealthCheckPath rng rng_ports tr =
     (let i = \<lparr>ins_cloud = gce_instances cloud, ins_zoneLister = Some (tr_zoneLister tr), ins_namer = namer, ins_rng = rng\<rparr>;
          checker = (\<lambda>path. HealthChecker_of (NewHealthChecker (gce_checks cloud) path namer));
          backends = be_Init (GetProbe tr) (NewBackendPool (gce_services cloud) (gce_negs cloud) (checker defaultHealthCheckPath)
            (NodePool_of i) namer [sp_Port defaultBackendNodePort] rng);
          defaultBackends = NewBackendPool (gce_services cloud) (gce_negs cloud) (checker ''/healthz'')
            (NodePool_of i) namer [] rng;
          l7s = \<lparr>l7s_cloud = gce_lbs cloud, l7s_defaultBackendPool = Backends_pool defaultBackends,
            l7s_defaultBackendNodePort = defaultBackendNodePort, l7s_namer = namer, l7s_rng = rng\<rparr>
      in cluster_manager namer defaultBackendNodePort rng_ports i backends l7s (NewFirewallPool (gce_firewalls cloud) namer))"

section \<open>Collecting what is not wanted\<close>

lemma wp_on_be_part: "wp (on_be_part m) Q = (\<lambda>w. wp m (\<lambda>r b. Q r (put_be b w)) (be_part w))"
  by (simp add: on_be_part_def wp_on_part)

lemma wp_on_l7_part: "wp (on_l7_part m) Q = (\<lambda>w. wp m (\<lambda>r l. Q r (put_l7 l w)) (l7_part w))"
  by (simp add: on_l7_part_def wp_on_part)

lemma wp_on_ins_part: "wp (on_ins_part m) Q = (\<lambda>w. wp m (\<lambda>r i. Q r (w\<lparr>w_instances := i\<rparr>)) (w_instances w))"
  by (simp add: on_ins_part_def wp_on_part)

lemmas part_simps = be_part_def put_be_def default_part_def l7_part_def put_l7_def Let_def

locale cluster_over = lbs: l7s_over l view + bes: backends_over b services valid + dbs: backends_over db services valid +
    igs: instances_over i groups
  for l :: "('l, ('s, 'i Instances_state, 'h) Backends_state) L7s" and view :: "'l \<Rightarrow> lb_view"
    and b db :: "('s, 'i Instances_state, 'h) Backends" and services :: "'s \<Rightarrow> service_view" and valid :: "'s \<Rightarrow> bool"
    and i :: "'i Instances" and groups :: "'i \<Rightarrow> group_view" +
  assumes default_pool: "l7s_defaultBackendPool l = Backends_pool db"
    and ranges: "string_range (l7s_rng l)" "string_range (bes_rng b)"
begin

definition kept_ports :: "ServicePort list \<Rightarrow> ('i, 's, 'h, 'l, 'f) Cluster \<Rightarrow> string set" where
  "kept_ports ports w = keys (w_backends w) \<inter> ((\<lambda>p. portKey (sp_Port p)) ` set ports \<union> bes_ignoredPorts b)"

lemma wp_collect_backends:
  assumes "valid (w_services w)" "\<forall>k \<in> keys (w_backends w). \<exists>p < 2 ^ 16. k = portKey (int p)"
  shows "wp (on_be_part (be_GC b ports)) (\<lambda>r w'. w_l7s w' = w_l7s w \<and> w_lbs w' = w_lbs w \<and>
      kept_ports ports w \<subseteq> keys (w_backends w') \<and>
      (r = Ok () \<longrightarrow> keys (w_backends w') = kept_ports ports w \<and>
         (\<forall>p. portKey p \<in> keys (w_backends w) - kept_ports ports w \<longrightarrow> services (w_services w') (bes.be_name p) = None))) w"
  unfolding wp_on_be_part
proof (rule wp_mono [OF bes.wp_GC [OF ranges(2)]], goal_cases)
  case (3 r s')
  let ?known = "(\<lambda>p. portKey (sp_Port p)) ` set ports"
  have g: "bes.garbage ?known (be_part w) = keys (w_backends w) - kept_ports ports w"
    by (auto simp: bes.garbage_def kept_ports_def be_part_def)
  have "kept_ports ports w \<subseteq> keys (w_backends w)" by (simp add: kept_ports_def)
  then have minus: "keys (w_backends w) - (keys (w_backends w) - kept_ports ports w) = kept_ports ports w" by blast
  have pool: "bes_snapshotter (be_part w) = w_backends w" by (simp add: be_part_def)
  note gc = 3 [unfolded bes.gc_frame_def g pool minus]
  have "w_l7s (put_be s' w) = w_l7s w" "w_lbs (put_be s' w) = w_lbs w" "w_backends (put_be s' w) = bes_snapshotter s'"
      "w_services (put_be s' w) = bes_cloud_st s'"
    by (simp_all add: put_be_def)
  with gc show ?case by (cases r) simp_all
qed (use assms in \<open>simp_all add: be_part_def bes.canonical_def\<close>)

lemma wp_cm_GC:
  fixes w :: "('i, 's, 'h, 'l, 'f) Cluster" and lbNames :: "string list"
  assumes valid: "valid (w_services w)" and ports: "\<forall>k \<in> keys (w_backends w). \<exists>p < 2 ^ 16. k = portKey (int p)"
    and lbs: "\<forall>k\<in>keys (w_l7s w). LoadBalancer (l7s_namer l) k = k"
  defines "known \<equiv> LoadBalancer (l7s_namer l) ` set lbNames"
  shows "wp (cm_GC (cluster_manager namer port rng i b l f) lbNames nodePorts)
     (\<lambda>r w'. collecting (- known) (w_l7s w) (view (w_lbs w)) (w_l7s w') (view (w_lbs w')) \<and>
        kept_ports nodePorts w \<subseteq> keys (w_backends w') \<and>
        (r = Ok () \<longrightarrow> keys (w_l7s w') = keys (w_l7s w) \<inter> known \<and> keys (w_backends w') = kept_ports nodePorts w \<and>
           (\<forall>p. portKey p \<in> keys (w_backends w) - kept_ports nodePorts w \<longrightarrow> services (w_services w') (bes.be_name p) = None) \<and>
           (lbNames = [] \<longrightarrow> InstanceGroup namer \<notin> keys (ins_snapshotter (w_instances w'))))) w"
proof -
  have keys: "\<forall>k\<in>keys (l7s_snapshotter (l7_part w)). LoadBalancer (l7s_namer l) k = k"
    using lbs by (simp add: l7_part_def)
  let ?J = "\<lambda>s. valid (bes_cloud_st s)"
  have "?J (l7s_be_st (l7_part w))" using valid by (simp add: part_simps)
  moreover have "wp (bp_Delete (l7s_defaultBackendPool l) q) (\<lambda>_. ?J) s" if "?J s" for s q
    by (simp add: default_pool Backends_pool_def) (rule wp_mono [OF dbs.wp_Delete [OF that]], simp add: dbs.touches_def)
  ultimately have backends: "wp (l7s_GC l lbNames) (\<lambda>_ s'. ?J (l7s_be_st s')) (l7_part w)"
    by (rule lbs.wp_l7s_GC_backends [OF ranges(1) keys])
  show ?thesis
    unfolding cm_GC_def cluster_manager_def ClusterManager.select_convs LoadBalancerPool.select_convs
      BackendPool.select_convs NodePool.select_convs wp_bind_err wp_on_l7_part
  proof (rule wp_mono [OF wp_conj [OF lbs.wp_l7s_GC [OF ranges(1) keys] backends]], goal_cases)
    case (1 r s')
    let ?w = "put_l7 s' w"
    have w: "w_backends ?w = w_backends w" "kept_ports nodePorts ?w = kept_ports nodePorts w" "w_l7s ?w = l7s_snapshotter s'"
        "w_lbs ?w = l7s_cloud_st s'" "l7s_snapshotter (l7_part w) = w_l7s w" "l7s_cloud_st (l7_part w) = w_lbs w"
      by (simp_all add: part_simps kept_ports_def)
    have "valid (w_services ?w)" using 1 by (simp add: part_simps)
    from wp_collect_backends [OF this, of nodePorts] ports
    have "wp (on_be_part (be_GC b nodePorts)) Q ?w" if
      "\<And>r w'. w_l7s w' = l7s_snapshotter s' \<and> w_lbs w' = l7s_cloud_st s' \<and> kept_ports nodePorts w \<subseteq> keys (w_backends w') \<and>
         (r = Ok () \<longrightarrow> keys (w_backends w') = kept_ports nodePorts w \<and>
           (\<forall>p. portKey p \<in> keys (w_backends w) - kept_ports nodePorts w \<longrightarrow> services (w_services w') (bes.be_name p) = None))
         \<Longrightarrow> Q r w'" for Q
      using that by (auto simp: w elim!: wp_mono)
    note gc = this
    have known: "collecting (- known) (w_l7s w) (view (w_lbs w)) (l7s_snapshotter s') (view (l7s_cloud_st s'))"
        "r = Ok () \<Longrightarrow> keys (l7s_snapshotter s') = keys (w_l7s w) \<inter> known"
      using 1 by (simp_all add: w known_def)
    show ?case
    proof (cases r)
      case (Ok u)
      show ?thesis
        unfolding Ok outcome.case
      proof (rule gc, goal_cases)
        case (1 r' w')
        note step = this
        have "wp (on_ins_part (DeleteInstanceGroup i (InstanceGroup namer))) (\<lambda>_ w''.
            InstanceGroup namer \<notin> keys (ins_snapshotter (w_instances w'')) \<and> w_l7s w'' = w_l7s w' \<and> w_lbs w'' = w_lbs w' \<and>
            w_backends w'' = w_backends w' \<and> w_services w'' = w_services w') w'"
          unfolding wp_on_ins_part by (rule wp_mono [OF igs.wp_Delete]) simp
        then show ?case
          using step known Ok
          by (cases r'; cases "lbNames = []") (auto simp: wp_simps elim!: wp_mono)
      qed
    next
      case (Err e)
      show ?thesis
        unfolding Err outcome.case
        by (rule gc) (use 1 in \<open>auto simp: w known_def wp_simps split: outcome.split\<close>)
    next
      case (Panics p)
      with 1 show ?thesis by (auto simp: w known_def kept_ports_def)
    qed
  qed
qed

end

section \<open>Properties\<close>

text \<open>
  C38: the garbage collection of the cluster keeps the load balancers that are named and the backends whose ports
  are wanted, and forgets no load balancer resource that still exists, whatever fails. When it succeeds exactly the named
  load balancers remain and nothing of the others exists, the backend pool has exactly the wanted ports and the
  port of the default backend, the services of the others are gone, and with the last load balancer the instance
  group is given up.
\<close>

theorem cluster_gc:
  assumes cloud: "lb_cloud (gce_lbs cloud) view" "be_cloud (gce_services cloud) services valid" "ig_cloud (gce_instances cloud) groups"
    and rng: "string_range rng"
    and state: "valid (w_services w)" "\<forall>k \<in> keys (w_backends w). \<exists>p < 2 ^ 16. k = portKey (int p)"
      "\<forall>k\<in>keys (w_l7s w). LoadBalancer namer k = k"
    and run: "cm_GC (NewClusterManager cloud namer port path rng rng_ports tr) lbNames nodePorts w = (r, w')"
  defines "known \<equiv> LoadBalancer namer ` set lbNames"
    and "kept \<equiv> keys (w_backends w) \<inter> insert (portKey (sp_Port port)) ((\<lambda>p. portKey (sp_Port p)) ` set nodePorts)"
  shows "(\<forall>k\<in>known. fmlookup (w_l7s w') k = fmlookup (w_l7s w) k) \<and>
    pool_holds (w_l7s w) UNIV \<inter> live (view (w_lbs w')) \<subseteq> pool_holds (w_l7s w') UNIV \<and>
    kept \<subseteq> keys (w_backends w') \<and>
    (r = Ok () \<longrightarrow> keys (w_l7s w') = keys (w_l7s w) \<inter> known \<and>
       (\<forall>k\<in>- known. pool_holds (w_l7s w) {k} \<inter> live (view (w_lbs w')) = {}) \<and> keys (w_backends w') = kept \<and>
       (\<forall>p. portKey p \<in> keys (w_backends w) - kept \<longrightarrow> services (w_services w') (Namer.Backend namer p) = None) \<and>
       (lbNames = [] \<longrightarrow> InstanceGroup namer \<notin> keys (ins_snapshotter (w_instances w'))))"
proof -
  let ?i = "\<lparr>ins_cloud = gce_instances cloud, ins_zoneLister = Some (tr_zoneLister tr), ins_namer = namer, ins_rng = rng\<rparr>"
  let ?pool = "\<lambda>path ports. NewBackendPool (gce_services cloud) (gce_negs cloud)
    (HealthChecker_of (NewHealthChecker (gce_checks cloud) path namer)) (NodePool_of ?i) namer ports rng"
  let ?b = "be_Init (GetProbe tr) (?pool path [sp_Port port])" and ?db = "?pool ''/healthz'' []"
  let ?l = "\<lparr>l7s_cloud = gce_lbs cloud, l7s_defaultBackendPool = Backends_pool ?db, l7s_defaultBackendNodePort = port,
    l7s_namer = namer, l7s_rng = rng\<rparr>"
  have over: "cluster_over ?l view ?b ?db services valid ?i groups"
    using cloud rng
    by (simp add: cluster_over_def cluster_over_axioms_def l7s_over_def l7_over_def l7s_env_def backends_over_def instances_over_def
        be_Init_def NewBackendPool_def)
  have kept: "cluster_over.kept_ports ?b nodePorts w = kept"
    unfolding cluster_over.kept_ports_def [OF over] kept_def by (simp add: be_Init_def NewBackendPool_def)
  have run': "cm_GC (cluster_manager namer port rng_ports ?i ?b ?l (NewFirewallPool (gce_firewalls cloud) namer)) lbNames nodePorts w = (r, w')"
    using run by (simp add: NewClusterManager_def Let_def)
  have name: "bes_namer ?b = namer" by (simp add: be_Init_def NewBackendPool_def)
  have "\<forall>k\<in>keys (w_l7s w). LoadBalancer (l7s_namer ?l) k = k" using state(3) by simp
  note gc = wpD [OF cluster_over.wp_cm_GC [OF over state(1,2) this] run', unfolded name kept L7s.select_convs, folded known_def]
  then have c: "collecting (- known) (w_l7s w) (view (w_lbs w)) (w_l7s w') (view (w_lbs w'))" ..
  from gc c show ?thesis
    using collecting_holds [OF c] collecting_gone [OF c] by (auto simp: collecting_def)
qed

definition fake_cloud :: "(FakeInstanceGroups, FakeBackendServices, FakeHealthCheckProvider, FakeLoadBalancers, fakeFirewallsProvider) GCECloud" where
  "fake_cloud = \<lparr>gce_instances = fakeInstanceGroups, gce_services = fakeBackendServices None set_List,
     gce_negs = bes_negGetter fake_backends, gce_checks = fakeHealthCheckProvider, gce_lbs = fakeLoadBalancers,
     gce_firewalls = fakeFirewalls\<rparr>"

definition example_cm where
  "example_cm = NewClusterManager fake_cloud (NewNamer ''uid1'' []) (example_port 80 False) ''/'' set_List set_List example_translator"

text \<open>Two load balancers and backends for the ports 7 and 8.\<close>

definition example_cluster where
  "example_cluster = \<lparr>w_instances = bes_np_st fake_backends_st, w_services = NewFakeBackendServices, w_checks = NewFakeHealthCheckProvider,
     w_backends = bes_snapshotter two_port_pool, w_defaultBackends = NewInMemoryPool, w_l7s = l7s_snapshotter two_lbs,
     w_glbcDefaultBackend = None, w_lbs = l7s_cloud_st two_lbs, w_firewalls = NewFakeFirewallsProvider False False\<rparr>"

theorem cluster_gc_witness:
  "\<exists>w'. cm_GC example_cm [''ns/a''] [example_port 7 False] example_cluster = (Ok (), w') \<and>
     keys (w_l7s w') = {''ns-a--uid1''} \<and> keys (w_backends w') = {portKey 7}"
proof -
  have "fst (cm_GC example_cm [''ns/a''] [example_port 7 False] example_cluster) = Ok ()" by code_simp
  from run_outcome [OF this] obtain w' where
    run: "cm_GC example_cm [''ns/a''] [example_port 7 False] example_cluster = (Ok (), w')" ..
  have backends: "keys (w_backends example_cluster) = {portKey 7, portKey 8}"
    by (simp add: example_cluster_def two_port_pool_def be_remember_def pool_defs fake_backends_st_def)
  then have ports: "\<forall>k \<in> keys (w_backends example_cluster). \<exists>p < 2 ^ 16. k = portKey (int p)"
    by (auto intro: exI [of _ "7 :: nat"] exI [of _ "8 :: nat"])
  have lbs: "keys (w_l7s example_cluster) = {''ns-a--uid1'', ''ns-b--uid1''}"
    by (auto simp: example_cluster_def in_keys_iff two_lbs_pool split: if_splits)
  have "LoadBalancer (NewNamer ''uid1'' []) ''ns-a--uid1'' = ''ns-a--uid1''"
    "LoadBalancer (NewNamer ''uid1'' []) ''ns-b--uid1'' = ''ns-b--uid1''" by code_simp+
  then have canon: "\<forall>k\<in>keys (w_l7s example_cluster). LoadBalancer (NewNamer ''uid1'' []) k = k" by (simp add: lbs)
  have known: "LoadBalancer (NewNamer ''uid1'' []) ` set [''ns/a''] = {''ns-a--uid1''}" by code_simp
  have cloud: "lb_cloud (gce_lbs fake_cloud) flb_view"
      "be_cloud (gce_services fake_cloud) (\<lambda>f. fmlookup (fbs_services f)) fbs_inv" "ig_cloud (gce_instances fake_cloud) fig_groups"
    by (simp_all add: fake_cloud_def fake_lb.lb_cloud_axioms fake_be.be_cloud_axioms fake_ig.ig_cloud_axioms)
  have valid: "fbs_inv (w_services example_cluster)" by (simp add: example_cluster_def)
  have kept: "{portKey 7, portKey 8} \<inter> insert (portKey (sp_Port (example_port 80 False)))
      ((\<lambda>p. portKey (sp_Port p)) ` set [example_port 7 False]) = {portKey 7}"
    by (auto simp: example_port_def portKey_def Itoa_inject)
  note gc = cluster_gc [OF cloud sorted_strings.string_range_axioms valid ports canon run [unfolded example_cm_def],
      unfolded known backends lbs kept]
  with run show ?thesis by auto
qed

text \<open>The cluster of fakes satisfies the laws of all pools at once.\<close>

interpretation example_collection: cluster_over example_l7s flb_view fake_backends fake_backends
    "\<lambda>f. fmlookup (fbs_services f)" fbs_inv "fake_pool [''zone-a'']" fig_groups
  by (intro cluster_over.intro example_pool.l7s_over_axioms fake_services.backends_over_axioms
      fake_instances.instances_over_axioms cluster_over_axioms.intro)
    (simp_all add: example_l7s_def fake_backends_fields sorted_strings.string_range_axioms)

end
