(* ===== verification/Controller.thy ===== *)
theory Controller
  imports Cluster_Manager
begin

text \<open>
  The load balancer controller (\<open>pkg/controller/controller.go\<close>): the sync of one Ingress key, which checkpoints
  the cluster, writes the url map and the status of the Ingress, and collects garbage however it ends; the sync of
  nodes; and the annotations that show the state of a load balancer to the user (\<open>loadbalancers.go\<close>).

  The controller holds the pointer that the pool returns and calls its methods; here a method is called by the
  name of the load balancer, and the object is read again afterwards. The API server is a record of calls.
\<close>

section \<open>JSON output\<close>

text \<open>
  \<open>json.Marshal\<close> of strings, maps of strings and the list of instance groups. Names, zones and states of
  cloud resources are ASCII.
\<close>

definition json_char :: "char \<Rightarrow> string" where
  "json_char c =
     (let n = of_char c :: nat; hex = hex_digit in
      if n = 34 \<or> n = 92 then [CHR 0x5C, c]
      else if n = 10 then [CHR 0x5C, CHR ''n''] else if n = 13 then [CHR 0x5C, CHR ''r''] else if n = 9 then [CHR 0x5C, CHR ''t'']
      else if n < 32 \<or> n = 60 \<or> n = 62 \<or> n = 38 then [CHR 0x5C] @ ''u00'' @ [hex (n div 16), hex (n mod 16)]
      else [c])"

definition json_string :: "string \<Rightarrow> string" where
  "json_string s = [dquote] @ concat (map json_char s) @ [dquote]"

fun comma_separated :: "string list \<Rightarrow> string" where
  "comma_separated [] = []"
| "comma_separated [x] = x"
| "comma_separated (x # xs) = x @ '','' @ comma_separated xs"

definition json_map :: "string_map \<Rightarrow> string" where
  "json_map m = ''{'' @ comma_separated (map (\<lambda>k. json_string k @ '':'' @ json_string (value_of m k)) (set_List (keys m))) @ ''}''"

definition json_groups :: "InstanceGroup list \<Rightarrow> string" where
  "json_groups igs =
     (if igs = [] then ''null''
      else ''['' @ comma_separated (map (\<lambda>ig. ''{'' @ json_string ''Name'' @ '':'' @ json_string (ig_Name ig) @ '','' @
        json_string ''Zone'' @ '':'' @ json_string (ig_Zone ig) @ ''}'') igs) @ '']'')"

definition setInstanceGroupsAnnotation :: "string_map \<Rightarrow> InstanceGroup list \<Rightarrow> string_map" where
  "setInstanceGroupsAnnotation existing igs = fmupd InstanceGroupsAnnotationKey (json_groups igs) existing"

section \<open>Annotations of a load balancer\<close>

definition K8sAnnotationPrefix :: string where "K8sAnnotationPrefix = ''ingress.kubernetes.io''"

definition annotate :: "string \<Rightarrow> string option \<Rightarrow> string_map \<Rightarrow> string_map" where
  "annotate what val m = (case val of Some v \<Rightarrow> fmupd (K8sAnnotationPrefix @ ''/'' @ what) v m | None \<Rightarrow> m)"

fun backend_states :: "'b BackendPool \<Rightarrow> string list \<Rightarrow> ('b, string_map) go" where
  "backend_states pool [] = ret fmempty"
| "backend_states pool (beName # names) =
     bind (bp_Status pool beName) (\<lambda>st. bind (backend_states pool names) (\<lambda>m. ret (fmupd beName st m)))"

definition GetLBAnnotations :: "L7 \<Rightarrow> string_map \<Rightarrow> 'b BackendPool \<Rightarrow> ('b, string_map) go" where
  "GetLBAnnotations l7 existing pool =
     bind (backend_states pool (getBackendNames l7))
       (\<lambda>backendState. case l7_um l7 of
          None \<Rightarrow> panic ''nil pointer dereference''
        | Some um \<Rightarrow>
            ret (annotate ''backends'' (Some (json_map backendState))
              (annotate ''ssl-cert'' (map_option cert_Name (l7_sslCert l7))
                (annotate ''static-ip'' (map_option addr_Name (l7_ip l7))
                  (annotate ''https-target-proxy'' (map_option tps_Name (l7_tps l7))
                    (annotate ''https-forwarding-rule'' (map_option fr_Name (l7_fws l7))
                      (annotate ''target-proxy'' (map_option tp_Name (l7_tp l7))
                        (annotate ''forwarding-rule'' (map_option fr_Name (l7_fw l7))
                          (annotate ''url-map'' (Some (um_Name um)) existing)))))))))"

definition GCEResourceName :: "string_map \<Rightarrow> string \<Rightarrow> string" where
  "GCEResourceName ingAnnotations resourceName = value_of ingAnnotations (K8sAnnotationPrefix @ ''/'' @ resourceName)"

section \<open>The controller\<close>

record 'w IngressClient =
  ic_Get :: "string \<Rightarrow> string \<Rightarrow> ('w, Ingress) go"
  ic_Update :: "Ingress \<Rightarrow> ('w, unit) go"
  ic_UpdateStatus :: "Ingress \<Rightarrow> ('w, unit) go"

text \<open>\<open>lbc_UpdateUrlMap\<close> is \<open>UpdateUrlMap\<close> of the load balancer that the pool has under a name.\<close>

record 'w LoadBalancerController =
  lbc_client :: "'w IngressClient"
  lbc_cm :: "'w ClusterManager"
  lbc_UpdateUrlMap :: "string \<Rightarrow> GCEURLMap \<Rightarrow> ('w, unit) go"
  lbc_tlsLoader :: TlsLoader
  lbc_hasSynced :: bool

text \<open>\<open>storesSynced\<close>, with the \<open>endpointSynced\<close> that the constructor sets: constantly true unless NEGs are enabled.\<close>

definition storesSynced :: "bool \<Rightarrow> bool \<Rightarrow> bool \<Rightarrow> bool \<Rightarrow> bool \<Rightarrow> bool \<Rightarrow> bool" where
  "storesSynced negEnabled podSynced serviceSynced nodeSynced ingressSynced endpointSynced \<longleftrightarrow>
     podSynced \<and> serviceSynced \<and> nodeSynced \<and> ingressSynced \<and> (if negEnabled then endpointSynced else True)"

definition l7s_UpdateUrlMap :: "('c, 'b) L7s \<Rightarrow> string \<Rightarrow> GCEURLMap \<Rightarrow> (('c, 'b) L7s_state, unit) go" where
  "l7s_UpdateUrlMap p name rules =
     bind (l7s_Get p name) (\<lambda>lb. run_l7 [LoadBalancer (l7s_namer p) name] lb (UpdateUrlMap (l7s_env p) (l7s_rng p) rules))"

definition updateAnnotations :: "'w LoadBalancerController \<Rightarrow> string \<Rightarrow> string \<Rightarrow> string_map \<Rightarrow> ('w, unit) go" where
  "updateAnnotations lbc name ns ann =
     bind (ic_Get (lbc_client lbc) ns name)
       (\<lambda>currIng. if ing_Annotations currIng \<noteq> ann then ic_Update (lbc_client lbc) (currIng\<lparr>ing_Annotations := ann\<rparr>) else ret ())"

definition updateIngressStatus :: "'w LoadBalancerController \<Rightarrow> L7 \<Rightarrow> Ingress \<Rightarrow> ('w, unit) go" where
  "updateIngressStatus lbc l7 ing =
     (let ip = GetIP l7 in
      bind (ic_Get (lbc_client lbc) (ing_Namespace ing) (ing_Name ing))
        (\<lambda>currIng.
           let currIng = currIng\<lparr>ing_StatusIPs := [ip]\<rparr> in
           bind (if ip \<noteq> [] \<and> (ing_StatusIPs ing = [] \<or> hd (ing_StatusIPs ing) \<noteq> ip)
                 then ic_UpdateStatus (lbc_client lbc) currIng else ret ())
             (\<lambda>_. bind (GetLBAnnotations l7 (ing_Annotations currIng) (cm_backendPool (lbc_cm lbc)))
                (\<lambda>ann. updateAnnotations lbc (ing_Name ing) (ing_Namespace ing) ann))))"

text \<open>The keys of the Ingress store, and the Ingress of a key.\<close>

definition ing_key :: "Ingress \<Rightarrow> string" where
  "ing_key ing = meta_key (ing_Namespace ing) (ing_Name ing)"

definition ing_GetByKey :: "Ingress list \<Rightarrow> string \<Rightarrow> Ingress option" where
  "ing_GetByKey store key = find (\<lambda>ing. ing_key ing = key) store"

text \<open>The error of the checkpoint that the sync reports at its end; a firewall error only becomes an event.\<close>

definition checkpoint_error :: "bool \<Rightarrow> gerror option \<Rightarrow> gerror option" where
  "checkpoint_error ingExists err =
     (case err of
        None \<Rightarrow> None
      | Some e \<Rightarrow> if is_firewall_sync_error e then None
                  else Some (if ingExists then e else Errorf ''GCE, error'' [e]))"

definition link_negs :: "'w LoadBalancerController \<Rightarrow> GCETranslator \<Rightarrow> Ingress \<Rightarrow> ('w, unit) go" where
  "link_negs lbc t ing =
     (if tr_negEnabled t then
        for_each (\<lambda>svcPort.
            if sp_NEGEnabled svcPort then
              bind (lift_outcome (tr_ListZones t)) (\<lambda>zones. bp_Link (cm_backendPool (lbc_cm lbc)) svcPort zones)
            else ret ()) (toNodePorts t [ing])
      else ret ())"

definition also_error :: "gerror option \<Rightarrow> string \<Rightarrow> gerror \<Rightarrow> gerror" where
  "also_error syncError msg err = Errorf msg ((case syncError of None \<Rightarrow> [] | Some e \<Rightarrow> [e]) @ [err])"

text \<open>The update of url map and status; the result is the new value of \<open>syncError\<close>.\<close>

definition update_lb ::
  "'w LoadBalancerController \<Rightarrow> GCETranslator \<Rightarrow> string \<Rightarrow> Ingress \<Rightarrow> gerror option \<Rightarrow> ('w, gerror option) go" where
  "update_lb lbc t key ing syncError =
     bind_err (lp_Get (cm_l7Pool (lbc_cm lbc)) key)
       (\<lambda>r. case r of
          Inl err \<Rightarrow> ret (Some (also_error syncError ''unable to get loadbalancer'' err))
        | Inr _ \<Rightarrow>
            bind_err (toURLMap t (cm_backendPool (lbc_cm lbc)) ing)
              (\<lambda>r. case r of
                 Inl err \<Rightarrow> ret (Some (also_error syncError ''convert to url map error'' err))
               | Inr urlMap \<Rightarrow>
                   bind_err (lbc_UpdateUrlMap lbc key urlMap)
                     (\<lambda>r. case r of
                        Inl err \<Rightarrow> ret (Some (also_error syncError ''update url map error'' err))
                      | Inr _ \<Rightarrow>
                          bind_err (bind (lp_Get (cm_l7Pool (lbc_cm lbc)) key) (\<lambda>l7. updateIngressStatus lbc l7 ing))
                            (\<lambda>r. case r of
                               Inl err \<Rightarrow> ret (Some (also_error syncError ''update ingress error'' err))
                             | Inr _ \<Rightarrow> ret syncError))))"

text \<open>The part of a sync that runs before the deferred collection: the error returned, and the value of \<open>syncError\<close>.\<close>

definition sync_body ::
  "'w LoadBalancerController \<Rightarrow> GCETranslator \<Rightarrow> string \<Rightarrow> L7RuntimeInfo list \<Rightarrow> ('w, gerror option \<times> gerror option) go" where
  "sync_body lbc t key lbs =
     (let allNodePorts = toNodePorts t (ing_ListAll (tr_ingresses t));
          gceNodePorts = toNodePorts t (ListGCEIngresses (tr_ingresses t));
          obj = ing_GetByKey (tr_ingresses t) key
      in bind (cm_Checkpoint (lbc_cm lbc) lbs (getReadyNodeNames t) gceNodePorts allNodePorts
                 (gatherFirewallPorts t gceNodePorts (lbs \<noteq> [])))
           (\<lambda>(igs, err).
              let syncError = checkpoint_error (obj \<noteq> None) err in
              case obj of
                None \<Rightarrow> ret (syncError, syncError)
              | Some ing \<Rightarrow>
                  if isGCEMultiClusterIngress ing then
                    bind_err (updateAnnotations lbc (ing_Name ing) (ing_Namespace ing)
                                (setInstanceGroupsAnnotation (ing_Annotations ing) igs))
                      (\<lambda>r. ret (case r of Inl e \<Rightarrow> Some e | Inr _ \<Rightarrow> None, syncError))
                  else
                    bind_err (link_negs lbc t ing)
                      (\<lambda>r. case r of
                         Inl e \<Rightarrow> ret (Some e, syncError)
                       | Inr _ \<Rightarrow> bind (update_lb lbc t key ing syncError) (\<lambda>e. ret (e, e)))))"

text \<open>The deferred collection runs on every return and also on a panic; its error replaces the one returned.\<close>

definition with_gc :: "('w, unit) go \<Rightarrow> ('w, gerror option \<times> gerror option) go \<Rightarrow> ('w, unit) go" where
  "with_gc gc body w =
     (case body w of
        (Ok (err, syncError), w1) \<Rightarrow>
          (case gc w1 of
             (Err e, w2) \<Rightarrow> (Err (also_error syncError ''error during sync, error during GC'' e), w2)
           | (Panics p, w2) \<Rightarrow> (Panics p, w2)
           | (Ok _, w2) \<Rightarrow> ((case err of None \<Rightarrow> Ok () | Some e \<Rightarrow> Err e), w2))
      | (Err e, w1) \<Rightarrow> (Err e, snd (gc w1))
      | (Panics p, w1) \<Rightarrow> (Panics p, snd (gc w1)))"

definition lbc_sync :: "'w LoadBalancerController \<Rightarrow> GCETranslator \<Rightarrow> string \<Rightarrow> ('w, unit) go" where
  "lbc_sync lbc t key =
     (if \<not> lbc_hasSynced lbc then fail (Errorf ''waiting for stores to sync'' [])
      else bind (toRuntimeInfo (lbc_tlsLoader lbc) (ListGCEIngresses (tr_ingresses t)))
        (\<lambda>lbs. with_gc
           (cm_GC (lbc_cm lbc) (map ing_key (tr_ingresses t)) (toNodePorts t (ing_ListAll (tr_ingresses t))))
           (sync_body lbc t key lbs)))"

definition syncNodes :: "'w LoadBalancerController \<Rightarrow> GCETranslator \<Rightarrow> ('w, unit) go" where
  "syncNodes lbc t = np_Sync (cm_instancePool (lbc_cm lbc)) (getReadyNodeNames t)"

text \<open>The keys that an event of a service puts into the queue, and whether an event of an Ingress does.\<close>

definition enqueueIngressForService :: "GCETranslator \<Rightarrow> Service \<Rightarrow> string list" where
  "enqueueIngressForService t svc =
     (case GetServiceIngress (tr_ingresses t) svc of
        Ok ings \<Rightarrow> map ing_key (filter isGCEIngress ings)
      | _ \<Rightarrow> [])"

definition enqueues_ingress :: "Ingress \<Rightarrow> bool" where
  "enqueues_ingress ing \<longleftrightarrow> isGCEIngress ing \<or> isGCEMultiClusterIngress ing"

text \<open>\<open>Stop\<close>: the first call closes the channel and drains the queues; deleting the cluster can be repeated.\<close>

definition lbc_Stop :: "'w LoadBalancerController \<Rightarrow> bool \<Rightarrow> (bool \<times> 'w, unit) go" where
  "lbc_Stop lbc deleteAll =
     bind (modify_state (\<lambda>(shutdown, w). (True, w)))
       (\<lambda>_. if deleteAll then on_part snd (\<lambda>w (b, _). (b, w)) (cm_shutdown (lbc_cm lbc)) else ret ())"

section \<open>What a sync reports\<close>

text \<open>Runtime infos are computed without effect, and always when loading certificates does not panic.\<close>

lemma toRuntimeInfo_total:
  assumes "\<forall>ing p. load ing \<noteq> Panics p"
  shows "\<exists>lbs. \<forall>w :: 'w. toRuntimeInfo load ings w = (Ok lbs, w)"
proof (induction ings)
  case (Cons ing ings)
  then obtain lbs where lbs: "\<And>w :: 'w. toRuntimeInfo load ings w = (Ok lbs, w)" by blast
  obtain ri where "to_runtime_info load ing = Ok ri"
    using assms by (cases "load ing"; cases "UseNamedTLS (ing_Annotations ing) = []") (auto simp: to_runtime_info_def Let_def)
  with lbs show ?case by (auto simp: toRuntimeInfo_def bind_def ret_def lift_outcome_def)
qed (simp add: toRuntimeInfo_def ret_def)

lemma update_lb_reports:
  "wp (update_lb lbc t key ing syncError) (\<lambda>r w'. \<forall>e. r = Ok e \<longrightarrow> e = None \<longrightarrow> syncError = None) w"
  by (rule wpI)
    (auto simp: update_lb_def bind_err_def ret_def split: prod.splits outcome.splits sum.splits)

text \<open>When the body reports no error, the checkpoint had none, but for a firewall error or a multi-cluster Ingress.\<close>

definition hidden_error :: "GCETranslator \<Rightarrow> string \<Rightarrow> gerror \<Rightarrow> bool" where
  "hidden_error t key e \<longleftrightarrow> is_firewall_sync_error e \<or>
     (\<exists>ing. ing_GetByKey (tr_ingresses t) key = Some ing \<and> isGCEMultiClusterIngress ing)"

definition checkpoint :: "'w LoadBalancerController \<Rightarrow> GCETranslator \<Rightarrow> L7RuntimeInfo list \<Rightarrow> ('w, InstanceGroup list \<times> gerror option) go" where
  "checkpoint lbc t lbs =
     (let gceNodePorts = toNodePorts t (ListGCEIngresses (tr_ingresses t)) in
      cm_Checkpoint (lbc_cm lbc) lbs (getReadyNodeNames t) gceNodePorts (toNodePorts t (ing_ListAll (tr_ingresses t)))
        (gatherFirewallPorts t gceNodePorts (lbs \<noteq> [])))"

lemma sync_body_reports:
  assumes "sync_body lbc t key lbs w = (Ok (None, se), w1)"
  shows "\<exists>igs err w0. checkpoint lbc t lbs w = (Ok (igs, err), w0) \<and> (\<forall>e. err = Some e \<longrightarrow> hidden_error t key e)"
proof -
  obtain r0 w0 where cp: "checkpoint lbc t lbs w = (r0, w0)" by fastforce
  show ?thesis
  proof (cases r0)
    case (Ok x)
    obtain igs err where x: "x = (igs, err)" by fastforce
    have "hidden_error t key e" if "err = Some e" for e
    proof (rule ccontr)
      assume no: "\<not> hidden_error t key e"
      let ?obj = "ing_GetByKey (tr_ingresses t) key"
      have se: "checkpoint_error b err \<noteq> None" for b
        using no that by (simp add: checkpoint_error_def hidden_error_def)
      show False
      proof (cases ?obj)
        case None
        with assms cp Ok x se [of False] show False
          by (auto simp: sync_body_def checkpoint_def Let_def bind_def ret_def)
      next
        case (Some ing)
        then have multi: "\<not> isGCEMultiClusterIngress ing" using no by (simp add: hidden_error_def)
        obtain r2 w2 where link: "link_negs lbc t ing w0 = (r2, w2)" by fastforce
        show False
        proof (cases r2)
          case r2: (Ok u)
          obtain r3 w3 where upd: "update_lb lbc t key ing (checkpoint_error True err) w2 = (r3, w3)" by fastforce
          from wpD [OF update_lb_reports upd] se have "r3 \<noteq> Ok None" by auto
          with assms cp Ok x Some multi link r2 upd show False
            by (auto simp: sync_body_def checkpoint_def Let_def bind_def bind_err_def ret_def split: outcome.splits)
        qed (use assms cp Ok x Some multi link in
            \<open>auto simp: sync_body_def checkpoint_def Let_def bind_def bind_err_def ret_def\<close>)
      qed
    qed
    with cp Ok x show ?thesis by auto
  qed (use assms cp in \<open>auto simp: sync_body_def checkpoint_def Let_def bind_def\<close>)
qed

section \<open>Properties\<close>


text \<open>A failed checkpoint of a multi-cluster Ingress is not reported, so that the key is not tried again.\<close>

lemma multi_cluster_error_is_dropped:
  assumes "checkpoint lbc t lbs w = (Ok (igs, Some e), w0)" "ing_GetByKey (tr_ingresses t) key = Some ing"
    and "isGCEMultiClusterIngress ing"
    and "updateAnnotations lbc (ing_Name ing) (ing_Namespace ing) (setInstanceGroupsAnnotation (ing_Annotations ing) igs) w0 = (Ok (), w1)"
  shows "\<exists>se. sync_body lbc t key lbs w = (Ok (None, se), w1)"
  using assms by (auto simp: sync_body_def checkpoint_def Let_def bind_def bind_err_def ret_def)

text \<open>A controller over the fakes, whose only Ingress is a multi-cluster one.\<close>

definition multi_ingress :: Ingress where
  "multi_ingress = example_ingress\<lparr>ing_Name := ''a'', ing_Annotations := fmap_of_list [(IngressClassKey, GceMultiIngressClass)]\<rparr>"

definition example_lbc where
  "example_lbc = \<lparr>lbc_client = \<lparr>ic_Get = (\<lambda>ns n. ret multi_ingress), ic_Update = (\<lambda>_. ret ()), ic_UpdateStatus = (\<lambda>_. ret ())\<rparr>,
     lbc_cm = example_cm, lbc_UpdateUrlMap = (\<lambda>n g. on_l7_part (l7s_UpdateUrlMap example_l7s n g)),
     lbc_tlsLoader = (\<lambda>_. Ok None), lbc_hasSynced = True\<rparr>"


end
