(* ===== verification/Spec2Isabelle.thy ===== *)
theory Spec2Isabelle
  imports Storage Neg_Manager Controller
begin

text \<open>A verification development of the GCE ingress controller.\<close>

section \<open>From an Ingress to the cloud\<close>



end
